(* ===== verification/Go_Prelude.thy ===== *)
theory Go_Prelude
  imports Main
begin

section \<open>Go prelude: integers, time, errors, channels\<close>

text \<open>
  What the agent uses of Go itself, shared by every component theory.
  \<^item> \<open>int\<close> of the supported targets is 64 bits wide. A value is an HOL \<open>int\<close>; where the code
    computes with it and the result may leave the range, the result goes through \<open>wrap64\<close>.
  \<^item> A \<open>time.Duration\<close> is an \<open>int64\<close> number of nanoseconds, a \<open>time.Time\<close> is the number of
    nanoseconds since Go's zero time (January 1 of year 1), so that \<open>IsZero\<close> is equality with 0.
  \<^item> An \<open>error\<close> is a value of \<open>goerr\<close>; \<open>nil\<close> is \<open>None\<close>. A function that returns a value or an
    error has the type \<open>goerr + 'a\<close>.
  \<^item> A buffered channel is the list of its elements, oldest first.
\<close>

named_theorems go_defs \<open>definitions of the Go library layer that evaluate away\<close>

subsection \<open>Integers\<close>

definition wrap64 :: "int \<Rightarrow> int" where
  "wrap64 x = (x + 2 ^ 63) mod 2 ^ 64 - 2 ^ 63"

definition saturate64 :: "int \<Rightarrow> int" where
  "saturate64 x = max (- (2 ^ 63)) (min (2 ^ 63 - 1) x)"

definition int64_range :: "int \<Rightarrow> bool" where
  "int64_range x \<longleftrightarrow> - (2 ^ 63) \<le> x \<and> x < 2 ^ 63"

lemma wrap64_range [simp]: "int64_range (wrap64 x)"
  by (simp add: wrap64_def int64_range_def) 

lemma wrap64_id: "int64_range x \<Longrightarrow> wrap64 x = x"
  by (simp add: wrap64_def int64_range_def)

lemma wrap64_cong: "wrap64 x mod 2 ^ 64 = x mod 2 ^ 64"
  by (simp add: wrap64_def mod_simps)

lemma saturate64_id: "int64_range x \<Longrightarrow> saturate64 x = x"
  by (simp add: saturate64_def int64_range_def)

lemma saturate64_range [simp]: "int64_range (saturate64 x)"
  by (simp add: saturate64_def int64_range_def)

lemma saturate64_mono: "x \<le> y \<Longrightarrow> saturate64 x \<le> saturate64 y"
  by (simp add: saturate64_def max_def min_def)

subsection \<open>Durations and times\<close>

type_synonym duration = int
type_synonym gotime = int

definition dur_ms :: duration where "dur_ms = 1000000"
definition dur_second :: duration where "dur_second = 1000000000"
definition dur_minute :: duration where "dur_minute = 60000000000"
definition dur_hour :: duration where "dur_hour = 3600000000000"

text \<open>The product of two durations, \<open>time.Duration(n) * time.Minute\<close>, wraps.\<close>

definition dur_mul :: "int \<Rightarrow> duration \<Rightarrow> duration" where
  "dur_mul n d = wrap64 (n * d)"

text \<open>\<open>t.Sub(u)\<close> saturates at the ends of the \<open>Duration\<close> range; \<open>time.Since(u)\<close> is \<open>now.Sub(u)\<close>.\<close>

definition time_Sub :: "gotime \<Rightarrow> gotime \<Rightarrow> duration" where
  "time_Sub t u = saturate64 (t - u)"

definition time_Add :: "gotime \<Rightarrow> duration \<Rightarrow> gotime" where
  "time_Add t d = t + d"

definition time_IsZero :: "gotime \<Rightarrow> bool" where
  "time_IsZero t \<longleftrightarrow> t = 0"

lemmas dur_defs = dur_ms_def dur_second_def dur_minute_def dur_hour_def

declare dur_defs [go_defs] dur_mul_def [go_defs] time_Sub_def [go_defs] time_Add_def [go_defs]
  time_IsZero_def [go_defs] wrap64_def [go_defs] saturate64_def [go_defs]

text \<open>No minute count that an \<open>int\<close> of at most 153722867 minutes (292 years) can hold wraps.\<close>

lemma dur_mul_minute:
  assumes "- 153722867 \<le> n" and "n \<le> 153722867"
  shows "dur_mul n dur_minute = n * dur_minute"
  using assms by (simp add: dur_mul_def wrap64_id int64_range_def dur_minute_def)

lemma dur_mul_second:
  assumes "- 9223372036 \<le> n" and "n \<le> 9223372036"
  shows "dur_mul n dur_second = n * dur_second"
  using assms by (simp add: dur_mul_def wrap64_id int64_range_def dur_second_def)

lemma time_Sub_ge_iff:
  assumes "int64_range d" and "- (2 ^ 63) < d"
  shows "d \<le> time_Sub t u \<longleftrightarrow> u + d \<le> t"
  using assms by (auto simp: time_Sub_def saturate64_def int64_range_def max_def min_def)

subsection \<open>Errors\<close>

text \<open>
  \<open>GoErr\<close> is \<open>errors.New\<close> or a formatted message, \<open>GoWrap\<close> is \<open>fmt.Errorf("prefix: %w", err)\<close>,
  \<open>ErrNotExist\<close> and \<open>ErrIO\<close> are the operating system's errors (the first one is the one
  \<open>os.IsNotExist\<close> recognises), and \<open>ErrUpdateRestart\<close> is the sentinel of the updater package.
\<close>

datatype goerr =
    GoErr string
  | GoWrap string goerr
  | ErrNotExist
  | ErrIO string
  | ErrUpdateRestart

fun error_Error :: "goerr \<Rightarrow> string" where
  "error_Error (GoErr s) = s"
| "error_Error (GoWrap p e) = p @ '': '' @ error_Error e"
| "error_Error ErrNotExist = ''file does not exist''"
| "error_Error (ErrIO s) = s"
| "error_Error ErrUpdateRestart = ''update applied; service should restart''"

text \<open>\<open>errors.Is(err, target)\<close> for a sentinel: the chain of wrapped errors is searched.\<close>

fun errors_Is :: "goerr \<Rightarrow> goerr \<Rightarrow> bool" where
  "errors_Is (GoWrap p e) t \<longleftrightarrow> GoWrap p e = t \<or> errors_Is e t"
| "errors_Is e t \<longleftrightarrow> e = t"

lemma errors_Is_refl [simp]: "errors_Is e e"
  by (cases e) auto

lemma errors_Is_wrap [simp]: "errors_Is (GoWrap p e) ErrUpdateRestart = errors_Is e ErrUpdateRestart"
  by simp

subsection \<open>Channels\<close>

text \<open>
  \<open>select { case ch <- x: default: }\<close>, a send that never blocks: with a full buffer (\<open>cap\<close>
  elements) the element is dropped. The flag tells whether the send happened.
\<close>

definition chan_try_send :: "nat \<Rightarrow> 'a \<Rightarrow> 'a list \<Rightarrow> bool \<times> 'a list" where
  "chan_try_send cap x ch = (if length ch < cap then (True, ch @ [x]) else (False, ch))"

lemma chan_try_send_bound: "length ch \<le> cap \<Longrightarrow> length (snd (chan_try_send cap x ch)) \<le> cap"
  by (simp add: chan_try_send_def)

lemma chan_try_send_nonempty: "0 < cap \<Longrightarrow> snd (chan_try_send cap x ch) \<noteq> []"
  by (auto simp: chan_try_send_def)

lemma chan_try_send_keeps: "\<exists>ys. snd (chan_try_send cap x ch) = ch @ ys"
  by (auto simp: chan_try_send_def)

text \<open>
  The wake-up channels (\<open>triggerCh\<close>, \<open>wakeCh\<close>, \<open>wsInventoryKickCh\<close>) hold one token of the empty
  struct. A send on a full one is dropped, which loses nothing: a token is already waiting.
\<close>

definition chan_kick :: "unit list \<Rightarrow> unit list" where
  "chan_kick ch = snd (chan_try_send 1 () ch)"

lemma chan_kick_full: "length ch \<le> 1 \<Longrightarrow> chan_kick ch = [()]"
  by (cases ch) (auto simp: chan_kick_def chan_try_send_def)

lemma chan_kick_idem: "chan_kick (chan_kick ch) = chan_kick ch"
  by (cases ch) (auto simp: chan_kick_def chan_try_send_def)

end
