(* ===== verification/Go_Strings.thy ===== *)
theory Go_Strings
  imports Go_Prelude "HOL-Library.Char_ord" "HOL-Library.List_Lexorder"
begin

section \<open>Go strings, number conversions and file paths\<close>

text \<open>
  A Go string is its list of bytes. The functions of the packages \<open>strings\<close>, \<open>strconv\<close> and
  \<open>path/filepath\<close> that the agent calls, as executable definitions. Case mapping and white space
  are those of ASCII: bytes from 128 on are left alone by \<open>ToLower\<close> and are not white space.
  Paths are those of the Windows build: both slashes separate, \<open>Join\<close> writes a backslash.
\<close>

subsection \<open>Characters\<close>

definition char_upper :: "char \<Rightarrow> bool" where
  "char_upper c \<longleftrightarrow> 65 \<le> (of_char c :: nat) \<and> (of_char c :: nat) \<le> 90"

definition char_digit :: "char \<Rightarrow> bool" where
  "char_digit c \<longleftrightarrow> 48 \<le> (of_char c :: nat) \<and> (of_char c :: nat) \<le> 57"

definition char_space :: "char \<Rightarrow> bool" where
  "char_space c \<longleftrightarrow> (of_char c :: nat) = 32 \<or> (9 \<le> (of_char c :: nat) \<and> (of_char c :: nat) \<le> 13)"

definition digit_value :: "char \<Rightarrow> int" where
  "digit_value c = int (of_char c) - 48"

text \<open>In ASCII a letter and its lower case differ in the bit of weight 32 only.\<close>

fun set_bit5 :: "char \<Rightarrow> char" where
  "set_bit5 (Char b0 b1 b2 b3 b4 b5 b6 b7) = Char b0 b1 b2 b3 b4 True b6 b7"

definition char_lower :: "char \<Rightarrow> char" where
  "char_lower c = (if char_upper c then set_bit5 c else c)"

lemma char_lower_not_upper: "\<not> char_upper (char_lower c)"
proof (cases c)
  case (Char b0 b1 b2 b3 b4 b5 b6 b7)
  then show ?thesis
    by (cases b5; cases b6; cases b7) (simp_all add: char_lower_def char_upper_def)
qed

lemma char_lower_idem [simp]: "char_lower (char_lower c) = char_lower c"
  by (metis char_lower_def char_lower_not_upper)

subsection \<open>Case and white space\<close>

definition strings_ToLower :: "string \<Rightarrow> string" where
  "strings_ToLower s = map char_lower s"

definition strings_EqualFold :: "string \<Rightarrow> string \<Rightarrow> bool" where
  "strings_EqualFold s t \<longleftrightarrow> strings_ToLower s = strings_ToLower t"

definition strings_TrimSpace :: "string \<Rightarrow> string" where
  "strings_TrimSpace s = rev (dropWhile char_space (rev (dropWhile char_space s)))"

text \<open>\<open>strings.TrimRight(s, "/")\<close> removes every trailing byte of the cut set.\<close>

definition strings_TrimRight :: "string \<Rightarrow> string \<Rightarrow> string" where
  "strings_TrimRight s cutset = rev (dropWhile (\<lambda>c. c \<in> set cutset) (rev s))"

lemma strings_ToLower_idem [simp]: "strings_ToLower (strings_ToLower s) = strings_ToLower s"
  by (simp add: strings_ToLower_def comp_def)

lemma strings_EqualFold_refl [simp]: "strings_EqualFold s s"
  by (simp add: strings_EqualFold_def)

lemma strings_EqualFold_ToLower [simp]: "strings_EqualFold (strings_ToLower s) s"
  by (simp add: strings_EqualFold_def)

lemma dropWhile_idem: "dropWhile P (dropWhile P xs) = dropWhile P xs"
  by (induction xs) auto

lemma hd_dropWhile_False: "dropWhile P xs \<noteq> [] \<Longrightarrow> \<not> P (hd (dropWhile P xs))"
  by (rule hd_dropWhile)

lemma dropWhile_rev_stable:
  assumes "s \<noteq> [] \<Longrightarrow> \<not> P (hd s)"
  shows "dropWhile P (rev (dropWhile P (rev s))) = rev (dropWhile P (rev s))"
proof (cases "rev (dropWhile P (rev s))")
  case Nil
  then show ?thesis by (simp only: dropWhile.simps)
next
  case (Cons c cs)
  have "s = rev (dropWhile P (rev s)) @ rev (takeWhile P (rev s))"
    by (metis rev_append rev_rev_ident takeWhile_dropWhile_id)
  with Cons have "hd s = c" and "s \<noteq> []"
    by (metis append_Cons list.sel(1), metis append_is_Nil_conv list.discI)
  with assms Cons show ?thesis by simp
qed

lemma strings_TrimSpace_idem [simp]:
  "strings_TrimSpace (strings_TrimSpace s) = strings_TrimSpace s"
proof -
  let ?l = "dropWhile char_space s"
  have "?l \<noteq> [] \<Longrightarrow> \<not> char_space (hd ?l)" by (rule hd_dropWhile)
  then have "dropWhile char_space (strings_TrimSpace s) = strings_TrimSpace s"
    unfolding strings_TrimSpace_def by (rule dropWhile_rev_stable)
  then show ?thesis
    by (metis dropWhile_idem rev_rev_ident strings_TrimSpace_def)
qed

lemma strings_TrimSpace_ends:
  assumes "strings_TrimSpace s \<noteq> []"
  shows "\<not> char_space (hd (strings_TrimSpace s))" and "\<not> char_space (last (strings_TrimSpace s))"
proof -
  have "dropWhile char_space (strings_TrimSpace s) = strings_TrimSpace s"
    by (metis (lifting) dropWhile_rev_stable hd_dropWhile strings_TrimSpace_def)
  with assms show "\<not> char_space (hd (strings_TrimSpace s))"
    by (metis hd_dropWhile)
  show "\<not> char_space (last (strings_TrimSpace s))"
    using assms hd_dropWhile [of char_space "rev (dropWhile char_space s)"]
    by (simp add: strings_TrimSpace_def last_rev)
qed

lemma strings_TrimSpace_subset: "set (strings_TrimSpace s) \<subseteq> set s"
  by (metis set_dropWhileD set_rev strings_TrimSpace_def subsetI)

lemma strings_TrimRight_last:
  "strings_TrimRight s cutset \<noteq> [] \<Longrightarrow> last (strings_TrimRight s cutset) \<notin> set cutset"
  by (metis (mono_tags, lifting) hd_dropWhile last_rev rev_is_Nil_conv strings_TrimRight_def)

lemma strings_TrimRight_idem [simp]:
  "strings_TrimRight (strings_TrimRight s cutset) cutset = strings_TrimRight s cutset"
  by (simp add: strings_TrimRight_def dropWhile_idem)

lemma strings_TrimRight_prefix: "\<exists>t. s = strings_TrimRight s cutset @ t \<and> set t \<subseteq> set cutset"
proof (intro exI conjI)
  let ?P = "\<lambda>c. c \<in> set cutset"
  show "s = strings_TrimRight s cutset @ rev (takeWhile ?P (rev s))"
    unfolding strings_TrimRight_def by (metis rev_append rev_rev_ident takeWhile_dropWhile_id)
  show "set (rev (takeWhile ?P (rev s))) \<subseteq> set cutset"
    by (auto dest: set_takeWhileD)
qed

subsection \<open>Prefixes, search, splitting\<close>

fun strings_HasPrefix :: "string \<Rightarrow> string \<Rightarrow> bool" where
  "strings_HasPrefix s [] = True"
| "strings_HasPrefix [] (p # ps) = False"
| "strings_HasPrefix (c # s) (p # ps) = (c = p \<and> strings_HasPrefix s ps)"

definition strings_TrimPrefix :: "string \<Rightarrow> string \<Rightarrow> string" where
  "strings_TrimPrefix s p = (if strings_HasPrefix s p then drop (length p) s else s)"

fun strings_Contains :: "string \<Rightarrow> string \<Rightarrow> bool" where
  "strings_Contains [] sub = (sub = [])"
| "strings_Contains (c # s) sub = (strings_HasPrefix (c # s) sub \<or> strings_Contains s sub)"

text \<open>\<open>strings.Split(s, sep)\<close> for a separator of one byte.\<close>

fun strings_Split :: "string \<Rightarrow> char \<Rightarrow> string list" where
  "strings_Split [] sep = [[]]"
| "strings_Split (c # s) sep =
     (if c = sep then [] # strings_Split s sep
      else (case strings_Split s sep of [] \<Rightarrow> [[c]] | w # ws \<Rightarrow> (c # w) # ws))"

fun strings_Join :: "string list \<Rightarrow> string \<Rightarrow> string" where
  "strings_Join [] sep = []"
| "strings_Join [w] sep = w"
| "strings_Join (w # ws) sep = w @ sep @ strings_Join ws sep"

lemma strings_HasPrefix_iff: "strings_HasPrefix s p \<longleftrightarrow> (\<exists>t. s = p @ t)"
  by (induction s p rule: strings_HasPrefix.induct) auto

lemma strings_HasPrefix_append [simp]: "strings_HasPrefix (p @ s) p"
  by (auto simp: strings_HasPrefix_iff)

lemma strings_TrimPrefix_append [simp]: "strings_TrimPrefix (p @ s) p = s"
  by (simp add: strings_TrimPrefix_def)

lemma strings_Contains_iff: "strings_Contains s sub \<longleftrightarrow> (\<exists>a b. s = a @ sub @ b)"
proof (induction s)
  case Nil
  then show ?case by auto
next
  case (Cons c s)
  show ?case
  proof
    assume "strings_Contains (c # s) sub"
    then consider "strings_HasPrefix (c # s) sub" | "strings_Contains s sub" by auto
    then show "\<exists>a b. c # s = a @ sub @ b"
    proof cases
      case 1
      then show ?thesis by (metis append_Nil strings_HasPrefix_iff)
    next
      case 2
      with Cons.IH show ?thesis by (metis append_Cons)
    qed
  next
    assume "\<exists>a b. c # s = a @ sub @ b"
    then obtain a b where ab: "c # s = a @ sub @ b" by blast
    show "strings_Contains (c # s) sub"
    proof (cases a)
      case Nil
      with ab have "strings_HasPrefix (c # s) sub" by (metis append_Nil strings_HasPrefix_append)
      then show ?thesis by (simp only: strings_Contains.simps simp_thms)
    next
      case (Cons d a')
      with ab have "s = a' @ sub @ b" by simp
      with Cons.IH show ?thesis by auto
    qed
  qed
qed

lemma strings_Split_nonempty [simp]: "strings_Split s sep \<noteq> []"
  by (induction s) (auto split: list.splits)

lemma strings_Split_Join: "strings_Join (strings_Split s sep) [sep] = s"
proof (induction s)
  case Nil
  then show ?case by simp
next
  case (Cons c s)
  then show ?case
    by (cases "strings_Split s sep"; cases "tl (strings_Split s sep)") auto
qed

lemma strings_Split_no_sep: "sep \<notin> set s \<Longrightarrow> strings_Split s sep = [s]"
  by (induction s) auto

lemma strings_Split_append:
  "sep \<notin> set w \<Longrightarrow> strings_Split (w @ sep # s) sep = w # strings_Split s sep"
  by (induction w) auto

subsection \<open>Decimal numbers\<close>

text \<open>
  \<open>strconv.Atoi\<close>: an optional sign and at least one digit, nothing else, and the value has to
  fit into an \<open>int\<close>.
\<close>

definition digits_value :: "string \<Rightarrow> int" where
  "digits_value ds = foldl (\<lambda>n c. n * 10 + digit_value c) 0 ds"

definition strconv_Atoi :: "string \<Rightarrow> int option" where
  "strconv_Atoi s =
     (let neg = strings_HasPrefix s ''-'';
          ds = (if neg \<or> strings_HasPrefix s ''+'' then tl s else s)
      in if ds = [] \<or> \<not> list_all char_digit ds then None
         else let n = (if neg then - digits_value ds else digits_value ds)
              in if int64_range n then Some n else None)"

definition digit_char :: "nat \<Rightarrow> char" where
  "digit_char d = ''0123456789'' ! d"

fun nat_Itoa :: "nat \<Rightarrow> string" where
  "nat_Itoa n = (if n < 10 then [digit_char n] else nat_Itoa (n div 10) @ [digit_char (n mod 10)])"

declare nat_Itoa.simps [simp del]

definition strconv_Itoa :: "int \<Rightarrow> string" where
  "strconv_Itoa n = (if n < 0 then ''-'' @ nat_Itoa (nat (- n)) else nat_Itoa (nat n))"

lemma digit_char_props:
  assumes "d < 10"
  shows "char_digit (digit_char d)" and "digit_value (digit_char d) = int d"
proof -
  have "d \<in> {0, 1, 2, 3, 4, 5, 6, 7, 8, 9}" using assms by auto
  then have "char_digit (digit_char d) \<and> digit_value (digit_char d) = int d"
    by (elim insertE) (simp_all add: digit_char_def char_digit_def digit_value_def)
  then show "char_digit (digit_char d)" and "digit_value (digit_char d) = int d" by auto
qed

lemma nat_Itoa_nonempty [simp]: "nat_Itoa n \<noteq> []"
  by (subst nat_Itoa.simps) simp

lemma nat_Itoa_digits: "list_all char_digit (nat_Itoa n)"
proof (induction n rule: nat_Itoa.induct)
  case (1 n)
  then show ?case by (subst nat_Itoa.simps) (simp add: digit_char_props)
qed

lemma digits_value_snoc: "digits_value (ds @ [c]) = digits_value ds * 10 + digit_value c"
  by (simp add: digits_value_def)

lemma digits_value_Itoa: "digits_value (nat_Itoa n) = int n"
proof (induction n rule: nat_Itoa.induct)
  case (1 n)
  show ?case
  proof (cases "n < 10")
    case True
    then show ?thesis
      by (subst nat_Itoa.simps) (simp add: digits_value_def digit_char_props)
  next
    case False
    with "1" have "digits_value (nat_Itoa (n div 10)) = int (n div 10)" by simp
    with False show ?thesis
      by (subst nat_Itoa.simps) (simp add: digits_value_snoc digit_char_props zdiv_int zmod_int)
  qed
qed

lemma nat_Itoa_inj: "nat_Itoa m = nat_Itoa n \<longleftrightarrow> m = n"
  using digits_value_Itoa by (metis of_nat_eq_iff)

lemma strconv_Itoa_nat_inj: "strconv_Itoa (int m) = strconv_Itoa (int n) \<longleftrightarrow> m = n"
  by (simp add: strconv_Itoa_def nat_Itoa_inj)

lemma char_digit_not_sign: "char_digit c \<Longrightarrow> c \<noteq> CHR ''-'' \<and> c \<noteq> CHR ''+''"
  by (auto simp: char_digit_def)

lemma strconv_Atoi_digits:
  assumes "ds \<noteq> []" and "list_all char_digit ds"
  shows "strconv_Atoi ds = (if int64_range (digits_value ds) then Some (digits_value ds) else None)"
proof -
  obtain c cs where ds: "ds = c # cs" using assms(1) by (cases ds) auto
  with assms(2) have "char_digit c" by simp
  then have "c \<noteq> CHR ''-''" and "c \<noteq> CHR ''+''" using char_digit_not_sign by blast+
  with assms ds show ?thesis by (simp add: strconv_Atoi_def Let_def)
qed

lemma strconv_Atoi_nat_Itoa: "int n < 2 ^ 63 \<Longrightarrow> strconv_Atoi (nat_Itoa n) = Some (int n)"
  by (simp add: strconv_Atoi_digits nat_Itoa_digits digits_value_Itoa int64_range_def)

theorem strconv_Atoi_Itoa:
  assumes "int64_range n"
  shows "strconv_Atoi (strconv_Itoa n) = Some n"
proof (cases "n < 0")
  case False
  with assms show ?thesis
    using strconv_Atoi_nat_Itoa [of "nat n"] by (simp add: strconv_Itoa_def int64_range_def)
next
  case True
  with assms show ?thesis
    by (simp add: strconv_Itoa_def strconv_Atoi_def nat_Itoa_digits digits_value_Itoa)
qed

subsection \<open>File paths\<close>

definition path_sep :: "char \<Rightarrow> bool" where
  "path_sep c \<longleftrightarrow> c = CHR 0x5C \<or> c = CHR ''/''"

text \<open>\<open>filepath.Join\<close> for a clean directory and one file name.\<close>

definition filepath_Join :: "string \<Rightarrow> string \<Rightarrow> string" where
  "filepath_Join dir name =
     (if dir = [] then name else rev (dropWhile path_sep (rev dir)) @ [CHR 0x5C] @ name)"

text \<open>\<open>filepath.Ext\<close>: the suffix from the last dot of the last element, dot included.\<close>

fun ext_scan :: "string \<Rightarrow> string \<Rightarrow> string" where
  "ext_scan [] acc = []"
| "ext_scan (c # s) acc =
     (if path_sep c then [] else if c = CHR ''.'' then c # acc else ext_scan s (c # acc))"

definition filepath_Ext :: "string \<Rightarrow> string" where
  "filepath_Ext path = ext_scan (rev path) []"

definition filepath_Base :: "string \<Rightarrow> string" where
  "filepath_Base path =
     (if path = [] then ''.''
      else let stripped = rev (dropWhile path_sep (rev path));
               base = rev (takeWhile (\<lambda>c. \<not> path_sep c) (rev stripped))
           in if base = [] then [CHR 0x5C] else base)"

lemma ext_scan_append:
  assumes "\<forall>c \<in> set e. \<not> path_sep c \<and> c \<noteq> CHR ''.''"
  shows "ext_scan (rev e @ CHR ''.'' # s) acc = CHR ''.'' # e @ acc"
  using assms by (induction e arbitrary: acc rule: rev_induct) (auto simp: path_sep_def)

lemma filepath_Ext_append:
  assumes "\<forall>c \<in> set e. \<not> path_sep c \<and> c \<noteq> CHR ''.''"
  shows "filepath_Ext (p @ CHR ''.'' # e) = CHR ''.'' # e"
  using ext_scan_append [OF assms, of "rev p" "[]"] by (simp add: filepath_Ext_def)

lemma filepath_Join_inj: "filepath_Join d a = filepath_Join d b \<longleftrightarrow> a = b"
  by (simp add: filepath_Join_def)

text \<open>
  \<open>filepath.Dir\<close>: what comes before the last separator, without trailing separators, and \<open>.\<close> when
  that is empty (the agent's paths are absolute and clean; volume roots are not treated apart).
\<close>

definition filepath_Dir :: "string \<Rightarrow> string" where
  "filepath_Dir p =
     (let d = rev (dropWhile path_sep (dropWhile (\<lambda>c. \<not> path_sep c) (rev p)))
      in if d = [] then ''.'' else d)"

subsection \<open>Fields and lines\<close>

text \<open>\<open>strings.Fields\<close>: the maximal runs of characters that are not white space.\<close>

fun fields_loop :: "string \<Rightarrow> string \<Rightarrow> string list" where
  "fields_loop w [] = (if w = [] then [] else [rev w])"
| "fields_loop w (c # s) =
     (if char_space c then (if w = [] then fields_loop [] s else rev w # fields_loop [] s)
      else fields_loop (c # w) s)"

definition strings_Fields :: "string \<Rightarrow> string list" where
  "strings_Fields s = fields_loop [] s"

lemma fields_loop_concat: "concat (fields_loop w s) = rev w @ filter (\<lambda>c. \<not> char_space c) s"
  by (induction w s rule: fields_loop.induct) auto

lemma strings_Fields_concat: "concat (strings_Fields s) = filter (\<lambda>c. \<not> char_space c) s"
  using fields_loop_concat [of "[]"] by (simp add: strings_Fields_def)

text \<open>
  The lines a \<open>bufio.Scanner\<close> delivers: up to the line feeds, ending early at a line that does not
  fit the scanner's 64 KiB buffer. (A trailing carriage return is left in; the callers trim.)
\<close>

definition scan_lines :: "string \<Rightarrow> string list" where
  "scan_lines s = takeWhile (\<lambda>l. length l < 65536) (strings_Split s (CHR 0x0A))"

end
