(* ===== verification/Json.thy ===== *)
theory Json
  imports Go_Strings
begin

section \<open>JSON values as Go's any\<close>

text \<open>
  The payloads of the server are decoded into \<open>map[string]any\<close>, in which a number is a
  \<open>float64\<close>. A finite \<open>float64\<close> is \<open>m * 2 ^ e\<close> for integers \<open>m\<close> and \<open>e\<close>. A Go map is the list of its
  entries; \<open>json.Marshal\<close> writes the entries in the order of their keys.
\<close>

datatype float64 = Float64 (f64_mant: int) (f64_exp: int)

datatype json =
    JNull
  | JBool bool
  | JNum float64
  | JStr string
  | JArr "json list"
  | JObj "(string \<times> json) list"

type_synonym payload = "(string \<times> json) list"

definition f64_of_int :: "int \<Rightarrow> float64" where
  "f64_of_int n = Float64 n 0"

text \<open>The value rounded towards zero, and whether that loses anything.\<close>

fun f64_trunc :: "float64 \<Rightarrow> int" where
  "f64_trunc (Float64 m e) =
     (if 0 \<le> e then m * 2 ^ nat e else sgn m * (\<bar>m\<bar> div 2 ^ nat (- e)))"

fun f64_integral :: "float64 \<Rightarrow> bool" where
  "f64_integral (Float64 m e) \<longleftrightarrow> 0 \<le> e \<or> m mod 2 ^ nat (- e) = 0"

text \<open>
  \<open>int(f)\<close>: truncation. What it gives outside the range of \<open>int\<close> is left open by Go; the amd64
  instruction gives the least \<open>int\<close>, and that is the target the agent is built for.
\<close>

definition f64_to_int :: "float64 \<Rightarrow> int" where
  "f64_to_int f = (let n = f64_trunc f in if int64_range n then n else - (2 ^ 63))"

lemma f64_to_int_of_int [simp]: "int64_range n \<Longrightarrow> f64_to_int (f64_of_int n) = n"
  by (simp add: f64_to_int_def f64_of_int_def)

lemma f64_of_int_simps [simp]: "f64_integral (f64_of_int n)" "f64_trunc (f64_of_int n) = n"
  by (simp_all add: f64_of_int_def)

lemma f64_to_int_range [simp]: "int64_range (f64_to_int f)"
  by (simp add: f64_to_int_def int64_range_def Let_def)

subsection \<open>Type assertions\<close>

text \<open>\<open>v, ok := m[key]\<close> and \<open>x, ok := v.(T)\<close>; an absent key reads as \<open>nil\<close>.\<close>

definition jget :: "payload \<Rightarrow> string \<Rightarrow> json option" where
  "jget m k = map_of m k"

definition jget_any :: "payload \<Rightarrow> string \<Rightarrow> json" where
  "jget_any m k = (case map_of m k of None \<Rightarrow> JNull | Some v \<Rightarrow> v)"

fun as_string :: "json \<Rightarrow> string option" where
  "as_string (JStr s) = Some s"
| "as_string _ = None"

fun as_bool :: "json \<Rightarrow> bool option" where
  "as_bool (JBool b) = Some b"
| "as_bool _ = None"

fun as_float :: "json \<Rightarrow> float64 option" where
  "as_float (JNum f) = Some f"
| "as_float _ = None"

fun as_map :: "json \<Rightarrow> payload option" where
  "as_map (JObj m) = Some m"
| "as_map _ = None"

fun as_slice :: "json \<Rightarrow> json list option" where
  "as_slice (JArr xs) = Some xs"
| "as_slice _ = None"

text \<open>\<open>s, _ := m[key].(string)\<close>: the zero value when the key is absent or of another type.\<close>

definition jstring :: "payload \<Rightarrow> string \<Rightarrow> string" where
  "jstring m k = (case as_string (jget_any m k) of None \<Rightarrow> '''' | Some s \<Rightarrow> s)"

definition jbool :: "payload \<Rightarrow> string \<Rightarrow> bool option" where
  "jbool m k = (case jget m k of None \<Rightarrow> None | Some v \<Rightarrow> as_bool v)"

subsection \<open>Decoding into a struct\<close>

text \<open>
  \<open>json.Unmarshal\<close> into a struct goes through the entries of the object, finds the field with the
  key's name, or else one whose name is the same up to case, and ignores a key without a field.
  A \<open>null\<close> leaves the field alone; a value of the wrong type is an error of the whole call, and so
  is a number for an \<open>int\<close> field that is not an integer in range. \<open>None\<close> is that error.
\<close>

definition field_of :: "string list \<Rightarrow> string \<Rightarrow> string option" where
  "field_of names key =
     (if key \<in> set names then Some key else find (\<lambda>n. strings_EqualFold n key) names)"

fun decode_int :: "int \<Rightarrow> json \<Rightarrow> int option" where
  "decode_int old JNull = Some old"
| "decode_int old (JNum f) =
     (if f64_integral f \<and> int64_range (f64_trunc f) then Some (f64_trunc f) else None)"
| "decode_int old _ = None"

fun decode_string :: "string \<Rightarrow> json \<Rightarrow> string option" where
  "decode_string old JNull = Some old"
| "decode_string old (JStr s) = Some s"
| "decode_string old _ = None"

fun decode_bool :: "bool \<Rightarrow> json \<Rightarrow> bool option" where
  "decode_bool old JNull = Some old"
| "decode_bool old (JBool b) = Some b"
| "decode_bool old _ = None"

text \<open>The entries one after the other, each stored by \<open>st\<close>; an error is the result of the call.\<close>

fun decode_entries :: "(string \<Rightarrow> json \<Rightarrow> 'r \<Rightarrow> 'r option) \<Rightarrow> payload \<Rightarrow> 'r \<Rightarrow> 'r option" where
  "decode_entries st [] r = Some r"
| "decode_entries st ((k, v) # kvs) r =
     (case st k v r of None \<Rightarrow> None | Some r' \<Rightarrow> decode_entries st kvs r')"

definition decode_struct :: "string list \<Rightarrow> (string \<Rightarrow> json \<Rightarrow> 'r \<Rightarrow> 'r option) \<Rightarrow> 'r \<Rightarrow> json \<Rightarrow> 'r option" where
  "decode_struct names st zero v =
     (case v of
        JNull \<Rightarrow> Some zero
      | JObj m \<Rightarrow> decode_entries
          (\<lambda>k x r. case field_of names k of None \<Rightarrow> Some r | Some f \<Rightarrow> st f x r) m zero
      | _ \<Rightarrow> None)"

text \<open>
  \<open>json.Marshal(v)\<close> followed by \<open>json.Unmarshal\<close>, the way a payload of type \<open>any\<close> is turned into
  a struct: the text between the two calls holds the same value with the keys in order.
\<close>

fun json_Remarshal :: "json \<Rightarrow> json" where
  "json_Remarshal (JObj m) = JObj (sort_key fst (map (\<lambda>(k, v). (k, json_Remarshal v)) m))"
| "json_Remarshal (JArr xs) = JArr (map json_Remarshal xs)"
| "json_Remarshal v = v"

text \<open>A slice of structs: \<open>null\<close> is the nil slice, every element has to decode.\<close>

fun decode_all :: "(json \<Rightarrow> 'r option) \<Rightarrow> json list \<Rightarrow> 'r list option" where
  "decode_all d [] = Some []"
| "decode_all d (x # xs) =
     (case d x of None \<Rightarrow> None
      | Some r \<Rightarrow> (case decode_all d xs of None \<Rightarrow> None | Some rs \<Rightarrow> Some (r # rs)))"

definition decode_slice :: "(json \<Rightarrow> 'r option) \<Rightarrow> json \<Rightarrow> 'r list option" where
  "decode_slice d v =
     (case v of JNull \<Rightarrow> Some [] | JArr xs \<Rightarrow> decode_all d xs | _ \<Rightarrow> None)"

lemma decode_all_length: "decode_all d xs = Some rs \<Longrightarrow> length rs = length xs"
  by (induction d xs arbitrary: rs rule: decode_all.induct) (auto split: option.splits)

lemma decode_all_nth: "decode_all d xs = Some rs \<Longrightarrow> i < length xs \<Longrightarrow> d (xs ! i) = Some (rs ! i)"
proof (induction d xs arbitrary: rs i rule: decode_all.induct)
  case (2 d x xs)
  then show ?case by (cases i) (auto split: option.splits)
qed simp

lemma field_of_in: "field_of names key = Some f \<Longrightarrow> f \<in> set names"
  by (auto simp: field_of_def find_Some_iff split: if_splits)

lemma field_of_exact [simp]: "key \<in> set names \<Longrightarrow> field_of names key = Some key"
  by (simp add: field_of_def)

subsection \<open>Text on a connection\<close>

text \<open>What \<open>json.Encoder\<close> writes for a value, and the first value \<open>json.Decoder\<close> reads from a text.\<close>

record wire =
  iw_print :: "json \<Rightarrow> string"
  iw_first :: "string \<Rightarrow> goerr + json"

definition wire_send :: "wire \<Rightarrow> ('m \<Rightarrow> json) \<Rightarrow> 'm \<Rightarrow> string" where
  "wire_send w enc m = iw_print w (enc m)"

definition wire_receive :: "wire \<Rightarrow> (json \<Rightarrow> 'm option) \<Rightarrow> string \<Rightarrow> goerr + 'm" where
  "wire_receive w dec t =
     (case iw_first w t of
        Inl err \<Rightarrow> Inl err
      | Inr j \<Rightarrow> (case dec j of None \<Rightarrow> Inl (GoErr ''json: cannot unmarshal'') | Some m \<Rightarrow> Inr m))"

text \<open>A value that is read as it was written.\<close>

definition wire_ok :: "wire \<Rightarrow> json \<Rightarrow> bool" where
  "wire_ok w v \<longleftrightarrow> iw_first w (iw_print w v) = Inr v"

text \<open>What the ends of a connection rely on: a valid message is read back from the JSON value it is written as.\<close>

locale message_codec =
  fixes enc :: "'m \<Rightarrow> json" and dec :: "json \<Rightarrow> 'm option" and valid :: "'m \<Rightarrow> bool"
  assumes dec_enc: "valid m \<Longrightarrow> dec (enc m) = Some m"
begin

lemma received: "valid m \<Longrightarrow> wire_ok w (enc m) \<Longrightarrow> wire_receive w dec (wire_send w enc m) = Inr m"
  by (simp add: wire_receive_def wire_send_def wire_ok_def dec_enc)

lemma enc_inj: "valid m \<Longrightarrow> valid m' \<Longrightarrow> enc m = enc m' \<Longrightarrow> m = m'"
  using dec_enc by (metis option.inject)

end

end
