(* ===== verification/Go_OS.thy ===== *)
theory Go_OS
  imports Go_Strings
begin

section \<open>The operating system: files and HTTP\<close>

text \<open>
  The file system is the map from paths to file contents. Every operation of the package \<open>os\<close>
  takes an oracle that says, for this one call, whether the system lets it succeed; a theorem
  over all oracles covers every combination of I/O failures. A failing write may leave a prefix
  of the data behind (\<open>FaultAfter n\<close>). Directories are implicit.
\<close>

datatype fsop =
    FStat string
  | FOpen string
  | FRead string
  | FWrite string
  | FRemove string
  | FRename string string
  | FMkdirAll string
  | FClose string

datatype io_fault = NoFault | Fault | FaultAfter nat

type_synonym fs_oracle = "fsop \<Rightarrow> io_fault"
type_synonym fs = "string \<Rightarrow> string option"

definition no_faults :: fs_oracle where
  "no_faults = (\<lambda>_. NoFault)"

definition io_error :: goerr where
  "io_error = ErrIO ''i/o error''"

definition os_Stat :: "fs_oracle \<Rightarrow> string \<Rightarrow> fs \<Rightarrow> goerr option" where
  "os_Stat orc p fs =
     (if orc (FStat p) \<noteq> NoFault then Some io_error
      else case fs p of None \<Rightarrow> Some ErrNotExist | Some _ \<Rightarrow> None)"

definition os_ReadFile :: "fs_oracle \<Rightarrow> string \<Rightarrow> fs \<Rightarrow> goerr + string" where
  "os_ReadFile orc p fs =
     (if orc (FOpen p) \<noteq> NoFault then Inl io_error
      else case fs p of
        None \<Rightarrow> Inl ErrNotExist
      | Some d \<Rightarrow> if orc (FRead p) \<noteq> NoFault then Inl io_error else Inr d)"

definition os_WriteFile :: "fs_oracle \<Rightarrow> string \<Rightarrow> string \<Rightarrow> fs \<Rightarrow> goerr option \<times> fs" where
  "os_WriteFile orc p d fs =
     (case orc (FWrite p) of
        NoFault \<Rightarrow> (None, fs(p \<mapsto> d))
      | Fault \<Rightarrow> (Some io_error, fs)
      | FaultAfter n \<Rightarrow> (Some io_error, fs(p \<mapsto> take n d)))"

definition os_Remove :: "fs_oracle \<Rightarrow> string \<Rightarrow> fs \<Rightarrow> goerr option \<times> fs" where
  "os_Remove orc p fs =
     (if orc (FRemove p) \<noteq> NoFault then (Some io_error, fs)
      else if fs p = None then (Some ErrNotExist, fs)
      else (None, fs(p := None)))"

definition os_Rename :: "fs_oracle \<Rightarrow> string \<Rightarrow> string \<Rightarrow> fs \<Rightarrow> goerr option \<times> fs" where
  "os_Rename orc a b fs =
     (if orc (FRename a b) \<noteq> NoFault then (Some io_error, fs)
      else if fs a = None then (Some ErrNotExist, fs)
      else (None, (fs(a := None))(b := fs a)))"

definition os_MkdirAll :: "fs_oracle \<Rightarrow> string \<Rightarrow> goerr option" where
  "os_MkdirAll orc p = (if orc (FMkdirAll p) \<noteq> NoFault then Some io_error else None)"

text \<open>\<open>os.IsNotExist(err)\<close>.\<close>

definition os_IsNotExist :: "goerr \<Rightarrow> bool" where
  "os_IsNotExist e \<longleftrightarrow> e = ErrNotExist"

lemmas os_defs = os_Stat_def os_ReadFile_def os_WriteFile_def os_Remove_def os_Rename_def
  os_MkdirAll_def no_faults_def

subsection \<open>What moving and removing files promises\<close>

text \<open>
  The contract the update and rotation code relies on: an operation that reports an error has
  changed nothing, and one that reports success has moved, or removed, exactly the file named.
\<close>

locale file_moves =
  fixes rename :: "string \<Rightarrow> string \<Rightarrow> fs \<Rightarrow> goerr option \<times> fs"
    and remove :: "string \<Rightarrow> fs \<Rightarrow> goerr option \<times> fs"
  assumes rename_fail: "fst (rename a b s) \<noteq> None \<Longrightarrow> snd (rename a b s) = s"
    and rename_ok: "fst (rename a b s) = None \<Longrightarrow>
      s a \<noteq> None \<and> snd (rename a b s) = (s(a := None))(b := s a)"
    and remove_fail: "fst (remove a s) \<noteq> None \<Longrightarrow> snd (remove a s) = s"
    and remove_ok: "fst (remove a s) = None \<Longrightarrow> snd (remove a s) = s(a := None)"
begin

lemma rename_frame: "c \<noteq> a \<Longrightarrow> c \<noteq> b \<Longrightarrow> snd (rename a b s) c = s c"
  using rename_fail [of a b s] rename_ok [of a b s] by (cases "fst (rename a b s)") auto

lemma rename_dst: "snd (rename a b s) b = (if fst (rename a b s) = None then s a else s b)"
  using rename_fail [of a b s] rename_ok [of a b s] by (cases "fst (rename a b s)") auto

lemma rename_src:
  "a \<noteq> b \<Longrightarrow> snd (rename a b s) a = (if fst (rename a b s) = None then None else s a)"
  using rename_fail [of a b s] rename_ok [of a b s] by (cases "fst (rename a b s)") auto

lemma remove_frame: "c \<noteq> a \<Longrightarrow> snd (remove a s) c = s c"
  using remove_fail [of a s] remove_ok [of a s] by (cases "fst (remove a s)") auto

lemma remove_at: "snd (remove a s) a = (if fst (remove a s) = None then None else s a)"
  using remove_fail [of a s] remove_ok [of a s] by (cases "fst (remove a s)") auto

lemma rename_missing: "s a = None \<Longrightarrow> fst (rename a b s) \<noteq> None"
  using rename_ok by blast

text \<open>No content is invented: what is in a file after the operation was in some file before.\<close>

lemma rename_range: "ran (snd (rename a b s)) \<subseteq> ran s"
  using rename_fail [of a b s] rename_ok [of a b s]
  by (cases "fst (rename a b s)") (auto simp: ran_def split: if_splits)

end

interpretation osfs: file_moves "os_Rename orc" "os_Remove orc" for orc
  by unfold_locales (auto simp: os_defs split: if_splits)

lemma os_Stat_None: "os_Stat orc p fs = None \<Longrightarrow> fs p \<noteq> None"
  by (auto simp: os_defs split: if_splits option.splits)

lemma os_Stat_no_fault: "orc (FStat p) = NoFault \<Longrightarrow> os_Stat orc p fs = None \<longleftrightarrow> fs p \<noteq> None"
  by (auto simp: os_defs split: option.splits)

lemma os_ReadFile_Inr: "os_ReadFile orc p fs = Inr d \<Longrightarrow> fs p = Some d"
  by (auto simp: os_defs split: if_splits option.splits)

lemma os_WriteFile_frame: "q \<noteq> p \<Longrightarrow> snd (os_WriteFile orc p d fs) q = fs q"
  by (simp add: os_defs split: io_fault.splits)

lemma os_WriteFile_ok: "fst (os_WriteFile orc p d fs) = None \<Longrightarrow> snd (os_WriteFile orc p d fs) = fs(p \<mapsto> d)"
  by (simp add: os_defs split: io_fault.splits)

subsection \<open>HTTP\<close>

text \<open>
  A request and what \<open>client.Do\<close> returns: an error, or a response whose body delivers \<open>rs_Body\<close>
  and then ends, or breaks with \<open>rs_BodyErr\<close>. The server and the network are a parameter of
  the definitions that send a request.
\<close>

record http_request =
  rq_Method :: string
  rq_URL :: string
  rq_Header :: "(string \<times> string) list"
  rq_Body :: string

record http_response =
  rs_StatusCode :: int
  rs_Status :: string
  rs_Header :: "(string \<times> string) list"
  rs_Body :: string
  rs_BodyErr :: "goerr option"

type_synonym transport = "http_request \<Rightarrow> goerr + http_response"

definition header_Get :: "(string \<times> string) list \<Rightarrow> string \<Rightarrow> string" where
  "header_Get h k = (case map_of h k of None \<Rightarrow> '''' | Some v \<Rightarrow> v)"

end
