(* ===== verification/Api.thy ===== *)
theory Api
  imports Json Go_OS
begin

section \<open>The server API: messages and client\<close>

text \<open>
  \<open>internal/api/client.go\<close>: the structs exchanged with the server, as records in the field order of
  the source, and how those that arrive inside other payloads are decoded. The client itself is
  theory \<open>ApiClient\<close>.
\<close>

subsection \<open>Messages\<close>

record InstalledApp =
  app_AppID :: int
  app_Version :: string

record LoggedInSession =
  ls_Username :: string
  ls_SessionType :: string
  ls_SessionState :: string
  ls_LogonID :: string

record SystemDisk =
  sd_Index :: int
  sd_SizeGB :: int
  sd_Model :: string
  sd_BusType :: string

record VirtualizationInfo =
  vi_IsVirtual :: bool
  vi_Vendor :: string
  vi_Model :: string

record SystemProfile =
  sp_OSFullName :: string
  sp_OSVersion :: string
  sp_BuildNumber :: string
  sp_Architecture :: string
  sp_Manufacturer :: string
  sp_Model :: string
  sp_CPUModel :: string
  sp_CPUCoresPhysical :: int
  sp_CPUCoresLogical :: int
  sp_TotalMemoryGB :: int
  sp_DiskCount :: int
  sp_Disks :: "SystemDisk list"
  sp_Virtualization :: "VirtualizationInfo option"

record ServiceItem =
  si_Name :: string
  si_DisplayName :: string
  si_Status :: string
  si_StartupType :: string
  si_PID :: int
  si_RunAs :: string
  si_Description :: string

record RemoteSupportStatus =
  rss_State :: string
  rss_SessionID :: int
  rss_HelperRunning :: bool
  rss_HelperPID :: int

record Command =
  cmd_TaskID :: int
  cmd_Action :: string
  cmd_AppID :: int
  cmd_AppName :: string
  cmd_AppVersion :: string
  cmd_DownloadURL :: string
  cmd_FileHash :: string
  cmd_FileSizeBytes :: int
  cmd_InstallArgs :: string
  cmd_ForceUpdate :: bool
  cmd_Priority :: int

record RemoteSupportRequest =
  rq_SessionID :: int
  rq_AdminName :: string
  rq_Reason :: string
  rq_RequestedAt :: string
  rq_TimeoutAt :: string
  rq_RequiresApproval :: bool

record RemoteSupportEnd =
  end_SessionID :: int

record ApproveRemoteSessionResponse =
  ar_Status :: string
  ar_Message :: string
  ar_VNCPassword :: string
  ar_GuacdHost :: string
  ar_GuacdRevPort :: int

record TaskStatusRequest =
  ts_Status :: string
  ts_Progress :: int
  ts_Message :: string
  ts_ExitCode :: "int option"
  ts_InstalledVersion :: string
  ts_DownloadDurationSec :: int
  ts_InstallDurationSec :: int
  ts_Error :: string

record MessageResponse =
  mr_Status :: string
  mr_Message :: string

definition zero_Command :: Command where
  "zero_Command = \<lparr>cmd_TaskID = 0, cmd_Action = '''', cmd_AppID = 0, cmd_AppName = '''',
     cmd_AppVersion = '''', cmd_DownloadURL = '''', cmd_FileHash = '''', cmd_FileSizeBytes = 0,
     cmd_InstallArgs = '''', cmd_ForceUpdate = False, cmd_Priority = 0\<rparr>"

definition zero_TaskStatusRequest :: TaskStatusRequest where
  "zero_TaskStatusRequest = \<lparr>ts_Status = '''', ts_Progress = 0, ts_Message = '''',
     ts_ExitCode = None, ts_InstalledVersion = '''', ts_DownloadDurationSec = 0,
     ts_InstallDurationSec = 0, ts_Error = ''''\<rparr>"

record HeartbeatRequest =
  hb_Hostname :: string
  hb_IPAddress :: string
  hb_FullIP :: "string list"
  hb_UptimeSec :: int
  hb_OSUser :: string
  hb_OSVersion :: string
  hb_Platform :: string
  hb_Arch :: string
  hb_Distro :: string
  hb_DistroVersion :: string
  hb_AgentVersion :: string
  hb_CPUModel :: string
  hb_RAMGB :: int
  hb_DiskFreeGB :: int
  hb_CPUUsage :: int
  hb_RAMUsage :: int
  hb_CurrentStatus :: string
  hb_AppsChanged :: bool
  hb_InstalledApps :: "InstalledApp list"
  hb_InventoryHash :: string
  hb_ServicesHash :: string
  hb_Services :: "ServiceItem list"
  hb_LoggedInSessions :: "LoggedInSession list"
  hb_SystemProfile :: "SystemProfile option"
  hb_RemoteSupport :: "RemoteSupportStatus option"

record HeartbeatResponse =
  hr_Status :: string
  hr_ServerTime :: string
  hr_Config :: "payload option"
  hr_Commands :: "Command list"
  hr_PendingAnnouncements :: "payload list"
  hr_RemoteSupportRequest :: "RemoteSupportRequest option"
  hr_RemoteSupportEnd :: "RemoteSupportEnd option"

subsection \<open>Decoding\<close>

definition command_fields :: "string list" where
  "command_fields = [''task_id'', ''action'', ''app_id'', ''app_name'', ''app_version'',
     ''download_url'', ''file_hash'', ''file_size_bytes'', ''install_args'', ''force_update'',
     ''priority'']"

definition set_command_field :: "string \<Rightarrow> json \<Rightarrow> Command \<Rightarrow> Command option" where
  "set_command_field f v c =
     (if f = ''task_id'' then map_option (\<lambda>n. c\<lparr>cmd_TaskID := n\<rparr>) (decode_int (cmd_TaskID c) v)
      else if f = ''action'' then map_option (\<lambda>s. c\<lparr>cmd_Action := s\<rparr>) (decode_string (cmd_Action c) v)
      else if f = ''app_id'' then map_option (\<lambda>n. c\<lparr>cmd_AppID := n\<rparr>) (decode_int (cmd_AppID c) v)
      else if f = ''app_name'' then map_option (\<lambda>s. c\<lparr>cmd_AppName := s\<rparr>) (decode_string (cmd_AppName c) v)
      else if f = ''app_version'' then map_option (\<lambda>s. c\<lparr>cmd_AppVersion := s\<rparr>) (decode_string (cmd_AppVersion c) v)
      else if f = ''download_url'' then map_option (\<lambda>s. c\<lparr>cmd_DownloadURL := s\<rparr>) (decode_string (cmd_DownloadURL c) v)
      else if f = ''file_hash'' then map_option (\<lambda>s. c\<lparr>cmd_FileHash := s\<rparr>) (decode_string (cmd_FileHash c) v)
      else if f = ''file_size_bytes'' then map_option (\<lambda>n. c\<lparr>cmd_FileSizeBytes := n\<rparr>) (decode_int (cmd_FileSizeBytes c) v)
      else if f = ''install_args'' then map_option (\<lambda>s. c\<lparr>cmd_InstallArgs := s\<rparr>) (decode_string (cmd_InstallArgs c) v)
      else if f = ''force_update'' then map_option (\<lambda>b. c\<lparr>cmd_ForceUpdate := b\<rparr>) (decode_bool (cmd_ForceUpdate c) v)
      else if f = ''priority'' then map_option (\<lambda>n. c\<lparr>cmd_Priority := n\<rparr>) (decode_int (cmd_Priority c) v)
      else Some c)"

definition decode_Command :: "json \<Rightarrow> Command option" where
  "decode_Command v = decode_struct command_fields set_command_field zero_Command v"

definition rs_request_fields :: "string list" where
  "rs_request_fields = [''session_id'', ''admin_name'', ''reason'', ''requested_at'', ''timeout_at'',
     ''requires_approval'']"

definition set_rs_request_field :: "string \<Rightarrow> json \<Rightarrow> RemoteSupportRequest \<Rightarrow> RemoteSupportRequest option" where
  "set_rs_request_field f v r =
     (if f = ''session_id'' then map_option (\<lambda>n. r\<lparr>rq_SessionID := n\<rparr>) (decode_int (rq_SessionID r) v)
      else if f = ''admin_name'' then map_option (\<lambda>s. r\<lparr>rq_AdminName := s\<rparr>) (decode_string (rq_AdminName r) v)
      else if f = ''reason'' then map_option (\<lambda>s. r\<lparr>rq_Reason := s\<rparr>) (decode_string (rq_Reason r) v)
      else if f = ''requested_at'' then map_option (\<lambda>s. r\<lparr>rq_RequestedAt := s\<rparr>) (decode_string (rq_RequestedAt r) v)
      else if f = ''timeout_at'' then map_option (\<lambda>s. r\<lparr>rq_TimeoutAt := s\<rparr>) (decode_string (rq_TimeoutAt r) v)
      else if f = ''requires_approval'' then map_option (\<lambda>b. r\<lparr>rq_RequiresApproval := b\<rparr>) (decode_bool (rq_RequiresApproval r) v)
      else Some r)"

definition zero_RemoteSupportRequest :: RemoteSupportRequest where
  "zero_RemoteSupportRequest = \<lparr>rq_SessionID = 0, rq_AdminName = '''', rq_Reason = '''',
     rq_RequestedAt = '''', rq_TimeoutAt = '''', rq_RequiresApproval = False\<rparr>"

definition decode_RemoteSupportRequest :: "json \<Rightarrow> RemoteSupportRequest option" where
  "decode_RemoteSupportRequest v =
     decode_struct rs_request_fields set_rs_request_field zero_RemoteSupportRequest v"

definition set_rs_end_field :: "string \<Rightarrow> json \<Rightarrow> RemoteSupportEnd \<Rightarrow> RemoteSupportEnd option" where
  "set_rs_end_field f v r = map_option (\<lambda>n. r\<lparr>end_SessionID := n\<rparr>) (decode_int (end_SessionID r) v)"

definition decode_RemoteSupportEnd :: "json \<Rightarrow> RemoteSupportEnd option" where
  "decode_RemoteSupportEnd v =
     decode_struct [''session_id''] set_rs_end_field \<lparr>end_SessionID = 0\<rparr> v"

end
