(* ===== verification/Go_Containers.thy ===== *)
theory Go_Containers
  imports Go_Prelude "HOL-Library.AList" "HOL-Library.Multiset"
begin

section \<open>Go maps and sort.Slice\<close>

text \<open>
  A Go map is an association list with distinct keys. The order of the list is the order in
  which one \<open>range\<close> loop happens to visit the entries, which Go leaves open: a result that must
  not depend on it is shown to be invariant under permutations of the list.

  The contract the clients of a map rely on is the locale \<open>go_map\<close>; the association lists
  provide it. The contract of \<open>sort.Slice\<close> is the locale \<open>slice_sort\<close>; insertion sort, which is
  what Go runs on up to twelve elements, provides it.
\<close>

subsection \<open>The map interface\<close>

locale go_map =
  fixes get :: "'m \<Rightarrow> 'k \<Rightarrow> 'v option"
    and put :: "'k \<Rightarrow> 'v \<Rightarrow> 'm \<Rightarrow> 'm"
    and del :: "'k \<Rightarrow> 'm \<Rightarrow> 'm"
    and wf :: "'m \<Rightarrow> bool"
  assumes get_put: "wf m \<Longrightarrow> get (put k v m) = (get m)(k \<mapsto> v)"
    and get_del: "wf m \<Longrightarrow> get (del k m) = (get m)(k := None)"
    and wf_put: "wf m \<Longrightarrow> wf (put k v m)"
    and wf_del: "wf m \<Longrightarrow> wf (del k m)"
begin

lemma get_put_same: "wf m \<Longrightarrow> get (put k v m) k = Some v"
  by (simp add: get_put)

lemma get_put_other: "wf m \<Longrightarrow> k' \<noteq> k \<Longrightarrow> get (put k v m) k' = get m k'"
  by (simp add: get_put)

lemma get_del_other: "wf m \<Longrightarrow> k' \<noteq> k \<Longrightarrow> get (del k m) k' = get m k'"
  by (simp add: get_del)

lemma get_del_put: "wf m \<Longrightarrow> get (del k (put k v m)) = get (del k m)"
  by (simp add: get_put get_del wf_put)

text \<open>Inserting a list of entries, each only when its key is absent: the first value stays.\<close>

lemma fold_put_absent:
  assumes "wf m"
  shows "wf (fold (\<lambda>(k, v) m. if get m k = None then put k v m else m) kvs m) \<and>
    get (fold (\<lambda>(k, v) m. if get m k = None then put k v m else m) kvs m) = map_of kvs ++ get m"
  using assms
proof (induction kvs arbitrary: m)
  case Nil
  then show ?case by simp
next
  case (Cons kv kvs)
  obtain k v where kv: "kv = (k, v)" by (cases kv)
  let ?m = "if get m k = None then put k v m else m"
  have "wf ?m" using Cons.prems by (simp add: wf_put)
  from Cons.IH [OF this] have "wf (fold (\<lambda>(k, v) m. if get m k = None then put k v m else m) kvs ?m)"
    and "get (fold (\<lambda>(k, v) m. if get m k = None then put k v m else m) kvs ?m)
      = map_of kvs ++ get ?m" by auto
  moreover have "map_of kvs ++ get ?m = map_of (kv # kvs) ++ get m" if "get m k \<noteq> None"
    using that kv by (auto simp: fun_eq_iff map_add_def split: option.splits)
  moreover have "map_of kvs ++ get ?m = (map_of kvs ++ get m)(k \<mapsto> v)" if "get m k = None"
    using that Cons.prems by (auto simp: fun_eq_iff map_add_def get_put split: option.splits)
  moreover have "(map_of kvs ++ get m)(k \<mapsto> v) = map_of (kv # kvs) ++ get m" if "get m k = None"
    using that kv by (auto simp: fun_eq_iff map_add_def split: option.splits)
  ultimately show ?case using kv by (auto simp: fun_upd_def)
qed

end

subsection \<open>Association lists provide it\<close>

type_synonym ('k, 'v) gomap = "('k \<times> 'v) list"

definition gm_get :: "('k, 'v) gomap \<Rightarrow> 'k \<Rightarrow> 'v option" where
  "gm_get m k = map_of m k"

definition gm_put :: "'k \<Rightarrow> 'v \<Rightarrow> ('k, 'v) gomap \<Rightarrow> ('k, 'v) gomap" where
  "gm_put k v m = AList.update k v m"

definition gm_del :: "'k \<Rightarrow> ('k, 'v) gomap \<Rightarrow> ('k, 'v) gomap" where
  "gm_del k m = AList.delete k m"

definition gm_wf :: "('k, 'v) gomap \<Rightarrow> bool" where
  "gm_wf m \<longleftrightarrow> distinct (map fst m)"

lemmas gm_defs = gm_get_def gm_put_def gm_del_def gm_wf_def

interpretation gm: go_map gm_get gm_put gm_del gm_wf
  by unfold_locales
    (auto simp: gm_defs update_conv' delete_conv' distinct_update distinct_delete fun_eq_iff)

lemma gm_wf_Nil [simp]: "gm_wf []"
  by (simp add: gm_defs)

lemma gm_get_Nil [simp]: "gm_get [] k = None"
  by (simp add: gm_defs)

lemma gm_get_in: "gm_wf m \<Longrightarrow> gm_get m k = Some v \<longleftrightarrow> (k, v) \<in> set m"
  by (auto simp: gm_defs dest: map_of_SomeD)

lemma gm_get_None: "gm_get m k = None \<longleftrightarrow> k \<notin> fst ` set m"
  by (simp add: gm_defs map_of_eq_None_iff)

lemma gm_get_perm: "gm_wf m \<Longrightarrow> mset m = mset m' \<Longrightarrow> gm_get m' = gm_get m"
  by (metis gm_defs(1,4) ext map_of_inject_set mset_eq_setD mset_eq_imp_distinct_iff mset_map)

lemma gm_keys_put: "fst ` set (gm_put k v m) = insert k (fst ` set m)"
  by (simp add: gm_defs dom_update)

lemma gm_set_del: "set (gm_del k m) = {e \<in> set m. fst e \<noteq> k}"
  by (auto simp: gm_defs AList.delete_eq)

lemma gm_keys_del: "fst ` set (gm_del k m) = fst ` set m - {k}"
  by (auto simp: gm_set_del)

lemma gm_set_put: "gm_wf m \<Longrightarrow> set (gm_put k v m) = insert (k, v) {e \<in> set m. fst e \<noteq> k}"
  unfolding gm_wf_def gm_put_def by (induction m) (auto simp: rev_image_eqI)

lemma gm_length_del: "gm_wf m \<Longrightarrow> k \<in> fst ` set m \<Longrightarrow> length (gm_del k m) = length m - 1"
proof (induction m)
  case (Cons e m)
  show ?case
  proof (cases "fst e = k")
    case True
    with Cons.prems have "k \<notin> fst ` set m" by (auto simp: gm_wf_def)
    then have "gm_del k m = m" by (simp add: gm_del_def AList.delete_eq filter_id_conv image_iff split_beta)
    with True show ?thesis by (simp add: gm_del_def AList.delete_eq split_beta)
  next
    case False
    with Cons have "length (gm_del k m) = length m - 1" and "m \<noteq> []"
      by (auto simp: gm_wf_def)
    with False show ?thesis by (cases m) (auto simp: gm_del_def AList.delete_eq)
  qed
qed simp

lemma gm_length_del_le: "length (gm_del k m) \<le> length m"
  by (simp add: gm_del_def AList.delete_eq)

subsection \<open>sort.Slice\<close>

text \<open>
  \<open>sort.Slice(xs, less)\<close> leaves a permutation of \<open>xs\<close> in which no element is less than one
  before it. Nothing is said about elements that are not comparable by \<open>less\<close>.
\<close>

definition strict_weak :: "('a \<Rightarrow> 'a \<Rightarrow> bool) \<Rightarrow> bool" where
  "strict_weak lt \<longleftrightarrow> (\<forall>x y. lt x y \<longrightarrow> \<not> lt y x) \<and> (\<forall>x y z. lt x z \<longrightarrow> lt x y \<or> lt y z)"

locale slice_sort =
  fixes srt :: "('a \<Rightarrow> 'a \<Rightarrow> bool) \<Rightarrow> 'a list \<Rightarrow> 'a list"
  assumes srt_mset: "mset (srt lt xs) = mset xs"
    and srt_sorted: "strict_weak lt \<Longrightarrow> sorted_wrt (\<lambda>x y. \<not> lt y x) (srt lt xs)"
begin

lemma srt_set [simp]: "set (srt lt xs) = set xs"
  by (metis set_mset_mset srt_mset)

lemma srt_length [simp]: "length (srt lt xs) = length xs"
  by (metis size_mset srt_mset)

lemma srt_Nil_iff [simp]: "srt lt xs = [] \<longleftrightarrow> xs = []"
  by (metis mset_zero_iff srt_mset)

lemma srt_hd_least:
  assumes "strict_weak lt" and "xs \<noteq> []" and "x \<in> set xs"
  shows "\<not> lt x (hd (srt lt xs))"
proof -
  obtain y ys where ys: "srt lt xs = y # ys" using assms(2) by (metis neq_Nil_conv srt_Nil_iff)
  have "x \<in> set (y # ys)" using assms(3) srt_set ys by metis
  moreover have "\<not> lt y y" using assms(1) by (auto simp: strict_weak_def)
  ultimately show ?thesis using srt_sorted [OF assms(1), of xs] ys by auto
qed

end

text \<open>Two sorted lists of the same elements are equal where \<open>less\<close> separates the elements.\<close>

lemma sorted_perm_unique:
  assumes "mset xs = mset ys"
    and "sorted_wrt (\<lambda>x y. \<not> lt y x) xs" and "sorted_wrt (\<lambda>x y. \<not> lt y x) ys"
    and "\<forall>x \<in> set xs. \<forall>y \<in> set xs. \<not> lt x y \<and> \<not> lt y x \<longrightarrow> x = y"
  shows "xs = ys"
  using assms
proof (induction xs arbitrary: ys)
  case Nil
  then show ?case by simp
next
  case (Cons x xs)
  then obtain y ys' where ys: "ys = y # ys'" by (cases ys) auto
  have sets: "set (x # xs) = set ys" using Cons.prems(1) by (metis set_mset_mset)
  have "x = y"
  proof (rule ccontr)
    assume ne: "x \<noteq> y"
    from sets ys have "y \<in> set (x # xs)" and "x \<in> set (y # ys')" by auto
    with ne have y: "y \<in> set xs" and x: "x \<in> set ys'" by auto
    from y Cons.prems(2) have "\<not> lt y x" by auto
    moreover from x Cons.prems(3) ys have "\<not> lt x y" by auto
    ultimately show False using Cons.prems(4) y ne by auto
  qed
  with Cons ys show ?case by auto
qed

fun slice_insert :: "('a \<Rightarrow> 'a \<Rightarrow> bool) \<Rightarrow> 'a \<Rightarrow> 'a list \<Rightarrow> 'a list" where
  "slice_insert lt x [] = [x]"
| "slice_insert lt x (y # ys) = (if lt x y then x # y # ys else y # slice_insert lt x ys)"

definition sort_Slice :: "('a \<Rightarrow> 'a \<Rightarrow> bool) \<Rightarrow> 'a list \<Rightarrow> 'a list" where
  "sort_Slice lt xs = fold (slice_insert lt) xs []"

lemma mset_slice_insert: "mset (slice_insert lt x ys) = add_mset x (mset ys)"
  by (induction ys) auto

lemma set_slice_insert: "set (slice_insert lt x ys) = insert x (set ys)"
  by (metis mset_slice_insert set_mset_add_mset_insert set_mset_mset)

lemma sorted_slice_insert:
  assumes "strict_weak lt" and "sorted_wrt (\<lambda>x y. \<not> lt y x) ys"
  shows "sorted_wrt (\<lambda>x y. \<not> lt y x) (slice_insert lt x ys)"
  using assms(2)
proof (induction ys)
  case (Cons y ys)
  show ?case
  proof (cases "lt x y")
    case True
    have "\<not> lt z x" if "z \<in> set ys" for z
    proof
      assume "lt z x"
      then have "lt z y \<or> lt y x" using assms(1) unfolding strict_weak_def by blast
      moreover have "\<not> lt z y" using Cons.prems that by simp
      moreover have "\<not> lt y x" using assms(1) True unfolding strict_weak_def by blast
      ultimately show False by blast
    qed
    moreover have "\<not> lt y x" using assms(1) True unfolding strict_weak_def by blast
    ultimately show ?thesis using Cons.prems True by auto
  next
    case False
    with Cons show ?thesis by (auto simp: set_slice_insert)
  qed
qed simp

lemma mset_sort_Slice: "mset (sort_Slice lt xs) = mset xs"
proof -
  have "mset (fold (slice_insert lt) xs ys) = mset xs + mset ys" for ys
    by (induction xs arbitrary: ys) (auto simp: mset_slice_insert)
  then show ?thesis by (simp add: sort_Slice_def)
qed

lemma sorted_sort_Slice: "strict_weak lt \<Longrightarrow> sorted_wrt (\<lambda>x y. \<not> lt y x) (sort_Slice lt xs)"
proof -
  assume lt: "strict_weak lt"
  have "sorted_wrt (\<lambda>x y. \<not> lt y x) ys \<Longrightarrow>
      sorted_wrt (\<lambda>x y. \<not> lt y x) (fold (slice_insert lt) xs ys)" for ys
    by (induction xs arbitrary: ys) (auto simp: sorted_slice_insert [OF lt])
  then show ?thesis by (simp add: sort_Slice_def)
qed

interpretation gosort: slice_sort sort_Slice
  by unfold_locales (auto simp: mset_sort_Slice sorted_sort_Slice)

text \<open>
  So any other implementation of \<open>sort.Slice\<close> gives the same list when \<open>less\<close> separates the
  elements, and a permutation of the input gives the same output.
\<close>

lemma sort_Slice_perm:
  assumes "strict_weak lt" and "mset xs = mset ys"
    and "\<forall>x \<in> set xs. \<forall>y \<in> set xs. \<not> lt x y \<and> \<not> lt y x \<longrightarrow> x = y"
  shows "sort_Slice lt ys = sort_Slice lt xs"
proof (rule sorted_perm_unique [where lt = lt])
  show "mset (sort_Slice lt ys) = mset (sort_Slice lt xs)"
    using assms(2) by (simp add: mset_sort_Slice)
  show "sorted_wrt (\<lambda>x y. \<not> lt y x) (sort_Slice lt ys)"
    and "sorted_wrt (\<lambda>x y. \<not> lt y x) (sort_Slice lt xs)"
    using assms(1) by (auto intro: sorted_sort_Slice)
  have "set ys = set xs" using assms(2) by (metis set_mset_mset)
  then show "\<forall>x \<in> set (sort_Slice lt ys). \<forall>y \<in> set (sort_Slice lt ys).
      \<not> lt x y \<and> \<not> lt y x \<longrightarrow> x = y"
    using assms(3) by simp
qed

subsection \<open>Loops that drop repeated keys\<close>

text \<open>
  \<open>for _, x := range xs { if seen[key(x)] { continue }; seen[key(x)] = true; out = append(out, x) }\<close>
\<close>

fun dedup_loop :: "('a \<Rightarrow> 'k) \<Rightarrow> 'k list \<Rightarrow> 'a list \<Rightarrow> 'a list \<times> 'k list" where
  "dedup_loop key seen [] = ([], seen)"
| "dedup_loop key seen (x # xs) =
     (if key x \<in> set seen then dedup_loop key seen xs
      else let (out, seen') = dedup_loop key (key x # seen) xs in (x # out, seen'))"

lemma dedup_loop_seen:
  "set (snd (dedup_loop key seen xs)) = set seen \<union> key ` set xs"
  by (induction key seen xs rule: dedup_loop.induct) (auto simp: split_beta)

lemma dedup_loop_keys:
  "key ` set (fst (dedup_loop key seen xs)) = key ` set xs - set seen"
  by (induction key seen xs rule: dedup_loop.induct) (auto simp: split_beta)

lemma dedup_loop_subset: "set (fst (dedup_loop key seen xs)) \<subseteq> set xs"
  by (induction key seen xs rule: dedup_loop.induct) (auto simp: split_beta)

lemma dedup_loop_distinct: "distinct (map key (fst (dedup_loop key seen xs)))"
proof (induction key seen xs rule: dedup_loop.induct)
  case (2 key seen x xs)
  show ?case
  proof (cases "key x \<in> set seen")
    case True
    with 2 show ?thesis by simp
  next
    case False
    with 2 have "distinct (map key (fst (dedup_loop key (key x # seen) xs)))" by simp
    with False show ?thesis
      using dedup_loop_keys [of key "key x # seen" xs] by (auto simp: split_beta)
  qed
qed simp

lemma dedup_loop_append:
  "dedup_loop key seen (xs @ ys) =
     (let (o1, s1) = dedup_loop key seen xs; (o2, s2) = dedup_loop key s1 ys in (o1 @ o2, s2))"
  by (induction key seen xs rule: dedup_loop.induct) (auto simp: split_beta Let_def)

lemma dedup_loop_id: "distinct (map key xs) \<Longrightarrow> key ` set xs \<inter> set seen = {} \<Longrightarrow>
  fst (dedup_loop key seen xs) = xs"
  by (induction key seen xs rule: dedup_loop.induct) (auto simp: split_beta)

end
