(* ===== verification/TaskQueue.thy ===== *)
theory TaskQueue
  imports Api Go_Containers
begin

section \<open>The task queue\<close>

text \<open>
  \<open>internal/queue/taskqueue.go\<close>, and the loop of \<open>processCommands\<close> in \<open>cmd/service/core.go\<close> that
  drains it. The queue's mutex makes each operation atomic, so an operation is a function on the
  queue. What \<open>ProcessOne\<close> takes from outside (the clock, the random jitter, whether the context
  is cancelled while it waits, and what the execution of a command gives) is one record
  \<open>process_env\<close> per call; the clock is read once per task while candidates are collected.
\<close>

subsection \<open>State and operations\<close>

record ExecutionResult =
  er_ExitCode :: int
  er_InstalledVersion :: string
  er_DownloadDurationSec :: int
  er_InstallDurationSec :: int
  er_Message :: string

record RetryInfo =
  ri_Count :: int
  ri_NextRetryAt :: gotime

record queuedTask =
  qt_Command :: Command

record TaskQueue =
  q_tasks :: "(int, queuedTask) gomap"
  q_retries :: "(int, RetryInfo) gomap"
  q_maxRetries :: int
  q_installed :: "(int, string) gomap"
  q_appsChanged :: bool

record process_env =
  pe_now :: "int \<Rightarrow> gotime"
  pe_jitter :: int
  pe_cancelled :: bool
  pe_execute :: "Command \<Rightarrow> ExecutionResult \<times> goerr option"
  pe_failNow :: gotime

type_synonym task_report = "int \<times> TaskStatusRequest"

definition NewTaskQueue :: "int \<Rightarrow> TaskQueue" where
  "NewTaskQueue maxRetries =
     \<lparr>q_tasks = [], q_retries = [],
      q_maxRetries = (if maxRetries \<le> 0 then 3 else maxRetries),
      q_installed = [], q_appsChanged = False\<rparr>"

fun AddCommands :: "Command list \<Rightarrow> TaskQueue \<Rightarrow> TaskQueue" where
  "AddCommands [] q = q"
| "AddCommands (c # cs) q =
     (if cmd_TaskID c = 0 then AddCommands cs q
      else if gm_get (q_tasks q) (cmd_TaskID c) \<noteq> None then AddCommands cs q
      else AddCommands cs (q\<lparr>q_tasks := gm_put (cmd_TaskID c) \<lparr>qt_Command = c\<rparr> (q_tasks q)\<rparr>))"

definition PendingCount :: "TaskQueue \<Rightarrow> int" where
  "PendingCount q = int (length (q_tasks q))"

definition ConsumeAppsChanged :: "TaskQueue \<Rightarrow> (bool \<times> InstalledApp list) \<times> TaskQueue" where
  "ConsumeAppsChanged q =
     (if \<not> q_appsChanged q then ((False, []), q)
      else let appIDs = sort (map fst (q_installed q));
               apps = map (\<lambda>i. \<lparr>app_AppID = i,
                         app_Version = (case gm_get (q_installed q) i of None \<Rightarrow> '''' | Some v \<Rightarrow> v)\<rparr>) appIDs
           in ((True, apps), q\<lparr>q_appsChanged := False\<rparr>))"

definition shouldExecuteNow :: "Command \<Rightarrow> bool" where
  "shouldExecuteNow _ = True"

fun collectCandidates :: "TaskQueue \<Rightarrow> (int \<Rightarrow> gotime) \<Rightarrow> (int, queuedTask) gomap \<Rightarrow> Command list" where
  "collectCandidates q now [] = []"
| "collectCandidates q now ((_, t) # ts) =
     (case gm_get (q_retries q) (cmd_TaskID (qt_Command t)) of
        Some retry \<Rightarrow>
          (if now (cmd_TaskID (qt_Command t)) < ri_NextRetryAt retry then collectCandidates q now ts
           else if \<not> shouldExecuteNow (qt_Command t) then collectCandidates q now ts
           else qt_Command t # collectCandidates q now ts)
      | None \<Rightarrow>
          (if \<not> shouldExecuteNow (qt_Command t) then collectCandidates q now ts
           else qt_Command t # collectCandidates q now ts))"

definition commandLess :: "Command \<Rightarrow> Command \<Rightarrow> bool" where
  "commandLess a b =
     (if cmd_Priority a = cmd_Priority b then cmd_TaskID a < cmd_TaskID b
      else cmd_Priority a < cmd_Priority b)"

definition nextRunnable :: "(int \<Rightarrow> gotime) \<Rightarrow> TaskQueue \<Rightarrow> Command option" where
  "nextRunnable now q =
     (if q_tasks q = [] then None
      else let candidates = collectCandidates q now (q_tasks q)
           in if candidates = [] then None else Some (hd (sort_Slice commandLess candidates)))"

definition handleFailure :: "gotime \<Rightarrow> int \<Rightarrow> TaskQueue \<Rightarrow> TaskQueue" where
  "handleFailure now taskID q =
     (let retry = (case gm_get (q_retries q) taskID of
                     None \<Rightarrow> \<lparr>ri_Count = 0, ri_NextRetryAt = 0\<rparr> | Some r \<Rightarrow> r);
          count = ri_Count retry + 1
      in if count \<ge> q_maxRetries q
         then q\<lparr>q_retries := gm_del taskID (q_retries q), q_tasks := gm_del taskID (q_tasks q)\<rparr>
         else q\<lparr>q_retries := gm_put taskID
                  \<lparr>ri_Count = count,
                   ri_NextRetryAt = time_Add now (dur_mul (wrap64 (count * 5)) dur_minute)\<rparr>
                  (q_retries q)\<rparr>)"

definition handleSuccess :: "Command \<Rightarrow> TaskQueue \<Rightarrow> TaskQueue" where
  "handleSuccess task q =
     (let q1 = q\<lparr>q_tasks := gm_del (cmd_TaskID task) (q_tasks q),
                 q_retries := gm_del (cmd_TaskID task) (q_retries q)\<rparr>
      in if cmd_AppID task > 0
         then q1\<lparr>q_installed := gm_put (cmd_AppID task)
                   (if cmd_AppVersion task = '''' then ''unknown'' else cmd_AppVersion task)
                   (q_installed q1),
                 q_appsChanged := True\<rparr>
         else q1)"

definition failedReport :: "ExecutionResult \<Rightarrow> goerr \<Rightarrow> TaskStatusRequest" where
  "failedReport result err = zero_TaskStatusRequest\<lparr>ts_Status := ''failed'', ts_Progress := 0,
     ts_Message := error_Error err, ts_ExitCode := Some (er_ExitCode result),
     ts_Error := error_Error err\<rparr>"

definition successReport :: "ExecutionResult \<Rightarrow> TaskStatusRequest" where
  "successReport result = zero_TaskStatusRequest\<lparr>ts_Status := ''success'', ts_Progress := 100,
     ts_Message := (if er_Message result = '''' then ''Installation completed successfully''
                    else er_Message result),
     ts_ExitCode := Some (er_ExitCode result),
     ts_InstalledVersion := er_InstalledVersion result,
     ts_DownloadDurationSec := er_DownloadDurationSec result,
     ts_InstallDurationSec := er_InstallDurationSec result\<rparr>"

definition ProcessOne :: "process_env \<Rightarrow> TaskQueue \<Rightarrow> bool \<times> task_report list \<times> TaskQueue" where
  "ProcessOne env q =
     (case nextRunnable (pe_now env) q of
        None \<Rightarrow> (False, [], q)
      | Some task \<Rightarrow>
          if \<not> cmd_ForceUpdate task \<and> pe_jitter env > 0 \<and> pe_cancelled env then (False, [], q)
          else (case pe_execute env task of
                  (result, Some err) \<Rightarrow>
                    (True, [(cmd_TaskID task, failedReport result err)],
                     handleFailure (pe_failNow env) (cmd_TaskID task) q)
                | (result, None) \<Rightarrow>
                    (True, [(cmd_TaskID task, successReport result)], handleSuccess task q)))"

text \<open>
  The loop of \<open>processCommands\<close>: \<open>ProcessOne\<close> until it returns false. The environment of the
  \<open>i\<close>-th call is \<open>env i\<close>. Nothing in the loop itself bounds it.
\<close>

partial_function (option) processLoop ::
  "(nat \<Rightarrow> process_env) \<Rightarrow> nat \<Rightarrow> TaskQueue \<Rightarrow> (task_report list \<times> TaskQueue) option" where
  "processLoop env i q =
     (case ProcessOne (env i) q of (processed, reports, q') \<Rightarrow>
        if processed
        then Option.bind (processLoop env (Suc i) q')
               (\<lambda>(reports', q''). Some (reports @ reports', q''))
        else Some (reports, q'))"

definition processCommands ::
  "(nat \<Rightarrow> process_env) \<Rightarrow> Command list \<Rightarrow> TaskQueue \<Rightarrow> (task_report list \<times> TaskQueue) option" where
  "processCommands env commands q =
     processLoop env 0 (if commands \<noteq> [] then AddCommands commands q else q)"

subsection \<open>Well-formed queues\<close>

text \<open>
  Every task is filed under its own identifier, which is not 0; only a pending task has retry
  information; and a task with retry information has failed at least once and fewer than
  \<open>maxRetries\<close> times.
\<close>

definition queue_wf :: "TaskQueue \<Rightarrow> bool" where
  "queue_wf q \<longleftrightarrow>
     gm_wf (q_tasks q) \<and> gm_wf (q_retries q) \<and> gm_wf (q_installed q) \<and> 0 < q_maxRetries q \<and>
     (\<forall>i t. gm_get (q_tasks q) i = Some t \<longrightarrow> cmd_TaskID (qt_Command t) = i \<and> i \<noteq> 0) \<and>
     (\<forall>i r. gm_get (q_retries q) i = Some r \<longrightarrow>
        gm_get (q_tasks q) i \<noteq> None \<and> 0 < ri_Count r \<and> ri_Count r < q_maxRetries q) \<and>
     (\<forall>i v. gm_get (q_installed q) i = Some v \<longrightarrow> 0 < i \<and> v \<noteq> '''')"

lemma queue_wfD:
  assumes "queue_wf q"
  shows "gm_wf (q_tasks q)" and "gm_wf (q_retries q)" and "gm_wf (q_installed q)"
    and "0 < q_maxRetries q"
    and "gm_get (q_tasks q) i = Some t \<Longrightarrow> cmd_TaskID (qt_Command t) = i"
    and "gm_get (q_retries q) i = Some r \<Longrightarrow> 0 < ri_Count r \<and> ri_Count r < q_maxRetries q"
    and "gm_get (q_retries q) i = Some r \<Longrightarrow> gm_get (q_tasks q) i \<noteq> None"
  using assms by (auto simp: queue_wf_def)

lemma queue_wf_New: "queue_wf (NewTaskQueue n)"
  by (simp add: queue_wf_def NewTaskQueue_def)

lemma queue_wf_AddCommands: "queue_wf q \<Longrightarrow> queue_wf (AddCommands cs q)"
proof (induction cs q rule: AddCommands.induct)
  case (2 c cs q)
  have "queue_wf (q\<lparr>q_tasks := gm_put (cmd_TaskID c) \<lparr>qt_Command = c\<rparr> (q_tasks q)\<rparr>)"
    if "cmd_TaskID c \<noteq> 0"
    using that "2.prems" by (auto simp: queue_wf_def gm.wf_put gm.get_put)
  with 2 show ?case by simp
qed simp

lemma queue_wf_Consume: "queue_wf q \<Longrightarrow> queue_wf (snd (ConsumeAppsChanged q))"
  by (auto simp: queue_wf_def ConsumeAppsChanged_def Let_def)

lemma queue_wf_handleFailure:
  assumes "queue_wf q" and "gm_get (q_tasks q) i \<noteq> None"
  shows "queue_wf (handleFailure now i q)"
proof -
  have "0 \<le> ri_Count r" if "gm_get (q_retries q) i = Some r" for r
    using that queue_wfD(6) [OF assms(1)] by fastforce
  with assms show ?thesis
    by (auto simp: queue_wf_def handleFailure_def Let_def gm.wf_put gm.wf_del gm.get_put gm.get_del
        split: option.splits if_splits)
qed

lemma queue_wf_handleSuccess: "queue_wf q \<Longrightarrow> queue_wf (handleSuccess c q)"
  by (auto simp: queue_wf_def handleSuccess_def Let_def gm.wf_put gm.wf_del gm.get_put gm.get_del
      split: if_splits)

subsection \<open>Which task runs next\<close>

text \<open>
  A task may run when it is pending and the clock, read for it, has reached the time of its next
  retry. The sort of the candidates is specified away: the task chosen is the runnable one that
  comes first by priority and then by identifier.
\<close>

definition runnable :: "(int \<Rightarrow> gotime) \<Rightarrow> TaskQueue \<Rightarrow> Command \<Rightarrow> bool" where
  "runnable now q c \<longleftrightarrow>
     gm_get (q_tasks q) (cmd_TaskID c) = Some \<lparr>qt_Command = c\<rparr> \<and>
     (\<forall>r. gm_get (q_retries q) (cmd_TaskID c) = Some r \<longrightarrow> ri_NextRetryAt r \<le> now (cmd_TaskID c))"

lemma set_collectCandidates:
  "set (collectCandidates q now ts) = {c. c \<in> (qt_Command \<circ> snd) ` set ts \<and>
     (\<forall>r. gm_get (q_retries q) (cmd_TaskID c) = Some r \<longrightarrow> ri_NextRetryAt r \<le> now (cmd_TaskID c))}"
  by (induction q now ts rule: collectCandidates.induct)
    (auto simp: shouldExecuteNow_def split: option.splits)

lemma qt_eta: "t = \<lparr>qt_Command = qt_Command t\<rparr>"
  by (cases t) simp

lemma collectCandidates_runnable:
  assumes "queue_wf q"
  shows "c \<in> set (collectCandidates q now (q_tasks q)) \<longleftrightarrow> runnable now q c"
proof -
  have "c \<in> (qt_Command \<circ> snd) ` set (q_tasks q) \<longleftrightarrow>
      gm_get (q_tasks q) (cmd_TaskID c) = Some \<lparr>qt_Command = c\<rparr>"
  proof
    assume "c \<in> (qt_Command \<circ> snd) ` set (q_tasks q)"
    then obtain i t where it: "(i, t) \<in> set (q_tasks q)" "qt_Command t = c" by auto
    then have "gm_get (q_tasks q) i = Some t" using assms by (simp add: gm_get_in queue_wfD(1))
    with it queue_wfD(5) [OF assms this] show "gm_get (q_tasks q) (cmd_TaskID c) = Some \<lparr>qt_Command = c\<rparr>"
      by (metis qt_eta)
  next
    assume "gm_get (q_tasks q) (cmd_TaskID c) = Some \<lparr>qt_Command = c\<rparr>"
    then have "(cmd_TaskID c, \<lparr>qt_Command = c\<rparr>) \<in> set (q_tasks q)"
      using assms by (simp add: gm_get_in queue_wfD(1))
    then show "c \<in> (qt_Command \<circ> snd) ` set (q_tasks q)" by (force simp: image_iff)
  qed
  then show ?thesis by (simp add: set_collectCandidates runnable_def)
qed

text \<open>The order is linear on priorities and identifiers.\<close>

datatype task_key = TaskKey (tk_priority: int) (tk_id: int)

instantiation task_key :: linorder
begin

definition less_task_key :: "task_key \<Rightarrow> task_key \<Rightarrow> bool" where
  "less_task_key a b \<longleftrightarrow> tk_priority a < tk_priority b \<or> tk_priority a = tk_priority b \<and> tk_id a < tk_id b"

definition less_eq_task_key :: "task_key \<Rightarrow> task_key \<Rightarrow> bool" where
  "less_eq_task_key a b \<longleftrightarrow> a < b \<or> a = b"

instance
  by standard (auto simp: less_task_key_def less_eq_task_key_def intro: task_key.expand)

end

definition task_key_of :: "Command \<Rightarrow> task_key" where
  "task_key_of c = TaskKey (cmd_Priority c) (cmd_TaskID c)"

lemma commandLess_key: "commandLess a b \<longleftrightarrow> task_key_of a < task_key_of b"
  by (auto simp: commandLess_def task_key_of_def less_task_key_def)

lemma strict_weak_commandLess: "strict_weak commandLess"
  unfolding strict_weak_def commandLess_key by auto

lemma nextRunnable_cases:
  assumes "queue_wf q"
  shows "case nextRunnable now q of
      None \<Rightarrow> (\<forall>c. \<not> runnable now q c)
    | Some c \<Rightarrow> runnable now q c \<and> (\<forall>d. runnable now q d \<longrightarrow> \<not> commandLess d c)"
proof -
  let ?cs = "collectCandidates q now (q_tasks q)"
  note mem = collectCandidates_runnable [OF assms, of _ now]
  show ?thesis
  proof (cases "?cs = []")
    case True
    then have "nextRunnable now q = None" by (simp add: nextRunnable_def)
    moreover have "\<not> runnable now q c" for c using mem [of c] True by simp
    ultimately show ?thesis by simp
  next
    case False
    then have "q_tasks q \<noteq> []" by auto
    with False have "nextRunnable now q = Some (hd (sort_Slice commandLess ?cs))"
      by (simp add: nextRunnable_def Let_def)
    moreover have "hd (sort_Slice commandLess ?cs) \<in> set ?cs"
      using False gosort.srt_set [of commandLess ?cs] gosort.srt_Nil_iff [of commandLess ?cs]
      by (metis hd_in_set)
    moreover have "\<not> commandLess d (hd (sort_Slice commandLess ?cs))" if "runnable now q d" for d
      using gosort.srt_hd_least [OF strict_weak_commandLess False] mem that by blast
    ultimately show ?thesis using mem by auto
  qed
qed

lemma nextRunnable_Some:
  "queue_wf q \<Longrightarrow> nextRunnable now q = Some c \<Longrightarrow>
     gm_get (q_tasks q) (cmd_TaskID c) = Some \<lparr>qt_Command = c\<rparr>"
  using nextRunnable_cases [of q now] by (simp add: runnable_def)

lemma runnable_commandLess_total:
  assumes "runnable now q c" and "runnable now q d" and "\<not> commandLess c d" and "\<not> commandLess d c"
  shows "c = d"
proof -
  have "cmd_TaskID c = cmd_TaskID d"
    using assms(3,4) by (auto simp: commandLess_def split: if_splits)
  with assms(1,2) show ?thesis by (simp add: runnable_def)
qed

text \<open>C11. The scheduler's choice: on a well-formed queue \<open>nextRunnable\<close> returns command \<open>c\<close>
  exactly when \<open>c\<close> is pending, its retry time has come, and every other such command has a larger
  priority number, or the same one and a larger task identifier.\<close>

theorem nextRunnable_least:
  assumes "queue_wf q"
  shows "nextRunnable now q = Some c \<longleftrightarrow>
     runnable now q c \<and> (\<forall>d. runnable now q d \<and> d \<noteq> c \<longrightarrow>
       cmd_Priority c < cmd_Priority d \<or>
       cmd_Priority c = cmd_Priority d \<and> cmd_TaskID c < cmd_TaskID d)"
    (is "_ \<longleftrightarrow> ?R c")
proof
  note sel = nextRunnable_cases [OF assms, of now]
  show "?R c" if "nextRunnable now q = Some c"
    using sel that runnable_commandLess_total [of now q c]
    by (fastforce simp: commandLess_def split: if_splits)
  show "nextRunnable now q = Some c" if "?R c"
  proof (cases "nextRunnable now q")
    case None
    with sel that show ?thesis by auto
  next
    case (Some d)
    with sel that have "d = c" by (force simp: commandLess_def split: if_splits)
    with Some show ?thesis by simp
  qed
qed

definition sample_command :: "int \<Rightarrow> int \<Rightarrow> Command" where
  "sample_command i p = zero_Command\<lparr>cmd_TaskID := i, cmd_AppID := i + 100, cmd_Priority := p,
     cmd_ForceUpdate := True\<rparr>"

definition sample_queue :: TaskQueue where
  "sample_queue = AddCommands [sample_command 7 2, sample_command 4 1, sample_command 9 1] (NewTaskQueue 3)"

lemma queue_wf_sample: "queue_wf sample_queue"
  unfolding sample_queue_def by (intro queue_wf_AddCommands queue_wf_New)

lemma nextRunnable_sample: "nextRunnable now sample_queue = Some (sample_command 4 1)"
  by (simp add: sample_queue_def sample_command_def NewTaskQueue_def zero_Command_def gm_defs
      nextRunnable_def Let_def shouldExecuteNow_def sort_Slice_def commandLess_def)

theorem nextRunnable_least_witness:
  "queue_wf sample_queue \<and>
   runnable (\<lambda>_. 0) sample_queue (sample_command 4 1)"
  using nextRunnable_least [OF queue_wf_sample, of "\<lambda>_. 0" "sample_command 4 1"]
    nextRunnable_sample queue_wf_sample by blast

text \<open>C12. The order in which Go happens to range over the map of tasks does not matter: two queues
  with the same entries, listed in any order, schedule the same command.\<close>

theorem nextRunnable_map_order:
  assumes "queue_wf q" and "mset tasks' = mset (q_tasks q)" and "mset retries' = mset (q_retries q)"
  shows "nextRunnable now (q\<lparr>q_tasks := tasks', q_retries := retries'\<rparr>) = nextRunnable now q"
proof -
  let ?q = "q\<lparr>q_tasks := tasks', q_retries := retries'\<rparr>"
  have get: "gm_get tasks' = gm_get (q_tasks q)" "gm_get retries' = gm_get (q_retries q)"
    using assms by (auto intro!: gm_get_perm simp: queue_wfD)
  have wf: "gm_wf tasks'" "gm_wf retries'"
    using assms by (metis gm_wf_def mset_eq_imp_distinct_iff mset_map queue_wfD(1),
      metis gm_wf_def mset_eq_imp_distinct_iff mset_map queue_wfD(2))
  from assms(1) get wf have wfq: "queue_wf ?q" by (simp add: queue_wf_def)
  have run: "runnable now ?q = runnable now q" by (simp add: runnable_def get fun_eq_iff)
  show ?thesis
    using nextRunnable_cases [OF assms(1), of now] nextRunnable_cases [OF wfq, of now]
      runnable_commandLess_total [of now q]
    by (auto simp: run split: option.splits)
qed

theorem nextRunnable_map_order_witness:
  "nextRunnable (\<lambda>_. 0) (sample_queue\<lparr>q_tasks := rev (q_tasks sample_queue), q_retries := []\<rparr>)
     = Some (sample_command 4 1)"
  using nextRunnable_map_order [OF queue_wf_sample, of "rev (q_tasks sample_queue)" "[]" "\<lambda>_. 0"]
    nextRunnable_sample
  by (simp add: sample_queue_def sample_command_def NewTaskQueue_def zero_Command_def gm_defs)

subsection \<open>Attempts: retries are bounded and the loop stops\<close>

definition failures :: "TaskQueue \<Rightarrow> int \<Rightarrow> int" where
  "failures q i = (case gm_get (q_retries q) i of None \<Rightarrow> 0 | Some r \<Rightarrow> ri_Count r)"

text \<open>How often a task can still be executed: \<open>maxRetries\<close> less its failures, 0 once it is gone.\<close>

definition attempts_left :: "TaskQueue \<Rightarrow> int \<Rightarrow> int" where
  "attempts_left q i =
     (case gm_get (q_tasks q) i of None \<Rightarrow> 0 | Some _ \<Rightarrow> q_maxRetries q - failures q i)"

lemma failures_bounds:
  assumes "queue_wf q"
  shows "0 \<le> failures q i" and "failures q i < q_maxRetries q"
  using queue_wfD(4) [OF assms] queue_wfD(6) [OF assms, of i]
  by (force simp: failures_def split: option.splits)+

lemma attempts_left_bounds:
  assumes "queue_wf q"
  shows "0 \<le> attempts_left q i" and "attempts_left q i \<le> q_maxRetries q"
    and "gm_get (q_tasks q) i \<noteq> None \<Longrightarrow> 0 < attempts_left q i"
  using failures_bounds [OF assms, of i] by (auto simp: attempts_left_def split: option.splits)

lemma attempts_left_absent: "gm_get (q_tasks q) i = None \<Longrightarrow> attempts_left q i = 0"
  by (simp add: attempts_left_def)

lemma maxRetries_frame [simp]:
  "q_maxRetries (AddCommands cs q) = q_maxRetries q"
  "q_maxRetries (handleFailure now i q) = q_maxRetries q"
  "q_maxRetries (handleSuccess c q) = q_maxRetries q"
  "q_maxRetries (snd (ConsumeAppsChanged q)) = q_maxRetries q"
  by (induction cs q rule: AddCommands.induct)
    (auto simp: handleFailure_def handleSuccess_def ConsumeAppsChanged_def Let_def)

lemma attempts_handleFailure:
  assumes "queue_wf q" and "gm_get (q_tasks q) i \<noteq> None"
  shows "attempts_left (handleFailure now i q) j =
    (if j = i then attempts_left q i - 1 else attempts_left q j)"
  using assms failures_bounds [OF assms(1), of i]
  by (auto simp: attempts_left_def failures_def handleFailure_def Let_def queue_wfD(1,2)
      gm.get_put gm.get_del split: option.splits)

lemma attempts_handleSuccess:
  assumes "queue_wf q"
  shows "attempts_left (handleSuccess c q) j = (if j = cmd_TaskID c then 0 else attempts_left q j)"
  using assms
  by (auto simp: attempts_left_def failures_def handleSuccess_def Let_def queue_wfD(1,2) gm.get_del
      split: option.splits)

lemma Consume_frame [simp]:
  "q_tasks (snd (ConsumeAppsChanged q)) = q_tasks q"
  "q_retries (snd (ConsumeAppsChanged q)) = q_retries q"
  "q_installed (snd (ConsumeAppsChanged q)) = q_installed q"
  by (simp_all add: ConsumeAppsChanged_def Let_def)

lemma attempts_Consume: "attempts_left (snd (ConsumeAppsChanged q)) j = attempts_left q j"
  by (simp add: attempts_left_def failures_def split: option.split)

lemma attempts_AddCommands:
  "queue_wf q \<Longrightarrow> attempts_left (AddCommands cs q) j =
     (if gm_get (q_tasks q) j = None \<and> j \<noteq> 0 \<and> j \<in> cmd_TaskID ` set cs then q_maxRetries q
      else attempts_left q j)"
proof (induction cs q rule: AddCommands.induct)
  case (1 q)
  then show ?case by simp
next
  case (2 c cs q)
  let ?q = "q\<lparr>q_tasks := gm_put (cmd_TaskID c) \<lparr>qt_Command = c\<rparr> (q_tasks q)\<rparr>"
  show ?case
  proof (cases "cmd_TaskID c = 0 \<or> gm_get (q_tasks q) (cmd_TaskID c) \<noteq> None")
    case True
    then have "AddCommands (c # cs) q = AddCommands cs q" by auto
    moreover have "attempts_left (AddCommands cs q) j =
        (if gm_get (q_tasks q) j = None \<and> j \<noteq> 0 \<and> j \<in> cmd_TaskID ` set cs then q_maxRetries q
         else attempts_left q j)"
      using 2 True by (cases "cmd_TaskID c = 0") simp_all
    ultimately show ?thesis using True by auto
  next
    case False
    then have add: "AddCommands (c # cs) q = AddCommands cs ?q" by simp
    have "queue_wf ?q" using queue_wf_AddCommands [OF "2.prems", of "[c]"] False by simp
    with False "2.IH" have IH: "attempts_left (AddCommands cs ?q) j =
        (if gm_get (q_tasks ?q) j = None \<and> j \<noteq> 0 \<and> j \<in> cmd_TaskID ` set cs then q_maxRetries ?q
         else attempts_left ?q j)" by simp
    have "gm_get (q_retries q) (cmd_TaskID c) = None"
      using False queue_wfD(7) [OF "2.prems", of "cmd_TaskID c"]
      by (cases "gm_get (q_retries q) (cmd_TaskID c)") auto
    then have "attempts_left ?q j = (if j = cmd_TaskID c then q_maxRetries q else attempts_left q j)"
      using "2.prems"
      by (auto simp: attempts_left_def failures_def queue_wfD(1,2) gm.get_put split: option.splits)
    with IH add False show ?thesis
      using "2.prems" by (auto simp: queue_wfD gm.get_put)
  qed
qed

text \<open>One call of \<open>ProcessOne\<close>: nothing happens, or one pending task is reported once.\<close>

lemma ProcessOne_cases:
  assumes "queue_wf q"
  obtains (idle) "ProcessOne env q = (False, [], q)"
  | (failed) c result err where "nextRunnable (pe_now env) q = Some c"
      and "gm_get (q_tasks q) (cmd_TaskID c) = Some \<lparr>qt_Command = c\<rparr>"
      and "pe_execute env c = (result, Some err)"
      and "ProcessOne env q = (True, [(cmd_TaskID c, failedReport result err)],
             handleFailure (pe_failNow env) (cmd_TaskID c) q)"
  | (success) c result where "nextRunnable (pe_now env) q = Some c"
      and "gm_get (q_tasks q) (cmd_TaskID c) = Some \<lparr>qt_Command = c\<rparr>"
      and "pe_execute env c = (result, None)"
      and "ProcessOne env q = (True, [(cmd_TaskID c, successReport result)], handleSuccess c q)"
proof (cases "nextRunnable (pe_now env) q")
  case None
  then show thesis by (auto intro: idle simp: ProcessOne_def)
next
  case (Some c)
  obtain result e where ex: "pe_execute env c = (result, e)" by (cases "pe_execute env c")
  note pending = nextRunnable_Some [OF assms Some]
  show thesis
  proof (cases "\<not> cmd_ForceUpdate c \<and> pe_jitter env > 0 \<and> pe_cancelled env")
    case True
    with Some show thesis by (intro idle) (simp add: ProcessOne_def)
  next
    case False
    show thesis
    proof (cases e)
      case None
      with False Some ex show thesis
        by (intro success [OF Some pending]) (auto simp: ProcessOne_def)
    next
      case (Some err)
      with False \<open>nextRunnable (pe_now env) q = _\<close> ex show thesis
        by (intro failed [OF \<open>nextRunnable (pe_now env) q = _\<close> pending]) (auto simp: ProcessOne_def)
    qed
  qed
qed

lemma queue_wf_ProcessOne:
  assumes "queue_wf q" and "ProcessOne env q = (b, r, q')"
  shows "queue_wf q'" and "q_maxRetries q' = q_maxRetries q"
  using assms(1) by (cases rule: ProcessOne_cases [where env = env];
      use assms queue_wf_handleFailure queue_wf_handleSuccess in force)+

definition reports_for :: "int \<Rightarrow> task_report list \<Rightarrow> int" where
  "reports_for i rs = int (length (filter (\<lambda>r. fst r = i) rs))"

lemma reports_for_simps [simp]:
  "reports_for i [] = 0"
  "reports_for i (rs @ rs') = reports_for i rs + reports_for i rs'"
  "reports_for i [(j, r)] = (if i = j then 1 else 0)"
  by (auto simp: reports_for_def)

lemma ProcessOne_attempts:
  assumes "queue_wf q" and "ProcessOne env q = (b, rs, q')"
  shows "reports_for i rs + attempts_left q' i \<le> attempts_left q i"
using assms(1) proof (cases rule: ProcessOne_cases [where env = env])
  case idle
  with assms(2) show ?thesis by simp
next
  case (failed c result err)
  with assms show ?thesis by (auto simp: attempts_handleFailure)
next
  case (success c result)
  with assms attempts_left_bounds(3) [OF assms(1), of i] show ?thesis
    by (auto simp: attempts_handleSuccess)
qed

subsection \<open>All interleavings of the queue's clients\<close>

text \<open>
  Commands arrive, the loop processes, and the heartbeat goroutine consumes the changed
  applications, in any order.
\<close>

datatype queue_event = EvAdd "Command list" | EvProcess process_env | EvConsume

fun queue_step :: "TaskQueue \<Rightarrow> queue_event \<Rightarrow> task_report list \<times> TaskQueue" where
  "queue_step q (EvAdd cs) = ([], AddCommands cs q)"
| "queue_step q (EvProcess env) = (case ProcessOne env q of (_, rs, q') \<Rightarrow> (rs, q'))"
| "queue_step q EvConsume = ([], snd (ConsumeAppsChanged q))"

fun queue_run :: "TaskQueue \<Rightarrow> queue_event list \<Rightarrow> task_report list \<times> TaskQueue" where
  "queue_run q [] = ([], q)"
| "queue_run q (e # es) =
     (case queue_step q e of (rs, q') \<Rightarrow> case queue_run q' es of (rs', q'') \<Rightarrow> (rs @ rs', q''))"

definition offers :: "int \<Rightarrow> queue_event \<Rightarrow> bool" where
  "offers i e = (case e of EvAdd cs \<Rightarrow> i \<in> cmd_TaskID ` set cs | _ \<Rightarrow> False)"

lemma queue_step_wf:
  "queue_wf q \<Longrightarrow> queue_wf (snd (queue_step q e)) \<and> q_maxRetries (snd (queue_step q e)) = q_maxRetries q"
  by (cases e) (auto simp: queue_wf_AddCommands queue_wf_Consume dest: queue_wf_ProcessOne split: prod.splits)

lemma queue_run_wf: "queue_wf q \<Longrightarrow> queue_wf (snd (queue_run q es))"
proof (induction es arbitrary: q)
  case (Cons e es)
  then show ?case using queue_step_wf [of q e] by (simp add: split_beta)
qed simp

text \<open>C7. The queue's invariant in every reachable state: whatever the order in which commands
  arrive, tasks are processed and changes consumed, each task stays filed under its own non-zero
  identifier, retry information exists only for pending tasks, and its count stays strictly between
  0 and \<open>maxRetries\<close>.\<close>

theorem queue_run_invariant: "queue_wf (snd (queue_run (NewTaskQueue n) es))"
  by (rule queue_run_wf [OF queue_wf_New])

text \<open>C8. No command is executed more than \<open>maxRetries\<close> times per delivery: in any interleaving,
  the status reports sent for task \<open>i\<close>, plus the attempts it has left, never exceed the attempts it
  had at the start plus \<open>maxRetries\<close> for every batch of commands that contains it.\<close>

theorem queue_run_attempts:
  assumes "queue_wf q"
  shows "reports_for i (fst (queue_run q es)) + attempts_left (snd (queue_run q es)) i
    \<le> attempts_left q i + q_maxRetries q * int (length (filter (offers i) es))"
  using assms
proof (induction es arbitrary: q)
  case (Cons e es)
  obtain rs q' where st: "queue_step q e = (rs, q')" by (cases "queue_step q e")
  have q': "queue_wf q'" "q_maxRetries q' = q_maxRetries q"
    using queue_step_wf [OF Cons.prems, of e] st by auto
  have "reports_for i rs + attempts_left q' i
      \<le> attempts_left q i + (if offers i e then q_maxRetries q else 0)"
  proof (cases e)
    case (EvAdd cs)
    with st Cons.prems attempts_left_bounds(1) [OF Cons.prems, of i] show ?thesis
      by (auto simp: attempts_AddCommands offers_def queue_wfD less_imp_le)
  next
    case (EvProcess env)
    with st Cons.prems ProcessOne_attempts [OF Cons.prems] show ?thesis
      by (auto simp: offers_def split: prod.splits)
  next
    case EvConsume
    with st show ?thesis by (auto simp: attempts_Consume offers_def)
  qed
  with Cons.IH [OF q'(1)] q'(2) st show ?case
    by (auto simp: split_beta algebra_simps split: if_splits)
qed simp

definition failing_env :: "gotime \<Rightarrow> process_env" where
  "failing_env t = \<lparr>pe_now = (\<lambda>_. t), pe_jitter = 0, pe_cancelled = False,
     pe_execute = (\<lambda>c. (\<lparr>er_ExitCode = 1603, er_InstalledVersion = '''', er_DownloadDurationSec = 0,
        er_InstallDurationSec = 0, er_Message = ''''\<rparr>, Some (GoErr ''install failed''))),
     pe_failNow = t\<rparr>"

theorem queue_run_attempts_witness:
  "reports_for 4 (fst (queue_run sample_queue [EvProcess (failing_env 0), EvAdd [sample_command 4 1]])) \<le> 6"
proof -
  have left: "attempts_left sample_queue 4 = 3"
    by (simp add: sample_queue_def sample_command_def NewTaskQueue_def zero_Command_def gm_defs
        attempts_left_def failures_def)
  have max: "q_maxRetries sample_queue = 3"
    by (simp add: sample_queue_def NewTaskQueue_def)
  let ?es = "[EvProcess (failing_env 0), EvAdd [sample_command 4 1]]"
  have wf: "queue_wf (snd (queue_run sample_queue ?es))"
    by (rule queue_run_wf [OF queue_wf_sample])
  show ?thesis
    using queue_run_attempts [OF queue_wf_sample, of 4 ?es] left max
      attempts_left_bounds(1) [OF wf, of 4]
    by (simp add: offers_def sample_command_def)
qed

subsection \<open>The draining loop stops\<close>

text \<open>The attempts that all tasks of a set of identifiers have left.\<close>

definition attempts_budget :: "int set \<Rightarrow> TaskQueue \<Rightarrow> int" where
  "attempts_budget K q = (\<Sum>i\<in>K. attempts_left q i)"

definition task_ids :: "TaskQueue \<Rightarrow> int set" where
  "task_ids q = fst ` set (q_tasks q)"

lemma finite_task_ids [simp]: "finite (task_ids q)"
  by (simp add: task_ids_def)

lemma task_ids_iff: "i \<in> task_ids q \<longleftrightarrow> gm_get (q_tasks q) i \<noteq> None"
  using gm_get_None [of "q_tasks q" i] by (auto simp: task_ids_def)

lemma attempts_budget_nonneg: "queue_wf q \<Longrightarrow> 0 \<le> attempts_budget K q"
  unfolding attempts_budget_def by (intro sum_nonneg) (simp add: attempts_left_bounds)

lemma ProcessOne_task_ids:
  assumes "queue_wf q" and "ProcessOne env q = (True, rs, q')"
  shows "(\<exists>i r. i \<in> task_ids q \<and> rs = [(i, r)]) \<and> task_ids q' \<subseteq> task_ids q"
proof -
  have f: "task_ids (handleFailure now j q) \<subseteq> task_ids q" for now j
    by (auto simp: task_ids_iff handleFailure_def Let_def gm.get_del queue_wfD(1) [OF assms(1)]
        split: if_splits)
  have s: "task_ids (handleSuccess c q) \<subseteq> task_ids q" for c
    by (auto simp: task_ids_iff handleSuccess_def Let_def gm.get_del queue_wfD(1) [OF assms(1)]
        split: if_splits)
  show ?thesis
    using assms(1)
    by (cases rule: ProcessOne_cases [where env = env]) (use assms(2) f s in \<open>auto simp: task_ids_iff\<close>)
qed

lemma ProcessOne_budget:
  assumes "queue_wf q" and "ProcessOne env q = (True, rs, q')" and "finite K" and "task_ids q \<subseteq> K"
  shows "int (length rs) + attempts_budget K q' \<le> attempts_budget K q" and "length rs = 1"
    and "task_ids q' \<subseteq> K"
proof -
  obtain i r where i: "i \<in> task_ids q" and rs: "rs = [(i, r)]" and sub: "task_ids q' \<subseteq> task_ids q"
    using ProcessOne_task_ids [OF assms(1,2)] by blast
  from rs show "length rs = 1" by simp
  from sub assms(4) show "task_ids q' \<subseteq> K" by auto
  note step = ProcessOne_attempts [OF assms(1,2)]
  have le: "attempts_left q' j \<le> attempts_left q j" for j
    using step [of j] rs by (auto split: if_splits)
  have "attempts_left q' i \<le> attempts_left q i - 1"
    using step [of i] rs by simp
  moreover have "(\<Sum>j\<in>K - {i}. attempts_left q' j) \<le> (\<Sum>j\<in>K - {i}. attempts_left q j)"
    by (intro sum_mono le)
  moreover have "i \<in> K" using i assms(4) by auto
  ultimately have "attempts_budget K q' \<le> attempts_budget K q - 1"
    using assms(3) by (simp add: attempts_budget_def sum.remove [of K i])
  then show "int (length rs) + attempts_budget K q' \<le> attempts_budget K q" using rs by simp
qed

lemma processLoop_returns:
  assumes "queue_wf q" and "finite K" and "task_ids q \<subseteq> K"
  shows "\<exists>rs q'. processLoop env i q = Some (rs, q') \<and> queue_wf q' \<and>
    int (length rs) + attempts_budget K q' \<le> attempts_budget K q"
  using assms
proof (induction "nat (attempts_budget K q)" arbitrary: q i rule: less_induct)
  case less
  obtain b rs q' where p: "ProcessOne (env i) q = (b, rs, q')" by (cases "ProcessOne (env i) q")
  show ?case
  proof (cases b)
    case False
    have "rs = [] \<and> q' = q"
      using less.prems(1) by (cases rule: ProcessOne_cases [where env = "env i"]) (use p False in auto)
    with False p less.prems(1) show ?thesis by (subst processLoop.simps) simp
  next
    case True
    with p have p': "ProcessOne (env i) q = (True, rs, q')" by simp
    note step = ProcessOne_budget [OF less.prems(1) p' less.prems(2,3)]
    have wf': "queue_wf q'" using queue_wf_ProcessOne [OF less.prems(1) p] by simp
    from step(1,2) have "nat (attempts_budget K q') < nat (attempts_budget K q)"
      using attempts_budget_nonneg [OF wf', of K] by simp
    from less.hyps [OF this wf' less.prems(2) step(3), of "Suc i"]
    obtain rs' q'' where "processLoop env (Suc i) q' = Some (rs', q'')" and "queue_wf q''"
      and "int (length rs') + attempts_budget K q'' \<le> attempts_budget K q'" by blast
    with True p step(1) show ?thesis by (subst processLoop.simps) auto
  qed
qed

lemma attempts_budget_bound:
  assumes "queue_wf q"
  shows "attempts_budget (task_ids q) q \<le> q_maxRetries q * PendingCount q"
proof -
  have "attempts_budget (task_ids q) q \<le> (\<Sum>i\<in>task_ids q. q_maxRetries q)"
    unfolding attempts_budget_def using attempts_left_bounds(2) [OF assms] by (intro sum_mono) simp
  also have "\<dots> = q_maxRetries q * int (card (task_ids q))" by simp
  also have "card (task_ids q) = length (q_tasks q)"
    using queue_wfD(1) [OF assms] unfolding task_ids_def gm_wf_def
    by (metis distinct_card length_map set_map)
  finally show ?thesis by (simp add: PendingCount_def)
qed

text \<open>C9. The loop of \<open>processCommands\<close>, which the code bounds by nothing, always stops: for every
  behaviour of the clock, the jitter and the installers it returns after at most as many executions as
  the pending tasks, the new ones included, have attempts left (for each, \<open>maxRetries\<close> less the failures it
  already has), so at most \<open>maxRetries\<close> for each of them, and leaves a well-formed queue.\<close>

theorem processCommands_returns:
  assumes "queue_wf q" and "pending = AddCommands commands q"
  shows "\<exists>reports q'. processCommands env commands q = Some (reports, q') \<and> queue_wf q' \<and>
    int (length reports) \<le> (\<Sum>i \<in> task_ids pending. q_maxRetries q - failures pending i) \<and>
    (\<Sum>i \<in> task_ids pending. q_maxRetries q - failures pending i) \<le> q_maxRetries q * PendingCount pending"
proof -
  have q: "(if commands \<noteq> [] then AddCommands commands q else q) = pending" using assms(2) by simp
  have wf: "queue_wf pending" using assms by (simp add: queue_wf_AddCommands)
  obtain rs q' where r: "processLoop env 0 pending = Some (rs, q')" "queue_wf q'"
      "int (length rs) + attempts_budget (task_ids pending) q' \<le> attempts_budget (task_ids pending) pending"
    using processLoop_returns [OF wf, of "task_ids pending" env 0] by auto
  have "attempts_budget (task_ids pending) pending = (\<Sum>i \<in> task_ids pending. q_maxRetries q - failures pending i)"
    unfolding attempts_budget_def attempts_left_def using assms(2)
    by (intro sum.cong) (auto simp: task_ids_iff)
  with r show ?thesis
    using attempts_budget_bound [OF wf] attempts_budget_nonneg [OF r(2), of "task_ids pending"] assms(2)
    unfolding processCommands_def q by auto
qed

text \<open>A task that has failed once has two of its three attempts left.\<close>

theorem processCommands_returns_witness:
  "\<exists>reports q'. processCommands (\<lambda>i. failing_env (int i)) []
       (handleFailure 0 4 (AddCommands [sample_command 4 1] (NewTaskQueue 3))) = Some (reports, q') \<and>
     queue_wf q' \<and> int (length reports) \<le> 2"
proof -
  define q where "q = handleFailure 0 4 (AddCommands [sample_command 4 1] (NewTaskQueue 3))"
  have "gm_get (q_tasks (AddCommands [sample_command 4 1] (NewTaskQueue 3))) 4 \<noteq> None"
    by (simp add: NewTaskQueue_def sample_command_def zero_Command_def gm_defs)
  then have wf: "queue_wf q"
    unfolding q_def by (intro queue_wf_handleFailure queue_wf_AddCommands queue_wf_New)
  have "task_ids q = {4}" "failures q 4 = 1" "q_maxRetries q = 3"
    by (simp_all add: q_def handleFailure_def NewTaskQueue_def sample_command_def zero_Command_def gm_defs
        task_ids_def failures_def Let_def)
  with processCommands_returns [OF wf refl, of "\<lambda>i. failing_env (int i)" "[]"] show ?thesis
    unfolding q_def [symmetric] by auto
qed

subsection \<open>Back-off between attempts\<close>

lemma handleFailure_retry:
  assumes "queue_wf q" and "q_maxRetries q \<le> 1000000" and "failures q i + 1 < q_maxRetries q"
  shows "gm_get (q_retries (handleFailure now i q)) i =
      Some \<lparr>ri_Count = failures q i + 1, ri_NextRetryAt = now + (failures q i + 1) * 5 * dur_minute\<rparr>"
proof -
  have "0 \<le> failures q i" by (rule failures_bounds(1) [OF assms(1)])
  moreover have "ri_Count (case gm_get (q_retries q) i of
      None \<Rightarrow> \<lparr>ri_Count = 0, ri_NextRetryAt = 0\<rparr> | Some r \<Rightarrow> r) = failures q i"
    by (simp add: failures_def split: option.split)
  ultimately show ?thesis
    using assms
    by (simp add: handleFailure_def Let_def gm.get_put queue_wfD(2) time_Add_def
        wrap64_id int64_range_def dur_mul_minute)
qed

text \<open>C13. Back-off: after the \<open>k\<close>-th failed attempt of a task, it is dropped when \<open>k\<close> is
  \<open>maxRetries\<close>; otherwise it stays pending and no call of \<open>ProcessOne\<close> can run it before
  \<open>5 * k\<close> minutes have passed on the queue's clock.\<close>

theorem failed_task_backs_off:
  assumes "queue_wf q" and "q_maxRetries q \<le> 1000000"
    and "ProcessOne env q = (True, [(i, report)], q')" and "ts_Status report = ''failed''"
  shows "failures q i + 1 = q_maxRetries q \<and> gm_get (q_tasks q') i = None \<or>
    failures q' i = failures q i + 1 \<and> gm_get (q_tasks q') i = gm_get (q_tasks q) i \<and>
    (\<forall>now c. nextRunnable now q' = Some c \<and> cmd_TaskID c = i \<longrightarrow>
       pe_failNow env + (failures q i + 1) * 5 * dur_minute \<le> now i)"
proof -
  have q': "q' = handleFailure (pe_failNow env) i q" and pending: "gm_get (q_tasks q) i \<noteq> None"
    using assms(1)
    by (cases rule: ProcessOne_cases [where env = env];
        use assms(3,4) in \<open>auto simp: successReport_def\<close>)+
  have wf': "queue_wf q'" using q' queue_wf_handleFailure [OF assms(1) pending] by simp
  show ?thesis
  proof (cases "failures q i + 1 < q_maxRetries q")
    case False
    with failures_bounds(2) [OF assms(1), of i] have "failures q i + 1 = q_maxRetries q" by simp
    moreover from this have "attempts_left q' i = 0"
      using attempts_handleFailure [OF assms(1) pending] pending
      by (auto simp: q' attempts_left_def [of q] split: option.splits)
    ultimately show ?thesis using attempts_left_bounds(3) [OF wf', of i] by auto
  next
    case True
    note r = handleFailure_retry [OF assms(1,2) True, of "pe_failNow env", folded q']
    have "gm_get (q_tasks q') i = gm_get (q_tasks q) i"
      using True by (auto simp: q' handleFailure_def failures_def Let_def split: option.splits)
    moreover have "failures q' i = failures q i + 1" using r by (simp add: failures_def [of q'])
    moreover have "pe_failNow env + (failures q i + 1) * 5 * dur_minute \<le> now i"
      if "nextRunnable now q' = Some c" "cmd_TaskID c = i" for now c
      using that nextRunnable_cases [OF wf', of now] r by (auto simp: runnable_def)
    ultimately show ?thesis by blast
  qed
qed

theorem failed_task_backs_off_witness:
  "\<exists>q'. ProcessOne (failing_env 0) sample_queue =
       (True, [(4, failedReport (fst (pe_execute (failing_env 0) (sample_command 4 1))) (GoErr ''install failed''))], q') \<and>
     (\<forall>now. nextRunnable now q' = Some (sample_command 4 1) \<longrightarrow> 5 * dur_minute \<le> now 4)"
proof -
  let ?rep = "failedReport (fst (pe_execute (failing_env 0) (sample_command 4 1))) (GoErr ''install failed'')"
  obtain q' where p: "ProcessOne (failing_env 0) sample_queue = (True, [(4, ?rep)], q')"
    using nextRunnable_sample [of "pe_now (failing_env 0)"]
    by (simp add: ProcessOne_def failing_env_def sample_command_def)
  have max: "q_maxRetries sample_queue = 3" and f: "failures sample_queue 4 = 0"
    by (simp_all add: sample_queue_def sample_command_def NewTaskQueue_def zero_Command_def gm_defs failures_def)
  have st: "ts_Status ?rep = ''failed''" by (simp add: failedReport_def)
  have id: "cmd_TaskID (sample_command 4 1) = 4" by (simp add: sample_command_def)
  from max have le: "q_maxRetries sample_queue \<le> 1000000" by simp
  have "\<forall>now. nextRunnable now q' = Some (sample_command 4 1) \<longrightarrow> 5 * dur_minute \<le> now 4"
    using failed_task_backs_off [OF queue_wf_sample le p st] max f id
    by (fastforce simp: failing_env_def)
  with p show ?thesis by blast
qed

subsection \<open>The provider of installed applications\<close>

text \<open>
  The heartbeat sender knows the queue as an \<open>InstalledAppsProvider\<close>: something it can ask for the
  changed applications. The contract: without a change the answer is empty and nothing happens;
  with one, the answer lists everything installed, by increasing identifier, and the change is
  consumed, so that it is told once.
\<close>

definition app_entry :: "InstalledApp \<Rightarrow> int \<times> string" where
  "app_entry a = (app_AppID a, app_Version a)"

lemma inj_app_entry: "inj app_entry"
  by (auto intro!: injI InstalledApp.equality simp: app_entry_def)

locale apps_provider =
  fixes consume :: "'s \<Rightarrow> (bool \<times> InstalledApp list) \<times> 's"
    and contents :: "'s \<Rightarrow> int \<Rightarrow> string option"
    and inv :: "'s \<Rightarrow> bool"
  assumes consume_idle: "inv s \<Longrightarrow> \<not> fst (fst (consume s)) \<Longrightarrow> consume s = ((False, []), s)"
    and consume_list: "inv s \<Longrightarrow> fst (fst (consume s)) \<Longrightarrow>
      map_of (map app_entry (snd (fst (consume s)))) = contents s \<and>
      sorted_wrt (<) (map app_AppID (snd (fst (consume s))))"
    and consume_contents: "inv s \<Longrightarrow> contents (snd (consume s)) = contents s"
    and consume_inv: "inv s \<Longrightarrow> inv (snd (consume s))"
    and consume_once: "inv s \<Longrightarrow> \<not> fst (fst (consume (snd (consume s))))"
begin

lemma consume_twice: "inv s \<Longrightarrow> consume (snd (consume s)) = ((False, []), snd (consume s))"
  by (simp add: consume_idle consume_inv consume_once)

lemma consume_mem:
  assumes "inv s" and "fst (fst (consume s))"
  shows "a \<in> set (snd (fst (consume s))) \<longleftrightarrow> contents s (app_AppID a) = Some (app_Version a)"
proof -
  let ?as = "snd (fst (consume s))"
  note c = consume_list [OF assms]
  have d: "distinct (map fst (map app_entry ?as))"
    using conjunct2 [OF c] by (simp add: app_entry_def comp_def strict_sorted_iff)
  have "contents s (app_AppID a) = Some (app_Version a) \<longleftrightarrow> app_entry a \<in> set (map app_entry ?as)"
    unfolding app_entry_def [of a] conjunct1 [OF c, symmetric] by (rule map_of_eq_Some_iff [OF d])
  also have "\<dots> \<longleftrightarrow> a \<in> set ?as" by (simp add: inj_image_mem_iff [OF inj_app_entry])
  finally show ?thesis by simp
qed

end

lemma sorted_keys_distinct:
  "gm_wf m \<Longrightarrow> sorted_wrt (<) (sort (map fst m) :: int list)"
  by (simp add: gm_wf_def strict_sorted_iff)

lemma map_of_sorted_keys:
  fixes m :: "(int, 'v) gomap"
  assumes "gm_wf m"
  shows "map_of (map (\<lambda>i. (i, case gm_get m i of None \<Rightarrow> z | Some v \<Rightarrow> v)) (sort (map fst m))) = gm_get m"
proof
  fix i
  show "map_of (map (\<lambda>i. (i, case gm_get m i of None \<Rightarrow> z | Some v \<Rightarrow> v)) (sort (map fst m))) i = gm_get m i"
    using gm_get_None [of m i] by (cases "gm_get m i") (auto simp: map_of_map_restrict restrict_map_def)
qed

interpretation queue_apps: apps_provider ConsumeAppsChanged "\<lambda>q. gm_get (q_installed q)" queue_wf
proof unfold_locales
  fix q
  assume wf: "queue_wf q"
  show "gm_get (q_installed (snd (ConsumeAppsChanged q))) = gm_get (q_installed q)" by simp
  show "queue_wf (snd (ConsumeAppsChanged q))" using wf by (rule queue_wf_Consume)
  show "\<not> fst (fst (ConsumeAppsChanged (snd (ConsumeAppsChanged q))))"
    by (simp add: ConsumeAppsChanged_def Let_def)
  show "ConsumeAppsChanged q = ((False, []), q)" if "\<not> fst (fst (ConsumeAppsChanged q))"
    using that by (simp add: ConsumeAppsChanged_def Let_def split: if_splits)
  show "map_of (map app_entry (snd (fst (ConsumeAppsChanged q)))) = gm_get (q_installed q) \<and>
      sorted_wrt (<) (map app_AppID (snd (fst (ConsumeAppsChanged q))))"
    if "fst (fst (ConsumeAppsChanged q))"
    using that sorted_keys_distinct [OF queue_wfD(3) [OF wf]]
      map_of_sorted_keys [OF queue_wfD(3) [OF wf], of "''''"]
    by (simp add: ConsumeAppsChanged_def Let_def app_entry_def comp_def split: if_splits)
qed

lemma handleSuccess_installed:
  assumes "queue_wf q" and "0 < cmd_AppID c"
  shows "gm_get (q_installed (handleSuccess c q)) = (gm_get (q_installed q))
      (cmd_AppID c \<mapsto> (if cmd_AppVersion c = '''' then ''unknown'' else cmd_AppVersion c))"
    and "q_appsChanged (handleSuccess c q)"
  using assms by (simp_all add: handleSuccess_def Let_def gm.get_put queue_wfD(3))

text \<open>C14. A successful installation is announced once and in full: after the task of command \<open>c\<close>
  with an application identifier succeeds, the next \<open>ConsumeAppsChanged\<close> reports a change whose
  list is exactly the installed applications updated with \<open>c\<close> (version \<open>unknown\<close> when the command
  has none), strictly sorted by identifier, and the call after that reports none.\<close>

theorem installed_app_announced:
  assumes "queue_wf q" and "nextRunnable (pe_now env) q = Some c" and "0 < cmd_AppID c"
    and "ProcessOne env q = (True, [(i, report)], q')" and "ts_Status report = ''success''"
    and "ConsumeAppsChanged q' = ((changed, apps), q'')"
  shows "changed \<and> sorted_wrt (<) (map app_AppID apps) \<and>
    map_of (map app_entry apps) = (gm_get (q_installed q))
      (cmd_AppID c \<mapsto> (if cmd_AppVersion c = [] then ''unknown'' else cmd_AppVersion c)) \<and>
    ConsumeAppsChanged q'' = ((False, []), q'')"
proof -
  have q': "q' = handleSuccess c q"
    using assms(1)
    by (cases rule: ProcessOne_cases [where env = env];
        use assms(2,4,5) in \<open>auto simp: failedReport_def\<close>)
  have wf: "queue_wf q'" using assms(1) by (simp add: q' queue_wf_handleSuccess)
  have ch: "fst (fst (ConsumeAppsChanged q'))"
    using handleSuccess_installed(2) [OF assms(1,3)]
    by (simp add: q' ConsumeAppsChanged_def Let_def)
  show ?thesis
    using queue_apps.consume_list [OF wf ch] queue_apps.consume_twice [OF wf] ch
      handleSuccess_installed(1) [OF assms(1,3)] assms(6)
    by (simp add: q')
qed

definition working_env :: process_env where
  "working_env = (failing_env 0)\<lparr>pe_execute := (\<lambda>c. (\<lparr>er_ExitCode = 0, er_InstalledVersion = cmd_AppVersion c,
     er_DownloadDurationSec = 1, er_InstallDurationSec = 2, er_Message = ''''\<rparr>, None))\<rparr>"

theorem installed_app_announced_witness:
  "let (_, rs, q') = ProcessOne working_env sample_queue; ((changed, apps), _) = ConsumeAppsChanged q'
   in changed \<and> map_of (map app_entry apps) = [104 \<mapsto> ''unknown'']"
proof -
  let ?c = "sample_command 4 1"
  obtain r where p: "ProcessOne working_env sample_queue = (True, [(4, successReport r)], handleSuccess ?c sample_queue)"
    using nextRunnable_sample [of "pe_now working_env"]
    by (simp add: ProcessOne_def working_env_def sample_command_def)
  obtain ch apps q'' where c: "ConsumeAppsChanged (handleSuccess ?c sample_queue) = ((ch, apps), q'')"
    by (cases "ConsumeAppsChanged (handleSuccess ?c sample_queue)") auto
  have ids: "0 < cmd_AppID ?c" "cmd_AppID ?c = 104" "cmd_AppVersion ?c = ''''"
    by (simp_all add: sample_command_def zero_Command_def)
  have st: "ts_Status (successReport r) = ''success''" by (simp add: successReport_def)
  have none: "gm_get (q_installed sample_queue) = Map.empty"
    by (simp add: sample_queue_def NewTaskQueue_def sample_command_def gm_defs fun_eq_iff)
  note a = installed_app_announced [OF queue_wf_sample nextRunnable_sample ids(1) p st c]
  show ?thesis using p c a ids none by simp
qed

end
