(* ===== verification/Installer.thy ===== *)
theory Installer
  imports Go_OS
begin

section \<open>Installers (\<open>internal/installer\<close>)\<close>

text \<open>
  Which program is run for a package, with which arguments, and what its end means. Running a
  program is the parameter \<open>ie_run\<close> (time limit, program, arguments); \<open>ie_logPath\<close> is the name the
  MSI log gets and \<open>ie_log\<close> what is in the file afterwards (\<open>None\<close> when it cannot be opened).
\<close>

subsection \<open>Model\<close>

datatype cmd_result = CmdOK string | CmdExit int string | CmdError goerr

record inst_env =
  ie_windows :: bool
  ie_run :: "duration \<Rightarrow> string \<Rightarrow> string list \<Rightarrow> cmd_result"
  ie_logPath :: string
  ie_log :: "string option"

definition extra_args :: "string \<Rightarrow> string list" where
  "extra_args args = (if strings_TrimSpace args \<noteq> [] then strings_Fields args else [])"

text \<open>One line of the MSI log: the last product line and the last error line so far.\<close>

definition msi_log_line :: "string \<Rightarrow> string \<times> string \<Rightarrow> string \<times> string" where
  "msi_log_line raw st =
     (let line = strings_TrimSpace raw; (lastProductLine, lastErrorLine) = st in
      if line = [] then st
      else if strings_Contains line ''Product:'' \<and> strings_Contains line ''--'' then (line, lastErrorLine)
      else if strings_Contains (strings_ToLower line) ''error'' \<or> strings_Contains (strings_ToLower line) ''failed''
      then (lastProductLine, line)
      else st)"

definition summarizeMSILog :: "string option \<Rightarrow> string" where
  "summarizeMSILog log =
     (case log of
        None \<Rightarrow> []
      | Some text \<Rightarrow>
          let (lastProductLine, lastErrorLine) = fold msi_log_line (scan_lines text) ([], [])
          in if lastProductLine \<noteq> [] then lastProductLine else lastErrorLine)"

definition installMSI :: "inst_env \<Rightarrow> duration \<Rightarrow> string \<Rightarrow> string \<Rightarrow> int \<times> goerr option" where
  "installMSI env limit filePath args =
     (if \<not> ie_windows env then (-1, Some (GoErr ''msi installation is only supported on windows''))
      else
        case ie_run env limit ''msiexec'' ([''/i'', filePath] @ extra_args args @ [''/L*v'', ie_logPath env]) of
          CmdOK out \<Rightarrow> (0, None)
        | CmdExit code out \<Rightarrow>
            if code = 3010 \<or> code = 1641 then (code, None)
            else
              let detail = strings_TrimSpace out;
                  detail = (if detail = [] then summarizeMSILog (ie_log env) else detail);
                  detail = (if detail = [] then ''exit code '' @ strconv_Itoa code else detail)
              in (code, Some (GoErr (''msi install failed: '' @ detail)))
        | CmdError err \<Rightarrow> (-1, Some err))"

definition installEXE :: "inst_env \<Rightarrow> duration \<Rightarrow> string \<Rightarrow> string \<Rightarrow> int \<times> goerr option" where
  "installEXE env limit filePath args =
     (case ie_run env limit filePath (extra_args args) of
        CmdOK out \<Rightarrow> (0, None)
      | CmdExit code out \<Rightarrow> (code, Some (GoErr (''exe install failed: '' @ strings_TrimSpace out)))
      | CmdError err \<Rightarrow> (-1, Some err))"

definition installPowerShell :: "inst_env \<Rightarrow> duration \<Rightarrow> string \<Rightarrow> string \<Rightarrow> int \<times> goerr option" where
  "installPowerShell env limit filePath args =
     (if \<not> ie_windows env then (-1, Some (GoErr ''powershell installation is only supported on windows''))
      else
        case ie_run env limit ''powershell.exe''
            ([''-NoProfile'', ''-NonInteractive'', ''-ExecutionPolicy'', ''Bypass'', ''-File'', filePath] @ extra_args args) of
          CmdOK out \<Rightarrow> (0, None)
        | CmdExit code out \<Rightarrow> (code, Some (GoErr (''powershell install failed: '' @ strings_TrimSpace out)))
        | CmdError err \<Rightarrow> (-1, Some err))"

definition Install :: "inst_env \<Rightarrow> string \<Rightarrow> string \<Rightarrow> int \<Rightarrow> int \<times> goerr option" where
  "Install env filePath args timeoutSec =
     (let timeoutSec = (if timeoutSec \<le> 0 then 1800 else timeoutSec);
          limit = dur_mul timeoutSec dur_second;
          ext = strings_ToLower (filepath_Ext filePath)
      in if ext = ''.msi'' then installMSI env limit filePath args
         else if ext = ''.exe'' then installEXE env limit filePath args
         else if ext = ''.ps1'' then installPowerShell env limit filePath args
         else (-1, Some (GoErr (''unsupported installer type: '' @ filepath_Ext filePath))))"

subsection \<open>What they promise\<close>

text \<open>What is run for a package, or \<open>None\<close> when nothing is.\<close>

definition installer_command :: "inst_env \<Rightarrow> string \<Rightarrow> string \<Rightarrow> (string \<times> string list) option" where
  "installer_command env filePath args =
     (let ext = strings_ToLower (filepath_Ext filePath) in
      if ext = ''.exe'' then Some (filePath, extra_args args)
      else if \<not> ie_windows env then None
      else if ext = ''.msi'' then Some (''msiexec'', [''/i'', filePath] @ extra_args args @ [''/L*v'', ie_logPath env])
      else if ext = ''.ps1'' then Some (''powershell.exe'',
        [''-NoProfile'', ''-NonInteractive'', ''-ExecutionPolicy'', ''Bypass'', ''-File'', filePath] @ extra_args args)
      else None)"

text \<open>The exit codes that count as success: 0, and for an MSI also those that ask for a reboot.\<close>

fun success_code :: "bool \<Rightarrow> cmd_result \<Rightarrow> int option" where
  "success_code msi (CmdOK out) = Some 0"
| "success_code msi (CmdExit code out) = (if msi \<and> (code = 3010 \<or> code = 1641) then Some code else None)"
| "success_code msi (CmdError err) = None"

lemma extra_args_blank: "strings_TrimSpace args = [] \<Longrightarrow> extra_args args = []"
  by (simp add: extra_args_def)

lemma installMSI_success:
  "installMSI env l f a = (code, None) \<longleftrightarrow> ie_windows env \<and>
     success_code True (ie_run env l ''msiexec'' ([''/i'', f] @ extra_args a @ [''/L*v'', ie_logPath env])) = Some code"
  unfolding installMSI_def
  by (cases "ie_run env l ''msiexec'' ([''/i'', f] @ extra_args a @ [''/L*v'', ie_logPath env])")
    (auto simp: Let_def)

lemma installEXE_success:
  "installEXE env l f a = (code, None) \<longleftrightarrow> success_code False (ie_run env l f (extra_args a)) = Some code"
  unfolding installEXE_def by (cases "ie_run env l f (extra_args a)") auto

lemma installPowerShell_success:
  "installPowerShell env l f a = (code, None) \<longleftrightarrow> ie_windows env \<and>
     success_code False (ie_run env l ''powershell.exe''
       ([''-NoProfile'', ''-NonInteractive'', ''-ExecutionPolicy'', ''Bypass'', ''-File'', f] @ extra_args a)) = Some code"
  unfolding installPowerShell_def
  by (cases "ie_run env l ''powershell.exe''
      ([''-NoProfile'', ''-NonInteractive'', ''-ExecutionPolicy'', ''Bypass'', ''-File'', f] @ extra_args a)") auto

text \<open>An installation is reported as successful exactly when the one program for the file's type
  was run, within a positive time limit (30 minutes when none is given), and ended with exit code 0
  or, for an MSI package, with \<open>3010\<close> or \<open>1641\<close>; that code is the one reported. A file of another
  type, or an MSI package or script on another system than Windows, is never a success.\<close>

theorem Install_success:
  "Install env filePath args timeoutSec = (code, None) \<longleftrightarrow>
     (case installer_command env filePath args of
        None \<Rightarrow> False
      | Some (prog, pargs) \<Rightarrow>
          success_code (strings_ToLower (filepath_Ext filePath) = ''.msi'')
            (ie_run env (dur_mul (if timeoutSec \<le> 0 then 1800 else timeoutSec) dur_second) prog pargs) = Some code)"
  by (simp add: Install_def Let_def installer_command_def installMSI_success installEXE_success
      installPowerShell_success)

lemma Install_error_code:
  "Install env filePath args timeoutSec = (code, Some err) \<Longrightarrow>
     code = -1 \<or> (\<exists>prog pargs limit out. ie_run env limit prog pargs = CmdExit code out)"
  by (auto simp: Install_def Let_def installMSI_def installEXE_def installPowerShell_def split: if_splits cmd_result.splits)

end
