(* ===== verification/Hash.thy ===== *)
theory Hash
  imports Go_OS
begin

section \<open>File hashes (\<open>pkg/utils/hash.go\<close>)\<close>

text \<open>
  The digest is the parameter \<open>sha\<close>: the hexadecimal SHA-256 of the bytes, in lower case as
  \<open>%x\<close> prints it. Nothing is assumed of it.
\<close>

definition VerifyFileHash :: "(string \<Rightarrow> string) \<Rightarrow> fs_oracle \<Rightarrow> string \<Rightarrow> string \<Rightarrow> fs \<Rightarrow> goerr + bool" where
  "VerifyFileHash sha orc filePath expectedHash s =
     (let expected = strings_TrimPrefix (strings_ToLower expectedHash) ''sha256:''
      in case os_ReadFile orc filePath s of
           Inl err \<Rightarrow> Inl err
         | Inr d \<Rightarrow> Inr (sha d = expected))"

text \<open>What a caller may conclude: the bytes of the file have the digest named.\<close>

definition hash_matches :: "(string \<Rightarrow> string) \<Rightarrow> string \<Rightarrow> string \<Rightarrow> bool" where
  "hash_matches sha expectedHash d \<longleftrightarrow>
     sha d = strings_TrimPrefix (strings_ToLower expectedHash) ''sha256:''"

lemma VerifyFileHash_Inr:
  "VerifyFileHash sha orc p h s = Inr b \<longleftrightarrow>
     (\<exists>d. os_ReadFile orc p s = Inr d \<and> b = hash_matches sha h d)"
  by (auto simp: VerifyFileHash_def hash_matches_def split: sum.splits)

lemma VerifyFileHash_True:
  "VerifyFileHash sha orc p h s = Inr True \<Longrightarrow> \<exists>d. s p = Some d \<and> hash_matches sha h d"
  by (auto simp: VerifyFileHash_Inr dest: os_ReadFile_Inr)

lemma VerifyFileHash_no_faults:
  "s p = Some d \<Longrightarrow> VerifyFileHash sha no_faults p h s = Inr (hash_matches sha h d)"
  by (simp add: VerifyFileHash_Inr os_defs)

end
