(* ===== verification/Downloader.thy ===== *)
theory Downloader
  imports Go_OS "HOL-Library.Sublist"
begin

section \<open>Downloads (\<open>internal/downloader\<close>)\<close>

text \<open>
  A download resumes the file on disk with a range request and copies the body through a
  rate-limited reader. Parameters, in the record \<open>dl_env\<close>: the file system's oracle, the server,
  how reading splits the body into chunks, the \<open>WaitN\<close> of the rate limiter (by the number of the
  read, the burst and the bytes read) and the file name \<open>mime.ParseMediaType\<close> finds in a header.
\<close>

subsection \<open>Model\<close>

record DownloadResult =
  dr_BytesWritten :: int
  dr_Filename :: string

record dl_env =
  dl_orc :: fs_oracle
  dl_server :: transport
  dl_reads :: "string \<Rightarrow> string list"
  dl_waitN :: "nat \<Rightarrow> int \<Rightarrow> nat \<Rightarrow> goerr option"
  dl_media :: "string \<Rightarrow> string option"

text \<open>\<open>limitedReader.Read\<close>: a chunk the limiter does not let through is dropped for its error.\<close>

definition limitedRead :: "(nat \<Rightarrow> int \<Rightarrow> nat \<Rightarrow> goerr option) \<Rightarrow> int \<Rightarrow> nat \<Rightarrow> string \<Rightarrow> goerr + string" where
  "limitedRead waitN burst i chunk =
     (if length chunk > 0
      then case waitN i burst (length chunk) of Some waitErr \<Rightarrow> Inl waitErr | None \<Rightarrow> Inr chunk
      else Inr chunk)"

text \<open>
  \<open>io.Copy(out, lr)\<close>: read and write until the end of the body or the first error; returns what
  was written. \<open>room\<close> is how many more bytes the disk takes.
\<close>

fun io_Copy :: "(nat \<Rightarrow> string \<Rightarrow> goerr + string) \<Rightarrow> nat option \<Rightarrow> goerr option \<Rightarrow> nat \<Rightarrow> string list \<Rightarrow> string \<times> goerr option" where
  "io_Copy read room bodyErr i [] = ([], bodyErr)"
| "io_Copy read room bodyErr i (chunk # chunks) =
     (case read i chunk of
        Inl err \<Rightarrow> ([], Some err)
      | Inr c \<Rightarrow>
          (case room of
             None \<Rightarrow> (case io_Copy read None bodyErr (i + 1) chunks of (w, e) \<Rightarrow> (c @ w, e))
           | Some m \<Rightarrow>
               if m < length c then (take m c, Some io_error)
               else (case io_Copy read (Some (m - length c)) bodyErr (i + 1) chunks of (w, e) \<Rightarrow> (c @ w, e))))"

definition disk_room :: "io_fault \<Rightarrow> nat option" where
  "disk_room f = (case f of NoFault \<Rightarrow> None | Fault \<Rightarrow> Some 0 | FaultAfter n \<Rightarrow> Some n)"

definition extractFilename :: "(string \<Rightarrow> string option) \<Rightarrow> string \<Rightarrow> string \<Rightarrow> string" where
  "extractFilename media contentDisposition fallbackPath =
     (case (if contentDisposition = [] then None else media contentDisposition) of
        Some name \<Rightarrow> if strings_TrimSpace name \<noteq> [] then strings_TrimSpace name else filepath_Base fallbackPath
      | None \<Rightarrow> filepath_Base fallbackPath)"

definition resume_offset :: "fs_oracle \<Rightarrow> string \<Rightarrow> fs \<Rightarrow> nat" where
  "resume_offset orc destPath s =
     (if os_Stat orc destPath s = None then (case s destPath of Some d \<Rightarrow> length d | None \<Rightarrow> 0) else 0)"

definition download_request :: "string \<Rightarrow> nat \<Rightarrow> string \<Rightarrow> string \<Rightarrow> http_request" where
  "download_request url offset agentUUID secretKey = \<lparr>rq_Method = ''GET'', rq_URL = url,
     rq_Header = [(''X-Agent-UUID'', agentUUID), (''X-Agent-Secret'', secretKey)] @
       (if offset > 0 then [(''Range'', ''bytes='' @ strconv_Itoa (int offset) @ ''-'')] else []),
     rq_Body = []\<rparr>"

text \<open>The second half of \<open>DownloadFileWithMeta\<close>: open the file, to append or truncated, and copy.\<close>

definition saveBody ::
    "dl_env \<Rightarrow> http_response \<Rightarrow> nat \<Rightarrow> string \<Rightarrow> int \<Rightarrow> fs \<Rightarrow> (goerr + DownloadResult) \<times> fs" where
  "saveBody env resp offset destPath limitKBps s =
     (if dl_orc env (FOpen destPath) \<noteq> NoFault then (Inl io_error, s)
      else
        let old = (if offset > 0 \<and> rs_StatusCode resp = 206
                   then (case s destPath of Some d \<Rightarrow> d | None \<Rightarrow> []) else []);
            burst = limitKBps * 1024;
            (w, e) = io_Copy (limitedRead (dl_waitN env) burst) (disk_room (dl_orc env (FWrite destPath)))
                       (rs_BodyErr resp) 0 (dl_reads env (rs_Body resp));
            s' = s(destPath \<mapsto> old @ w)
        in case e of
             Some err \<Rightarrow> (Inl err, s')
           | None \<Rightarrow> (Inr \<lparr>dr_BytesWritten = int (length w),
               dr_Filename = extractFilename (dl_media env)
                 (header_Get (rs_Header resp) ''Content-Disposition'') destPath\<rparr>, s'))"

definition DownloadFileWithMeta ::
    "dl_env \<Rightarrow> string \<Rightarrow> string \<Rightarrow> int \<Rightarrow> string \<Rightarrow> string \<Rightarrow> fs \<Rightarrow> (goerr + DownloadResult) \<times> fs" where
  "DownloadFileWithMeta env url destPath limitKBps agentUUID secretKey s =
     (if limitKBps \<le> 0 then (Inl (GoErr (''invalid bandwidth limit: '' @ strconv_Itoa limitKBps)), s)
      else
        let offset = resume_offset (dl_orc env) destPath s
        in case dl_server env (download_request url offset agentUUID secretKey) of
             Inl err \<Rightarrow> (Inl err, s)
           | Inr resp \<Rightarrow>
               if rs_StatusCode resp \<noteq> 200 \<and> rs_StatusCode resp \<noteq> 206
               then (Inl (GoErr (''download request failed: '' @ rs_Status resp)), s)
               else saveBody env resp offset destPath limitKBps s)"

definition DownloadFile ::
    "dl_env \<Rightarrow> string \<Rightarrow> string \<Rightarrow> int \<Rightarrow> string \<Rightarrow> string \<Rightarrow> fs \<Rightarrow> (goerr + int) \<times> fs" where
  "DownloadFile env url destPath limitKBps agentUUID secretKey s =
     (case DownloadFileWithMeta env url destPath limitKBps agentUUID secretKey s of
        (Inl err, s') \<Rightarrow> (Inl err, s') | (Inr res, s') \<Rightarrow> (Inr (dr_BytesWritten res), s'))"

subsection \<open>The copy loop\<close>

lemma limitedRead_Inr: "limitedRead waitN burst i c = Inr d \<Longrightarrow> d = c"
  by (auto simp: limitedRead_def split: if_splits option.splits)

lemma io_Copy_prefix:
  assumes "\<And>i c d. read i c = Inr d \<Longrightarrow> d = c"
  shows "prefix (fst (io_Copy read room be i cs)) (concat cs)"
proof (induction cs arbitrary: room i)
  case (Cons c cs)
  show ?case
  proof (cases "read i c")
    case (Inr d)
    then have "d = c" using assms by blast
    with Inr Cons.IH [of None "i + 1"] Cons.IH [of "Some (m - length c)" "i + 1" for m] show ?thesis
      by (auto simp: split_def take_is_prefix prefix_prefix split: option.split)
  qed simp
qed simp

lemma io_Copy_complete:
  assumes "\<And>i c d. read i c = Inr d \<Longrightarrow> d = c"
    and "io_Copy read room be i cs = (w, None)"
  shows "w = concat cs \<and> be = None"
  using assms(2)
proof (induction cs arbitrary: room i w)
  case (Cons c cs)
  from Cons.prems obtain room' w' where "read i c = Inr c" and "w = c @ w'"
    and "io_Copy read room' be (i + 1) cs = (w', None)"
    by (auto split: sum.splits option.splits prod.splits if_splits dest: assms(1))
  with Cons.IH show ?case by simp
qed simp

lemma limited_prefix: "prefix (fst (io_Copy (limitedRead waitN burst) room be i cs)) (concat cs)"
  by (rule io_Copy_prefix) (rule limitedRead_Inr)

lemma limited_complete:
  "io_Copy (limitedRead waitN burst) room be i cs = (w, None) \<Longrightarrow> w = concat cs"
  "io_Copy (limitedRead waitN burst) room be i cs = (w, None) \<Longrightarrow> be = None"
  using io_Copy_complete [of "limitedRead waitN burst" room be i cs w] limitedRead_Inr by blast+

lemma io_Copy_stops:
  assumes "c \<in> set cs" and "\<And>j. \<exists>e. read j c = Inl e"
  shows "snd (io_Copy read room be i cs) \<noteq> None"
  using assms(1)
proof (induction cs arbitrary: room i)
  case (Cons d cs)
  show ?case
  proof (cases "c = d")
    case True
    then show ?thesis using assms(2) [of i] by auto
  next
    case False
    with Cons have "snd (io_Copy read r be (i + 1) cs) \<noteq> None" for r by simp
    then show ?thesis by (auto split: sum.split option.split prod.split) (metis snd_conv)+
  qed
qed simp

subsection \<open>Downloading a file piece by piece\<close>

text \<open>
  An origin server for \<open>content\<close>: without a range it answers with the whole content (or an error
  status), to a range request with the whole content (200), the rest of it (206), or an error;
  a body that is cut short is reported by the transport.
\<close>

definition serves :: "string \<Rightarrow> transport \<Rightarrow> bool" where
  "serves content server \<longleftrightarrow>
     (\<forall>req resp. server req = Inr resp \<longrightarrow>
        (rs_StatusCode resp = 200 \<longrightarrow>
           prefix (rs_Body resp) content \<and> (rs_BodyErr resp = None \<longrightarrow> rs_Body resp = content)) \<and>
        (rs_StatusCode resp = 206 \<longrightarrow>
           (\<exists>n. header_Get (rq_Header req) ''Range'' = ''bytes='' @ strconv_Itoa (int n) @ ''-'' \<and>
              prefix (rs_Body resp) (drop n content) \<and>
              (rs_BodyErr resp = None \<longrightarrow> rs_Body resp = drop n content))))"

text \<open>Reads deliver the body in order, in non-empty pieces of at most the 32 KiB of \<open>io.Copy\<close>.\<close>

definition reads_ok :: "(string \<Rightarrow> string list) \<Rightarrow> bool" where
  "reads_ok reads \<longleftrightarrow> (\<forall>b. concat (reads b) = b \<and> (\<forall>c \<in> set (reads b). c \<noteq> [] \<and> length c \<le> 32768))"

text \<open>What \<open>rate.Limiter.WaitN\<close> documents: more than the burst at once is an error.\<close>

definition limiter_ok :: "(nat \<Rightarrow> int \<Rightarrow> nat \<Rightarrow> goerr option) \<Rightarrow> bool" where
  "limiter_ok waitN \<longleftrightarrow> (\<forall>i burst n. burst < int n \<longrightarrow> waitN i burst n \<noteq> None)"

definition partial_of :: "string \<Rightarrow> string option \<Rightarrow> bool" where
  "partial_of content d \<longleftrightarrow> (case d of None \<Rightarrow> True | Some w \<Rightarrow> prefix w content)"

lemma Range_header:
  "header_Get (rq_Header (download_request url n u k)) ''Range'' =
     (if n > 0 then ''bytes='' @ strconv_Itoa (int n) @ ''-'' else [])"
  by (simp add: download_request_def header_Get_def)

definition saved_prefix :: "http_response \<Rightarrow> nat \<Rightarrow> string option \<Rightarrow> string" where
  "saved_prefix resp offset d =
     (if offset > 0 \<and> rs_StatusCode resp = 206 then (case d of Some d \<Rightarrow> d | None \<Rightarrow> []) else [])"

lemma Range_header_inj:
  assumes "header_Get (rq_Header (download_request url n u k)) ''Range'' = ''bytes='' @ strconv_Itoa (int m) @ ''-''"
  shows "0 < n \<and> m = n"
proof (cases "0 < n")
  case True
  with assms have "strconv_Itoa (int n) = strconv_Itoa (int m)" by (simp add: Range_header)
  with True show ?thesis by (simp only: strconv_Itoa_nat_inj)
next
  case False
  with assms show ?thesis by (simp add: Range_header)
qed

lemma saveBody_cases:
  obtains (closed) "saveBody env resp n p limit s = (Inl io_error, s)"
  | (broken) w err where "prefix w (concat (dl_reads env (rs_Body resp)))"
      "saveBody env resp n p limit s = (Inl err, s(p \<mapsto> saved_prefix resp n (s p) @ w))"
  | (saved) r where "rs_BodyErr resp = None"
      "dr_BytesWritten r = int (length (concat (dl_reads env (rs_Body resp))))"
      "saveBody env resp n p limit s =
         (Inr r, s(p \<mapsto> saved_prefix resp n (s p) @ concat (dl_reads env (rs_Body resp))))"
proof -
  let ?read = "limitedRead (dl_waitN env) (limit * 1024)"
  let ?room = "disk_room (dl_orc env (FWrite p))"
  let ?cs = "dl_reads env (rs_Body resp)"
  obtain w e where io: "io_Copy ?read ?room (rs_BodyErr resp) 0 ?cs = (w, e)" by fastforce
  have body: "saveBody env resp n p limit s =
      (if dl_orc env (FOpen p) \<noteq> NoFault then (Inl io_error, s)
       else case e of Some err \<Rightarrow> (Inl err, s(p \<mapsto> saved_prefix resp n (s p) @ w))
       | None \<Rightarrow> (Inr \<lparr>dr_BytesWritten = int (length w), dr_Filename = extractFilename (dl_media env)
           (header_Get (rs_Header resp) ''Content-Disposition'') p\<rparr>, s(p \<mapsto> saved_prefix resp n (s p) @ w)))"
    unfolding saveBody_def saved_prefix_def Let_def io prod.case by (simp cong: if_cong)
  show thesis
  proof (cases "dl_orc env (FOpen p) = NoFault")
    case False
    with body show thesis by (simp add: closed)
  next
    case True
    show thesis
    proof (cases e)
      case None
      with io limited_complete have "w = concat ?cs" "rs_BodyErr resp = None" by blast+
      with True None body show thesis by (intro saved) simp_all
    next
      case (Some err)
      have "prefix w (concat ?cs)"
        using limited_prefix [of "dl_waitN env" "limit * 1024" ?room "rs_BodyErr resp" 0 ?cs] io by simp
      with True Some body show thesis by (simp add: broken)
    qed
  qed
qed

lemma DownloadFileWithMeta_cases:
  obtains (refused) err where "DownloadFileWithMeta env url p limit u k s = (Inl err, s)"
  | (answered) resp where "0 < limit"
      "dl_server env (download_request url (resume_offset (dl_orc env) p s) u k) = Inr resp"
      "rs_StatusCode resp = 200 \<or> rs_StatusCode resp = 206"
      "DownloadFileWithMeta env url p limit u k s =
         saveBody env resp (resume_offset (dl_orc env) p s) p limit s"
proof (cases "limit \<le> 0")
  case True
  then show thesis by (simp add: DownloadFileWithMeta_def refused)
next
  case False
  show thesis
  proof (cases "dl_server env (download_request url (resume_offset (dl_orc env) p s) u k)")
    case (Inl err)
    with False show thesis by (simp add: DownloadFileWithMeta_def Let_def refused)
  next
    case (Inr resp)
    with False show thesis
      by (cases "rs_StatusCode resp = 200 \<or> rs_StatusCode resp = 206")
        (auto simp: DownloadFileWithMeta_def Let_def refused answered)
  qed
qed

lemma DownloadFileWithMeta_frame: "q \<noteq> p \<Longrightarrow> snd (DownloadFileWithMeta env url p limit u k s) q = s q"
proof (cases rule: DownloadFileWithMeta_cases [of env url p limit u k s])
  case (answered resp)
  assume "q \<noteq> p"
  with answered(4) show ?thesis
    by (cases rule: saveBody_cases [of env resp "resume_offset (dl_orc env) p s" p limit s]) simp_all
qed simp

lemma resume_offset_pos: "0 < resume_offset orc p s \<Longrightarrow> \<exists>d. s p = Some d \<and> length d = resume_offset orc p s"
  by (auto simp: resume_offset_def split: if_splits option.splits)

text \<open>What an answer of the origin server adds to the part already there.\<close>

lemma served_extends:
  assumes "serves content server" and "server (download_request url n u k) = Inr resp"
    and "rs_StatusCode resp = 200 \<or> rs_StatusCode resp = 206"
    and "n = resume_offset orc p s" and "partial_of content (s p)"
  shows "prefix w (rs_Body resp) \<Longrightarrow> prefix (saved_prefix resp n (s p) @ w) content"
    and "rs_BodyErr resp = None \<Longrightarrow> saved_prefix resp n (s p) @ rs_Body resp = content"
proof -
  note sv = assms(1) [unfolded serves_def, rule_format, OF assms(2)]
  have "\<exists>d. prefix d content \<and> d = saved_prefix resp n (s p) \<and> prefix (rs_Body resp) (drop (length d) content) \<and>
      (rs_BodyErr resp = None \<longrightarrow> rs_Body resp = drop (length d) content)"
  proof (cases "rs_StatusCode resp = 206")
    case False
    with assms(3) sv show ?thesis by (simp add: saved_prefix_def)
  next
    case True
    from mp [OF conjunct2 [OF sv] True] obtain m where
      m: "header_Get (rq_Header (download_request url n u k)) ''Range'' = ''bytes='' @ strconv_Itoa (int m) @ ''-'' \<and>
        prefix (rs_Body resp) (drop m content) \<and> (rs_BodyErr resp = None \<longrightarrow> rs_Body resp = drop m content)" ..
    note n = Range_header_inj [OF conjunct1 [OF m]] and r = conjunct2 [OF m]
    then obtain d where "s p = Some d" "length d = n" using resume_offset_pos [of orc p s] assms(4) by auto
    with True n r assms(5) show ?thesis
      by (intro exI [of _ d]) (simp add: saved_prefix_def partial_of_def)
  qed
  then obtain d where dd: "prefix d content \<and> d = saved_prefix resp n (s p) \<and>
      prefix (rs_Body resp) (drop (length d) content) \<and>
      (rs_BodyErr resp = None \<longrightarrow> rs_Body resp = drop (length d) content)" ..
  note d = conjunct1 [OF dd] conjunct1 [OF conjunct2 [OF dd]] conjunct2 [OF conjunct2 [OF dd]]
  from d(1) obtain z where z: "content = d @ z" by (auto simp: prefix_def)
  show "prefix (saved_prefix resp n (s p) @ w) content" if "prefix w (rs_Body resp)"
    using that d z by (auto intro: prefix_order.trans)
  show "saved_prefix resp n (s p) @ rs_Body resp = content" if "rs_BodyErr resp = None"
    using that d z by simp
qed

text \<open>C26. Resumable downloads: from a server of \<open>content\<close>, whatever fails on the way (the server, the
  body, the limiter, the disk), a file that was absent or a prefix of \<open>content\<close> still is one
  afterwards, so that the next attempt may resume it, every other file is untouched, and an attempt
  that reports success leaves exactly \<open>content\<close>.\<close>

theorem download_resumable:
  assumes "serves content (dl_server env)" and "reads_ok (dl_reads env)"
    and "partial_of content (s p)"
    and "DownloadFileWithMeta env url p limit u k s = (r, s')"
  shows "partial_of content (s' p) \<and> (\<forall>q. q \<noteq> p \<longrightarrow> s' q = s q) \<and> (\<not> isl r \<longrightarrow> s' p = Some content)"
proof -
  have "\<forall>q. q \<noteq> p \<longrightarrow> s' q = s q"
    using DownloadFileWithMeta_frame [of _ p env url limit u k s] assms(4) by auto
  moreover have "partial_of content (s' p) \<and> (\<not> isl r \<longrightarrow> s' p = Some content)"
  proof (cases rule: DownloadFileWithMeta_cases [of env url p limit u k s])
    case (refused err)
    with assms(3,4) show ?thesis by auto
  next
    case (answered resp)
    note ext = served_extends [OF assms(1) answered(2,3) refl assms(3)]
    have c: "concat (dl_reads env (rs_Body resp)) = rs_Body resp" using assms(2) by (simp add: reads_ok_def)
    show ?thesis
      by (cases rule: saveBody_cases [of env resp "resume_offset (dl_orc env) p s" p limit s])
        (use assms(3,4) answered(4) ext c in \<open>auto simp: partial_of_def\<close>)
  qed
  ultimately show ?thesis by blast
qed

subsection \<open>An example, and two ways a download cannot succeed\<close>

text \<open>A server of \<open>abcde\<close> that understands ranges, and a transfer without faults.\<close>

definition range_server :: "string \<Rightarrow> transport" where
  "range_server content req =
     (case find (\<lambda>n. header_Get (rq_Header req) ''Range'' = ''bytes='' @ strconv_Itoa (int n) @ ''-'') [0..<length content + 1] of
        None \<Rightarrow> Inr \<lparr>rs_StatusCode = 200, rs_Status = ''200 OK'', rs_Header = [], rs_Body = content, rs_BodyErr = None\<rparr>
      | Some n \<Rightarrow>
          if n < length content
          then Inr \<lparr>rs_StatusCode = 206, rs_Status = ''206 Partial Content'', rs_Header = [],
                 rs_Body = drop n content, rs_BodyErr = None\<rparr>
          else Inr \<lparr>rs_StatusCode = 416, rs_Status = ''416 Range Not Satisfiable'', rs_Header = [],
                 rs_Body = [], rs_BodyErr = None\<rparr>)"

fun read_chunks :: "nat \<Rightarrow> string \<Rightarrow> string list" where
  "read_chunks n [] = []"
| "read_chunks 0 (c # s) = []"
| "read_chunks (Suc n) s = take 32768 s # read_chunks n (drop 32768 s)"

definition sample_reads :: "string \<Rightarrow> string list" where
  "sample_reads b = read_chunks (length b) b"

definition sample_waitN :: "nat \<Rightarrow> int \<Rightarrow> nat \<Rightarrow> goerr option" where
  "sample_waitN i burst n = (if burst < int n then Some (GoErr ''rate: Wait exceeds limiter's burst'') else None)"

definition sample_dl :: "string \<Rightarrow> dl_env" where
  "sample_dl content = \<lparr>dl_orc = no_faults, dl_server = range_server content, dl_reads = sample_reads,
     dl_waitN = sample_waitN, dl_media = (\<lambda>_. None)\<rparr>"

lemma read_chunks_ok:
  "length s \<le> n \<Longrightarrow> concat (read_chunks n s) = s \<and> (\<forall>c \<in> set (read_chunks n s). c \<noteq> [] \<and> length c \<le> 32768)"
proof (induction n arbitrary: s)
  case (Suc n)
  show ?case
  proof (cases s)
    case (Cons c t)
    with Suc.prems have "length (drop 32768 s) \<le> n" by simp
    from Suc.IH [OF this] Cons show ?thesis by auto
  qed simp
qed simp

lemma reads_ok_sample: "reads_ok sample_reads"
  using read_chunks_ok [OF order_refl] by (simp add: reads_ok_def sample_reads_def)

lemma find_Some: "find P xs = Some x \<Longrightarrow> P x"
  by (induction xs) (auto split: if_splits)

lemma find_unique:
  assumes "P x" and "x \<in> set xs" and "\<And>y. P y \<Longrightarrow> y = x"
  shows "find P xs = Some x"
  using assms(2)
proof (induction xs)
  case (Cons a xs)
  with assms(1) assms(3) [of a] show ?case by (cases "P a") auto
qed simp

lemma range_server_download:
  assumes "0 < n" and "n \<le> length content"
  shows "range_server content (download_request url n u k) =
    (if n < length content
     then Inr \<lparr>rs_StatusCode = 206, rs_Status = ''206 Partial Content'', rs_Header = [],
            rs_Body = drop n content, rs_BodyErr = None\<rparr>
     else Inr \<lparr>rs_StatusCode = 416, rs_Status = ''416 Range Not Satisfiable'', rs_Header = [],
            rs_Body = [], rs_BodyErr = None\<rparr>)"
proof -
  let ?P = "\<lambda>m. header_Get (rq_Header (download_request url n u k)) ''Range'' = ''bytes='' @ strconv_Itoa (int m) @ ''-''"
  have "?P n" using assms(1) by (simp add: Range_header)
  then have "find ?P [0..<length content + 1] = Some n"
    using assms(2) by (rule_tac find_unique) (auto dest: Range_header_inj simp: strconv_Itoa_nat_inj)
  then show ?thesis by (simp only: range_server_def option.case)
qed

lemma serves_range_server: "serves content (range_server content)"
  unfolding serves_def
proof (intro allI impI)
  fix req resp
  assume srv: "range_server content req = Inr resp"
  let ?P = "\<lambda>n. header_Get (rq_Header req) ''Range'' = ''bytes='' @ strconv_Itoa (int n) @ ''-''"
  show "(rs_StatusCode resp = 200 \<longrightarrow>
           prefix (rs_Body resp) content \<and> (rs_BodyErr resp = None \<longrightarrow> rs_Body resp = content)) \<and>
        (rs_StatusCode resp = 206 \<longrightarrow>
           (\<exists>n. ?P n \<and> prefix (rs_Body resp) (drop n content) \<and>
              (rs_BodyErr resp = None \<longrightarrow> rs_Body resp = drop n content)))"
  proof (cases "find ?P [0..<length content + 1]")
    case None
    then show ?thesis using srv by (auto simp only: range_server_def option.case) auto
  next
    case (Some n)
    then show ?thesis
      using srv find_Some [OF Some] unfolding range_server_def Some option.case
      by (cases "n < length content") (auto intro!: exI [of _ n])
  qed
qed

lemma sample_reads_small: "s \<noteq> [] \<Longrightarrow> length s \<le> 32768 \<Longrightarrow> sample_reads s = [s]"
  by (cases s) (auto simp: sample_reads_def)

theorem download_resumable_witness:
  "\<exists>r. DownloadFileWithMeta (sample_dl ''abcde'') ''http://s/f'' ''f'' 1024 ''u'' ''k'' [''f'' \<mapsto> ''ab''] =
       (Inr r, [''f'' \<mapsto> ''abcde'']) \<and> dr_BytesWritten r = 3"
proof -
  let ?env = "sample_dl ''abcde''" and ?s = "[''f'' \<mapsto> ''ab''] :: fs"
  obtain r s' where d: "DownloadFileWithMeta ?env ''http://s/f'' ''f'' 1024 ''u'' ''k'' ?s = (r, s')"
    by fastforce
  have ok: "serves ''abcde'' (dl_server ?env)" "reads_ok (dl_reads ?env)" "partial_of ''abcde'' (?s ''f'')"
    by (simp_all add: sample_dl_def serves_range_server reads_ok_sample partial_of_def)
  note res = download_resumable [OF ok d]
  have off: "resume_offset (dl_orc ?env) ''f'' ?s = 2"
    by (simp add: resume_offset_def os_defs sample_dl_def)
  have srv: "dl_server ?env (download_request ''http://s/f'' 2 ''u'' ''k'') =
      Inr \<lparr>rs_StatusCode = 206, rs_Status = ''206 Partial Content'', rs_Header = [], rs_Body = ''cde'', rs_BodyErr = None\<rparr>"
    using range_server_download [of 2 "''abcde''"] by (simp add: sample_dl_def)
  have "\<exists>r'. r = Inr r' \<and> dr_BytesWritten r' = 3"
    using d unfolding DownloadFileWithMeta_def off Let_def srv
    by (auto simp: saveBody_def Let_def sample_dl_def no_faults_def disk_room_def sample_reads_small limitedRead_def
        sample_waitN_def)
  with res have "s' ''f'' = Some ''abcde''" "\<forall>q. q \<noteq> ''f'' \<longrightarrow> s' q = None" by auto
  then have "s' = [''f'' \<mapsto> ''abcde'']" by (auto simp: fun_eq_iff)
  with d \<open>\<exists>r'. r = Inr r' \<and> dr_BytesWritten r' = 3\<close> show ?thesis by auto
qed

text \<open>C27. A bandwidth limit below the size of one read cannot work: \<open>Validate\<close> accepts any positive
  limit, but a read that returns more than \<open>limitKBps * 1024\<close> bytes exceeds the burst of the
  limiter, so the download fails (with 32 KiB reads: every limit below 32 on a body of that size).\<close>

theorem slow_limit_fails:
  assumes "limiter_ok (dl_waitN env)"
    and "dl_server env (download_request url (resume_offset (dl_orc env) p s) u k) = Inr resp"
    and c: "c \<in> set (dl_reads env (rs_Body resp))" "limit * 1024 < int (length c)"
  shows "isl (fst (DownloadFileWithMeta env url p limit u k s))"
proof (cases rule: DownloadFileWithMeta_cases [of env url p limit u k s])
  case (answered resp')
  with assms(2) have resp: "resp' = resp" by simp
  let ?read = "limitedRead (dl_waitN env) (limit * 1024)"
  have "\<exists>e. ?read j c = Inl e" for j
    using assms(1) c(2) answered(1) by (cases c) (auto simp: limitedRead_def limiter_ok_def split: option.split)
  then have "snd (io_Copy ?read (disk_room (dl_orc env (FWrite p))) (rs_BodyErr resp) 0 (dl_reads env (rs_Body resp))) \<noteq> None"
    using io_Copy_stops [OF c(1)] by blast
  then obtain err where
    "snd (io_Copy ?read (disk_room (dl_orc env (FWrite p))) (rs_BodyErr resp) 0 (dl_reads env (rs_Body resp))) = Some err"
    by blast
  with answered(4) resp show ?thesis by (simp add: saveBody_def Let_def split_def)
qed simp

lemma range_server_start:
  "range_server content (download_request url 0 u k) =
     Inr \<lparr>rs_StatusCode = 200, rs_Status = ''200 OK'', rs_Header = [], rs_Body = content, rs_BodyErr = None\<rparr>"
proof -
  have "find (\<lambda>m. header_Get (rq_Header (download_request url 0 u k)) ''Range'' =
      ''bytes='' @ strconv_Itoa (int m) @ ''-'') [0..<length content + 1] = None"
    by (simp add: find_None_iff Range_header)
  then show ?thesis by (simp only: range_server_def option.case)
qed

lemma sample_reads_first: "b \<noteq> [] \<Longrightarrow> take 32768 b \<in> set (sample_reads b)"
  by (cases b) (simp_all add: sample_reads_def)

lemma sample_reads_single: "b \<noteq> [] \<Longrightarrow> length b \<le> 32768 \<Longrightarrow> sample_reads b = [b]"
proof -
  assume "b \<noteq> []" and "length b \<le> 32768"
  then obtain n where n: "length b = Suc n" and "take 32768 b = b" and "drop 32768 b = []"
    by (cases b) auto
  moreover have "read_chunks (Suc n) b = take 32768 b # read_chunks n (drop 32768 b)"
    using \<open>b \<noteq> []\<close> by (cases b) simp_all
  ultimately show ?thesis by (simp only: sample_reads_def n read_chunks.simps(1))
qed

theorem slow_limit_fails_witness:
  "isl (fst (DownloadFileWithMeta (sample_dl (replicate 32768 CHR ''x'')) ''http://s/f'' ''f'' 16 ''u'' ''k'' Map.empty))"
proof -
  let ?b = "replicate 32768 CHR ''x''"
  have lim: "limiter_ok (dl_waitN (sample_dl ?b))"
    by (simp add: sample_dl_def limiter_ok_def sample_waitN_def)
  have "resume_offset (dl_orc (sample_dl ?b)) ''f'' Map.empty = 0" by (simp add: resume_offset_def)
  then have srv: "dl_server (sample_dl ?b) (download_request ''http://s/f'' (resume_offset (dl_orc (sample_dl ?b)) ''f'' Map.empty) ''u'' ''k'') =
      Inr \<lparr>rs_StatusCode = 200, rs_Status = ''200 OK'', rs_Header = [], rs_Body = ?b, rs_BodyErr = None\<rparr>"
    using range_server_start by (simp add: sample_dl_def)
  have "?b \<noteq> []" by (simp only: replicate_empty numeral_eq_Suc)
  then have c: "take 32768 ?b \<in> set (dl_reads (sample_dl ?b) ?b)"
    unfolding sample_dl_def dl_env.simps by (rule sample_reads_first)
  show ?thesis by (rule slow_limit_fails [OF lim srv, of "take 32768 ?b"]) (use c in simp_all)
qed

end
