(* ===== verification/Config.thy ===== *)
theory Config
  imports Go_OS
begin

section \<open>Configuration (\<open>internal/config\<close>)\<close>

text \<open>
  The configuration file: its data, defaults, overrides and validation, and loading and saving.
  The YAML library is a parameter: \<open>marshal\<close> and \<open>unmarshal\<close>; the process environment is the
  function \<open>getenv\<close> (the empty string for an unset variable) and the bootstrap registry key the
  installer writes is \<open>reg\<close>: \<open>None\<close> when it cannot be opened (or the system is not Windows),
  otherwise its string values.
\<close>

subsection \<open>Data\<close>

record ServerConfig =
  srv_URL :: string
  srv_VerifySSL :: bool

record AgentConfig =
  agt_Version :: string
  agt_UUID :: string
  agt_SecretKey :: string

record HeartbeatConfig =
  hbc_IntervalSec :: int

record WebSocketConfig =
  wsc_Enabled :: bool
  wsc_URL :: string
  wsc_ReconnectMinSec :: int
  wsc_ReconnectMaxSec :: int

record SystemProfileConfig =
  spc_ReportIntervalMin :: int

record DownloadConfig =
  dlc_TempDir :: string
  dlc_BandwidthLimitKBs :: int

record InstallConfig =
  inc_TimeoutSec :: int
  inc_EnableAutoCleanup :: bool

record UpdateConfig =
  upc_AutoApply :: bool
  upc_ServiceName :: string
  upc_HelperPath :: string

record RemoteSupportConfig =
  rsc_Enabled :: bool
  rsc_ApprovalTimeoutSec :: int

record LoggingConfig =
  lgc_Level :: string
  lgc_File :: string
  lgc_MaxSizeMB :: int
  lgc_MaxBackups :: int

record Config =
  cfg_Server :: ServerConfig
  cfg_Agent :: AgentConfig
  cfg_Heartbeat :: HeartbeatConfig
  cfg_WebSocket :: WebSocketConfig
  cfg_SystemProfile :: SystemProfileConfig
  cfg_RemoteSupport :: RemoteSupportConfig
  cfg_Download :: DownloadConfig
  cfg_Install :: InstallConfig
  cfg_Update :: UpdateConfig
  cfg_Logging :: LoggingConfig

text \<open>A backslash, which string literals cannot hold unescaped in the sources.\<close>

abbreviation backslash :: string where "backslash \<equiv> [CHR 0x5C]"

definition Default :: Config where
  "Default = \<lparr>
     cfg_Server = \<lparr>srv_URL = ''http://10.6.100.170:8000'', srv_VerifySSL = False\<rparr>,
     cfg_Agent = \<lparr>agt_Version = ''0.0.0'', agt_UUID = [], agt_SecretKey = []\<rparr>,
     cfg_Heartbeat = \<lparr>hbc_IntervalSec = 60\<rparr>,
     cfg_WebSocket = \<lparr>wsc_Enabled = False, wsc_URL = [], wsc_ReconnectMinSec = 2, wsc_ReconnectMaxSec = 60\<rparr>,
     cfg_SystemProfile = \<lparr>spc_ReportIntervalMin = 720\<rparr>,
     cfg_RemoteSupport = \<lparr>rsc_Enabled = False, rsc_ApprovalTimeoutSec = 30\<rparr>,
     cfg_Download = \<lparr>dlc_TempDir =
         strings_Join [''C:'', ''ProgramData'', ''AppCenter'', ''downloads''] backslash,
       dlc_BandwidthLimitKBs = 1024\<rparr>,
     cfg_Install = \<lparr>inc_TimeoutSec = 1800, inc_EnableAutoCleanup = True\<rparr>,
     cfg_Update = \<lparr>upc_AutoApply = True, upc_ServiceName = ''AppCenterAgent'',
       upc_HelperPath = strings_Join [''C:'', ''Program Files'', ''AppCenter'',
         ''appcenter-update-helper.exe''] backslash\<rparr>,
     cfg_Logging = \<lparr>lgc_Level = ''info'',
       lgc_File = strings_Join [''C:'', ''ProgramData'', ''AppCenter'', ''logs'', ''agent.log''] backslash,
       lgc_MaxSizeMB = 10, lgc_MaxBackups = 5\<rparr>\<rparr>"

subsection \<open>Defaults, overrides and validation\<close>

text \<open>\<open>Validate\<close> returns the first error, in the order of the checks.\<close>

definition Validate :: "Config \<Rightarrow> goerr option" where
  "Validate c =
     (if srv_URL (cfg_Server c) = [] then Some (GoErr ''server.url is required'')
      else if hbc_IntervalSec (cfg_Heartbeat c) \<le> 0 then Some (GoErr ''heartbeat.interval_sec must be > 0'')
      else if dlc_BandwidthLimitKBs (cfg_Download c) \<le> 0 then Some (GoErr ''download.bandwidth_limit_kbps must be > 0'')
      else if inc_TimeoutSec (cfg_Install c) \<le> 0 then Some (GoErr ''install.timeout_sec must be > 0'')
      else if lgc_MaxSizeMB (cfg_Logging c) \<le> 0 then Some (GoErr ''logging.max_size_mb must be > 0'')
      else if lgc_MaxBackups (cfg_Logging c) \<le> 0 then Some (GoErr ''logging.max_backups must be > 0'')
      else if agt_Version (cfg_Agent c) = [] then Some (GoErr ''agent.version is required'')
      else if spc_ReportIntervalMin (cfg_SystemProfile c) < 0 then Some (GoErr ''system_profile.report_interval_min must be >= 0'')
      else if rsc_ApprovalTimeoutSec (cfg_RemoteSupport c) \<le> 0 then Some (GoErr ''remote_support.approval_timeout_sec must be > 0'')
      else if wsc_ReconnectMinSec (cfg_WebSocket c) < 0 then Some (GoErr ''websocket.reconnect_min_sec must be >= 0'')
      else if wsc_ReconnectMaxSec (cfg_WebSocket c) < 0 then Some (GoErr ''websocket.reconnect_max_sec must be >= 0'')
      else None)"

definition ApplyDefaults :: "Config \<Rightarrow> Config" where
  "ApplyDefaults c0 =
     (let c1 = (if upc_ServiceName (cfg_Update c0) = []
                then c0\<lparr>cfg_Update := (cfg_Update c0)\<lparr>upc_ServiceName := ''AppCenterAgent''\<rparr>\<rparr> else c0);
          c2 = (if spc_ReportIntervalMin (cfg_SystemProfile c1) = 0
                then c1\<lparr>cfg_SystemProfile := (cfg_SystemProfile c1)\<lparr>spc_ReportIntervalMin := 720\<rparr>\<rparr> else c1);
          c3 = (if rsc_ApprovalTimeoutSec (cfg_RemoteSupport c2) = 0
                then c2\<lparr>cfg_RemoteSupport := (cfg_RemoteSupport c2)\<lparr>rsc_ApprovalTimeoutSec := 30\<rparr>\<rparr> else c2);
          c4 = (if wsc_ReconnectMinSec (cfg_WebSocket c3) = 0
                then c3\<lparr>cfg_WebSocket := (cfg_WebSocket c3)\<lparr>wsc_ReconnectMinSec := 2\<rparr>\<rparr> else c3)
      in if wsc_ReconnectMaxSec (cfg_WebSocket c4) = 0
         then c4\<lparr>cfg_WebSocket := (cfg_WebSocket c4)\<lparr>wsc_ReconnectMaxSec := 60\<rparr>\<rparr> else c4)"

definition set_server_url :: "string \<Rightarrow> Config \<Rightarrow> Config" where
  "set_server_url v c = (if v = [] then c else c\<lparr>cfg_Server := (cfg_Server c)\<lparr>srv_URL := v\<rparr>\<rparr>)"

definition set_secret_key :: "string \<Rightarrow> Config \<Rightarrow> Config" where
  "set_secret_key v c = (if v = [] then c else c\<lparr>cfg_Agent := (cfg_Agent c)\<lparr>agt_SecretKey := v\<rparr>\<rparr>)"

definition applyEnvOverrides :: "(string \<Rightarrow> string) \<Rightarrow> Config \<Rightarrow> Config" where
  "applyEnvOverrides getenv c =
     set_secret_key (getenv ''APPCENTER_SECRET_KEY'')
       (set_server_url (getenv ''APPCENTER_SERVER_URL'') c)"

definition applyOSOverrides :: "(string \<Rightarrow> string option) option \<Rightarrow> Config \<Rightarrow> Config" where
  "applyOSOverrides reg c =
     (case reg of
        None \<Rightarrow> c
      | Some key \<Rightarrow>
          set_secret_key (case key ''SecretKey'' of None \<Rightarrow> [] | Some v \<Rightarrow> v)
            (set_server_url (case key ''ServerURL'' of None \<Rightarrow> [] | Some v \<Rightarrow> v) c))"

record host_env =
  he_getenv :: "string \<Rightarrow> string"
  he_registry :: "(string \<Rightarrow> string option) option"

definition ApplyRuntimeOverrides :: "host_env \<Rightarrow> Config \<Rightarrow> Config" where
  "ApplyRuntimeOverrides env c = applyOSOverrides (he_registry env) (applyEnvOverrides (he_getenv env) c)"

subsection \<open>Files\<close>

definition EnsureExists :: "fs_oracle \<Rightarrow> (Config \<Rightarrow> goerr + string) \<Rightarrow> string \<Rightarrow> fs \<Rightarrow> goerr option \<times> fs" where
  "EnsureExists orc marshal path s =
     (case os_Stat orc path s of
        None \<Rightarrow> (None, s)
      | Some err \<Rightarrow>
          if \<not> errors_Is err ErrNotExist then (Some err, s)
          else case os_MkdirAll orc (filepath_Dir path) of
            Some err \<Rightarrow> (Some err, s)
          | None \<Rightarrow> (case marshal Default of
              Inl err \<Rightarrow> (Some err, s)
            | Inr b \<Rightarrow> os_WriteFile orc path b s))"

definition Load :: "fs_oracle \<Rightarrow> (string \<Rightarrow> goerr + Config) \<Rightarrow> host_env \<Rightarrow> string \<Rightarrow> fs \<Rightarrow> goerr + Config" where
  "Load orc unmarshal env path s =
     (case os_ReadFile orc path s of
        Inl err \<Rightarrow> Inl err
      | Inr b \<Rightarrow> (case unmarshal b of
          Inl err \<Rightarrow> Inl err
        | Inr c0 \<Rightarrow>
            let cfg = ApplyRuntimeOverrides env (ApplyDefaults c0)
            in case Validate cfg of Some err \<Rightarrow> Inl err | None \<Rightarrow> Inr cfg))"

definition Save :: "fs_oracle \<Rightarrow> (Config \<Rightarrow> goerr + string) \<Rightarrow> string \<Rightarrow> Config option \<Rightarrow> fs \<Rightarrow> goerr option \<times> fs" where
  "Save orc marshal path cfg s =
     (case cfg of
        None \<Rightarrow> (Some (GoErr ''config is nil''), s)
      | Some c \<Rightarrow> (case marshal c of
          Inl err \<Rightarrow> (Some err, s)
        | Inr b \<Rightarrow> os_WriteFile orc path b s))"

subsection \<open>What the operations promise\<close>

text \<open>The values the rest of the agent divides by, waits for or connects to are usable.\<close>

definition effective :: "Config \<Rightarrow> bool" where
  "effective c \<longleftrightarrow> srv_URL (cfg_Server c) \<noteq> [] \<and> agt_Version (cfg_Agent c) \<noteq> [] \<and>
     0 < hbc_IntervalSec (cfg_Heartbeat c) \<and> 0 < dlc_BandwidthLimitKBs (cfg_Download c) \<and>
     0 < inc_TimeoutSec (cfg_Install c) \<and> 0 < lgc_MaxSizeMB (cfg_Logging c) \<and>
     0 < lgc_MaxBackups (cfg_Logging c) \<and> 0 < spc_ReportIntervalMin (cfg_SystemProfile c) \<and>
     0 < rsc_ApprovalTimeoutSec (cfg_RemoteSupport c) \<and>
     0 < wsc_ReconnectMinSec (cfg_WebSocket c) \<and> 0 < wsc_ReconnectMaxSec (cfg_WebSocket c) \<and>
     upc_ServiceName (cfg_Update c) \<noteq> []"

text \<open>The last non-empty of the candidates, in increasing order of precedence.\<close>

fun last_set :: "string \<Rightarrow> string list \<Rightarrow> string" where
  "last_set v [] = v"
| "last_set v (w # ws) = last_set (if w = [] then v else w) ws"

definition reg_value :: "host_env \<Rightarrow> string \<Rightarrow> string" where
  "reg_value env k = (case he_registry env of None \<Rightarrow> []
     | Some key \<Rightarrow> (case key k of None \<Rightarrow> [] | Some v \<Rightarrow> v))"

definition defaulted :: "Config \<Rightarrow> bool" where
  "defaulted c \<longleftrightarrow> upc_ServiceName (cfg_Update c) \<noteq> [] \<and> spc_ReportIntervalMin (cfg_SystemProfile c) \<noteq> 0 \<and>
     rsc_ApprovalTimeoutSec (cfg_RemoteSupport c) \<noteq> 0 \<and> wsc_ReconnectMinSec (cfg_WebSocket c) \<noteq> 0 \<and>
     wsc_ReconnectMaxSec (cfg_WebSocket c) \<noteq> 0"

lemma ApplyDefaults_defaulted [simp]: "defaulted (ApplyDefaults c)"
  by (simp add: defaulted_def ApplyDefaults_def Let_def)

lemma ApplyDefaults_fixed: "defaulted c \<Longrightarrow> ApplyDefaults c = c"
  by (simp add: defaulted_def ApplyDefaults_def Let_def)

lemma ApplyDefaults_frame [simp]:
  "cfg_Server (ApplyDefaults c) = cfg_Server c" "cfg_Agent (ApplyDefaults c) = cfg_Agent c"
  "cfg_Heartbeat (ApplyDefaults c) = cfg_Heartbeat c" "cfg_Download (ApplyDefaults c) = cfg_Download c"
  "cfg_Install (ApplyDefaults c) = cfg_Install c" "cfg_Logging (ApplyDefaults c) = cfg_Logging c"
  by (simp_all add: ApplyDefaults_def Let_def)

lemma ApplyRuntimeOverrides_eq:
  "ApplyRuntimeOverrides env c =
     set_secret_key (reg_value env ''SecretKey'') (set_server_url (reg_value env ''ServerURL'')
       (set_secret_key (he_getenv env ''APPCENTER_SECRET_KEY'')
         (set_server_url (he_getenv env ''APPCENTER_SERVER_URL'') c)))"
  by (simp add: ApplyRuntimeOverrides_def applyOSOverrides_def applyEnvOverrides_def reg_value_def
      set_server_url_def set_secret_key_def split: option.split)

lemma set_twice:
  "set_server_url v (set_server_url w c) = set_server_url (if v = [] then w else v) c"
  "set_secret_key v (set_secret_key w c) = set_secret_key (if v = [] then w else v) c"
  "set_server_url v (set_secret_key w c) = set_secret_key w (set_server_url v c)"
  by (simp_all add: set_server_url_def set_secret_key_def)

lemma overrides_values:
  "srv_URL (cfg_Server (ApplyRuntimeOverrides env c)) =
     last_set (srv_URL (cfg_Server c)) [he_getenv env ''APPCENTER_SERVER_URL'', reg_value env ''ServerURL'']"
  "agt_SecretKey (cfg_Agent (ApplyRuntimeOverrides env c)) =
     last_set (agt_SecretKey (cfg_Agent c)) [he_getenv env ''APPCENTER_SECRET_KEY'', reg_value env ''SecretKey'']"
  by (simp_all add: ApplyRuntimeOverrides_eq set_server_url_def set_secret_key_def)

lemma overrides_frame [simp]:
  "cfg_Heartbeat (ApplyRuntimeOverrides env c) = cfg_Heartbeat c"
  "cfg_WebSocket (ApplyRuntimeOverrides env c) = cfg_WebSocket c"
  "cfg_SystemProfile (ApplyRuntimeOverrides env c) = cfg_SystemProfile c"
  "cfg_RemoteSupport (ApplyRuntimeOverrides env c) = cfg_RemoteSupport c"
  "cfg_Download (ApplyRuntimeOverrides env c) = cfg_Download c"
  "cfg_Install (ApplyRuntimeOverrides env c) = cfg_Install c"
  "cfg_Update (ApplyRuntimeOverrides env c) = cfg_Update c"
  "cfg_Logging (ApplyRuntimeOverrides env c) = cfg_Logging c"
  "agt_Version (cfg_Agent (ApplyRuntimeOverrides env c)) = agt_Version (cfg_Agent c)"
  "agt_UUID (cfg_Agent (ApplyRuntimeOverrides env c)) = agt_UUID (cfg_Agent c)"
  by (simp_all add: ApplyRuntimeOverrides_eq set_server_url_def set_secret_key_def)

lemma overrides_defaulted [simp]: "defaulted (ApplyRuntimeOverrides env c) = defaulted c"
  by (simp add: defaulted_def)

lemma overrides_idem: "ApplyRuntimeOverrides env (ApplyRuntimeOverrides env c) = ApplyRuntimeOverrides env c"
  by (simp add: ApplyRuntimeOverrides_eq set_twice)

lemma Validate_effective: "defaulted c \<Longrightarrow> Validate c = None \<longleftrightarrow> effective c"
  by (auto simp: Validate_def effective_def defaulted_def split: if_splits)

lemma Validate_Some: "Validate c = Some err \<Longrightarrow> defaulted c \<Longrightarrow> \<not> effective c"
  by (simp add: Validate_effective [symmetric])

lemma checked_Inr:
  "defaulted c \<Longrightarrow>
    (case Validate c of Some err \<Rightarrow> Inl err | None \<Rightarrow> Inr c) = Inr d \<longleftrightarrow> c = d \<and> effective d"
  using Validate_effective [of c] Validate_Some [of c] by (cases "Validate c") auto

lemma Load_Inr:
  "Load orc um env path s = Inr c \<longleftrightarrow>
     (\<exists>b c0. os_ReadFile orc path s = Inr b \<and> um b = Inr c0 \<and>
       c = ApplyRuntimeOverrides env (ApplyDefaults c0) \<and> effective c)"
  by (auto simp: Load_def Let_def checked_Inr split: sum.splits)

text \<open>C32. A configuration that \<open>Load\<close> accepts is usable: no required string is empty and every
  interval, limit and bound is positive; the server URL and the secret are those of the registry
  if it has them, else of the environment, else of the file.\<close>

theorem Load_effective:
  assumes "Load orc um env path s = Inr c"
  shows "effective c \<and> (\<exists>b c0. s path = Some b \<and> um b = Inr c0 \<and>
    srv_URL (cfg_Server c) = last_set (srv_URL (cfg_Server c0))
      [he_getenv env ''APPCENTER_SERVER_URL'', reg_value env ''ServerURL''] \<and>
    agt_SecretKey (cfg_Agent c) = last_set (agt_SecretKey (cfg_Agent c0))
      [he_getenv env ''APPCENTER_SECRET_KEY'', reg_value env ''SecretKey''])"
  using assms by (auto simp: Load_Inr overrides_values dest!: os_ReadFile_Inr)

definition sample_host :: host_env where
  "sample_host = \<lparr>he_getenv = (\<lambda>k. if k = ''APPCENTER_SERVER_URL'' then ''http://env'' else []),
     he_registry = Some (\<lambda>k. if k = ''SecretKey'' then Some ''s3cret'' else None)\<rparr>"

definition default_marshal :: "Config \<Rightarrow> goerr + string" where
  "default_marshal c = (if c = Default then Inr ''default'' else Inl (GoErr ''yaml''))"

definition default_unmarshal :: "string \<Rightarrow> goerr + Config" where
  "default_unmarshal b = (if b = ''default'' then Inr Default else Inl (GoErr ''yaml''))"

theorem Load_effective_witness:
  "\<exists>c. Load no_faults default_unmarshal sample_host ''c'' [''c'' \<mapsto> ''default''] = Inr c \<and> effective c \<and>
     srv_URL (cfg_Server c) = ''http://env'' \<and> agt_SecretKey (cfg_Agent c) = ''s3cret''"
proof -
  let ?c = "ApplyRuntimeOverrides sample_host (ApplyDefaults Default)"
  have l: "Load no_faults default_unmarshal sample_host ''c'' [''c'' \<mapsto> ''default''] = Inr ?c"
  proof -
    have "effective ?c" by (simp add: effective_def overrides_values Default_def ApplyDefaults_def sample_host_def)
    then show ?thesis by (simp add: Load_Inr os_defs default_unmarshal_def)
  qed
  moreover have "effective ?c" using Load_effective [OF l] by simp
  moreover have "srv_URL (cfg_Server ?c) = ''http://env'' \<and> agt_SecretKey (cfg_Agent ?c) = ''s3cret''"
    by (simp add: overrides_values sample_host_def reg_value_def)
  ultimately show ?thesis by blast
qed

text \<open>\<open>EnsureExists\<close> never touches an existing configuration file, nor any other file, whatever
  fails; and when the file was missing and it reports success, the file loads, as the default
  configuration under the overrides.\<close>

theorem EnsureExists_recovers:
  assumes "\<forall>c b. marshal c = Inr b \<longrightarrow> um b = Inr c"
    and "EnsureExists orc marshal path s = (err, s')"
  shows "(\<forall>p. p \<noteq> path \<or> s path \<noteq> None \<longrightarrow> s' p = s p) \<and>
    (s path = None \<and> err = None \<longrightarrow>
      Load no_faults um env path s' = Inr (ApplyRuntimeOverrides env Default))"
proof -
  have frame: "s' p = s p" if "p \<noteq> path \<or> s path \<noteq> None" for p
    using assms(2) that
    by (auto simp: EnsureExists_def os_defs io_error_def split: option.splits if_splits sum.splits io_fault.splits)
  moreover have "Load no_faults um env path s' = Inr (ApplyRuntimeOverrides env Default)"
    if "s path = None" "err = None"
  proof -
    have "\<exists>b. marshal Default = Inr b \<and> s' path = Some b"
      using assms(2) that
      by (auto simp: EnsureExists_def os_defs split: option.splits if_splits sum.splits io_fault.splits)
    then obtain b where "um b = Inr Default" and "s' path = Some b" using assms(1) by blast
    moreover have "ApplyDefaults Default = Default" by (simp add: ApplyDefaults_fixed defaulted_def Default_def)
    moreover have "effective (ApplyRuntimeOverrides env Default)"
      by (simp add: effective_def overrides_values Default_def)
    ultimately show ?thesis by (auto simp: Load_Inr os_defs)
  qed
  ultimately show ?thesis by blast
qed

theorem EnsureExists_recovers_witness:
  "Load no_faults default_unmarshal sample_host ''c''
     (snd (EnsureExists no_faults default_marshal ''c'' Map.empty)) =
     Inr (ApplyRuntimeOverrides sample_host Default)"
proof -
  have codec: "\<forall>c b. default_marshal c = Inr b \<longrightarrow> default_unmarshal b = Inr c"
    by (simp add: default_marshal_def default_unmarshal_def)
  have e: "EnsureExists no_faults default_marshal ''c'' Map.empty = (None, [''c'' \<mapsto> ''default''])"
    by (simp add: EnsureExists_def os_defs default_marshal_def)
  show ?thesis using EnsureExists_recovers [OF codec e, of sample_host] e by simp
qed

text \<open>C33. Saving what was loaded is stable: a configuration that \<open>Load\<close> returned, saved without an
  error and loaded again in the same environment, is the same configuration.\<close>

theorem Save_Load_stable:
  assumes "\<forall>c b. marshal c = Inr b \<longrightarrow> um b = Inr c"
    and "Load orc um env path s = Inr c"
    and "Save orc' marshal path (Some c) s' = (None, s'')"
  shows "Load no_faults um env path s'' = Inr c"
proof -
  obtain c0 where c: "c = ApplyRuntimeOverrides env (ApplyDefaults c0)" and e: "effective c"
    using assms(2) by (auto simp: Load_Inr)
  obtain b where b: "marshal c = Inr b" and s'': "s'' path = Some b"
    using assms(3) by (auto simp: Save_def os_defs split: sum.splits io_fault.splits)
  have "ApplyDefaults c = c" by (rule ApplyDefaults_fixed) (simp add: c)
  moreover have "ApplyRuntimeOverrides env c = c" by (simp add: c overrides_idem)
  ultimately show ?thesis
    using assms(1) b s'' e by (auto simp: Load_Inr os_defs)
qed

definition plain_host :: host_env where
  "plain_host = \<lparr>he_getenv = (\<lambda>_. []), he_registry = None\<rparr>"

theorem Save_Load_stable_witness:
  "\<exists>s. Save no_faults default_marshal ''c'' (Some Default) Map.empty = (None, s) \<and>
     Load no_faults default_unmarshal plain_host ''c'' s = Inr Default"
proof -
  let ?s = "[''c'' \<mapsto> ''default''] :: fs"
  have codec: "\<forall>c b. default_marshal c = Inr b \<longrightarrow> default_unmarshal b = Inr c"
    by (simp add: default_marshal_def default_unmarshal_def)
  have l: "Load no_faults default_unmarshal plain_host ''c'' ?s = Inr Default"
  proof -
    have "ApplyDefaults Default = Default" by (simp add: ApplyDefaults_fixed defaulted_def Default_def)
    moreover have "ApplyRuntimeOverrides plain_host Default = Default"
      by (simp add: ApplyRuntimeOverrides_eq set_server_url_def set_secret_key_def plain_host_def reg_value_def)
    moreover have "effective Default" by (simp add: effective_def Default_def)
    ultimately show ?thesis by (auto simp: Load_Inr os_defs default_unmarshal_def)
  qed
  have sv: "Save no_faults default_marshal ''c'' (Some Default) Map.empty = (None, ?s)"
    by (simp add: Save_def os_defs default_marshal_def)
  show ?thesis using Save_Load_stable [OF codec l sv] sv by blast
qed

end
