(* ===== verification/Execute.thy ===== *)
theory Execute
  imports TaskQueue Installer Hash Downloader Config
begin

section \<open>Executing a command (\<open>cmd/service/core.go\<close>)\<close>

text \<open>
  \<open>executeCommand\<close> is what the queue runs for a task: download, name after the announced file type,
  verify the hash, install, clean up. The model composes the downloader, the hash check and the
  installer of their theories over one file system, and records each start of the installer with
  the bytes the package had at that moment. \<open>xe_effect\<close> is what the installer does to the files.
\<close>

record exec_env =
  xe_orc :: fs_oracle
  xe_dl :: dl_env
  xe_sha :: "string \<Rightarrow> string"
  xe_inst :: inst_env
  xe_effect :: "string \<Rightarrow> fs \<Rightarrow> fs"
  xe_downloadSec :: int
  xe_installSec :: int

definition package_types :: "string list" where
  "package_types = [''.msi'', ''.exe'', ''.ps1'', ''.bin'']"

definition findExistingDownloadPath :: "fs_oracle \<Rightarrow> string \<Rightarrow> fs \<Rightarrow> string" where
  "findExistingDownloadPath orc basePath s =
     (case find (\<lambda>ext. os_Stat orc (basePath @ ext) s = None) package_types of
        Some ext \<Rightarrow> basePath @ ext
      | None \<Rightarrow> basePath @ ''.bin'')"

definition task_basePath :: "Config \<Rightarrow> Command \<Rightarrow> string" where
  "task_basePath cfg cmd = filepath_Join (dlc_TempDir (cfg_Download cfg))
     (''task_'' @ strconv_Itoa (cmd_TaskID cmd) @ ''_app_'' @ strconv_Itoa (cmd_AppID cmd))"

definition command_url :: "Config \<Rightarrow> Command \<Rightarrow> string" where
  "command_url cfg cmd =
     (if strings_HasPrefix (cmd_DownloadURL cmd) ''/''
      then strings_TrimRight (srv_URL (cfg_Server cfg)) ''/'' @ cmd_DownloadURL cmd else cmd_DownloadURL cmd)"

text \<open>The rename to the type the server's file name has; when it fails the old name is kept.\<close>

definition rename_package :: "fs_oracle \<Rightarrow> string \<Rightarrow> string \<Rightarrow> string \<Rightarrow> fs \<Rightarrow> string \<times> fs" where
  "rename_package orc basePath downloadPath filename s =
     (let ext = strings_ToLower (filepath_Ext filename); candidate = basePath @ ext in
      if ext \<in> {''.msi'', ''.exe'', ''.ps1''} \<and> candidate \<noteq> downloadPath
      then (case os_Rename orc downloadPath candidate s of
              (None, s') \<Rightarrow> (candidate, s') | (Some err, s') \<Rightarrow> (downloadPath, s'))
      else (downloadPath, s))"

definition exec_failed :: "int \<Rightarrow> int \<Rightarrow> int \<Rightarrow> ExecutionResult" where
  "exec_failed code downloadSec installSec = \<lparr>er_ExitCode = code, er_InstalledVersion = [],
     er_DownloadDurationSec = downloadSec, er_InstallDurationSec = installSec, er_Message = []\<rparr>"

type_synonym exec_result = "(ExecutionResult \<times> goerr option) \<times> (string \<times> string option) list \<times> fs"

text \<open>From the verified package on: run the installer, report, clean up.\<close>

definition runInstaller :: "exec_env \<Rightarrow> Config \<Rightarrow> Command \<Rightarrow> string \<Rightarrow> fs \<Rightarrow> exec_result" where
  "runInstaller env cfg cmd installPath s =
     (let calls = [(installPath, s installPath)]; s1 = xe_effect env installPath s in
      case Install (xe_inst env) installPath (cmd_InstallArgs cmd) (inc_TimeoutSec (cfg_Install cfg)) of
        (exitCode, Some err) \<Rightarrow>
          ((exec_failed exitCode (xe_downloadSec env) (xe_installSec env), Some (GoWrap ''install failed'' err)), calls, s1)
      | (exitCode, None) \<Rightarrow>
          ((\<lparr>er_ExitCode = exitCode, er_InstalledVersion = cmd_AppVersion cmd,
             er_DownloadDurationSec = xe_downloadSec env, er_InstallDurationSec = xe_installSec env,
             er_Message = ''Installation completed successfully''\<rparr>, None), calls,
           if inc_EnableAutoCleanup (cfg_Install cfg) then snd (os_Remove (xe_orc env) installPath s1) else s1))"

definition executeCommand :: "exec_env \<Rightarrow> Config \<Rightarrow> Command \<Rightarrow> fs \<Rightarrow> exec_result" where
  "executeCommand env cfg cmd s =
     (case os_MkdirAll (xe_orc env) (dlc_TempDir (cfg_Download cfg)) of
        Some err \<Rightarrow> ((exec_failed (-1) 0 0, Some err), [], s)
      | None \<Rightarrow>
          let basePath = task_basePath cfg cmd;
              downloadPath = findExistingDownloadPath (xe_orc env) basePath s;
              failed = exec_failed (-1) (xe_downloadSec env) 0
          in case DownloadFileWithMeta (xe_dl env) (command_url cfg cmd) downloadPath
                   (dlc_BandwidthLimitKBs (cfg_Download cfg)) (agt_UUID (cfg_Agent cfg)) (agt_SecretKey (cfg_Agent cfg)) s of
               (Inl err, s1) \<Rightarrow> ((failed, Some (GoWrap ''download failed'' err)), [], s1)
             | (Inr meta, s1) \<Rightarrow>
                 (case rename_package (xe_orc env) basePath downloadPath (dr_Filename meta) s1 of
                    (installPath, s2) \<Rightarrow>
                      (case VerifyFileHash (xe_sha env) (xe_orc env) installPath (cmd_FileHash cmd) s2 of
                         Inl err \<Rightarrow> ((failed, Some (GoWrap ''hash verification failed'' err)), [], s2)
                       | Inr valid \<Rightarrow>
                           if \<not> valid then ((failed, Some (GoErr ''hash mismatch'')), [], s2)
                           else runInstaller env cfg cmd installPath s2)))"

subsection \<open>Nothing unverified is installed\<close>

lemma rename_package_path:
  assumes "rename_package orc base p f s = (q, s')" and "p \<in> (\<lambda>e. base @ e) ` set package_types"
  shows "q \<in> (\<lambda>e. base @ e) ` set package_types"
  using assms by (auto simp: rename_package_def Let_def package_types_def split: if_splits prod.splits option.splits)

lemma findExistingDownloadPath_type:
  "findExistingDownloadPath orc base s \<in> (\<lambda>e. base @ e) ` set package_types"
proof (cases "find (\<lambda>ext. os_Stat orc (base @ ext) s = None) package_types")
  case None
  then show ?thesis by (simp add: findExistingDownloadPath_def package_types_def)
next
  case (Some ext)
  then have "ext \<in> set package_types" by (auto simp: find_Some_iff)
  with Some show ?thesis by (simp add: findExistingDownloadPath_def)
qed

lemma executeCommand_cases:
  assumes "executeCommand env cfg cmd s = ((res, err), calls, s')"
  obtains (early) "calls = []" and "err \<noteq> None" and "er_ExitCode res = -1"
  | (run) p s2 d where "p \<in> (\<lambda>e. task_basePath cfg cmd @ e) ` set package_types"
      and "s2 p = Some d" and "hash_matches (xe_sha env) (cmd_FileHash cmd) d"
      and "runInstaller env cfg cmd p s2 = ((res, err), calls, s')"
proof -
  let ?base = "task_basePath cfg cmd" and ?failed = "exec_failed (-1) (xe_downloadSec env) 0"
  let ?path = "findExistingDownloadPath (xe_orc env) ?base s"
  let ?dl = "DownloadFileWithMeta (xe_dl env) (command_url cfg cmd) ?path (dlc_BandwidthLimitKBs (cfg_Download cfg))
    (agt_UUID (cfg_Agent cfg)) (agt_SecretKey (cfg_Agent cfg)) s"
  show thesis
  proof (cases "os_MkdirAll (xe_orc env) (dlc_TempDir (cfg_Download cfg))")
    case (Some e)
    show thesis using assms by (intro early) (auto simp: executeCommand_def exec_failed_def Some)
  next
    case mk: None
    obtain r s1 where dl: "?dl = (r, s1)" by fastforce
    show thesis
    proof (cases r)
      case (Inl e)
      with assms mk dl show thesis by (intro early) (auto simp: executeCommand_def exec_failed_def Let_def)
    next
      case (Inr meta)
      obtain p s2 where rn: "rename_package (xe_orc env) ?base ?path (dr_Filename meta) s1 = (p, s2)" by fastforce
      have ty: "p \<in> (\<lambda>e. ?base @ e) ` set package_types"
        using rename_package_path [OF rn findExistingDownloadPath_type] .
      have ex: "executeCommand env cfg cmd s =
          (case VerifyFileHash (xe_sha env) (xe_orc env) p (cmd_FileHash cmd) s2 of
             Inl err \<Rightarrow> ((?failed, Some (GoWrap ''hash verification failed'' err)), [], s2)
           | Inr valid \<Rightarrow> if \<not> valid then ((?failed, Some (GoErr ''hash mismatch'')), [], s2)
               else runInstaller env cfg cmd p s2)"
        using mk dl Inr rn by (simp add: executeCommand_def Let_def)
      show thesis
      proof (cases "VerifyFileHash (xe_sha env) (xe_orc env) p (cmd_FileHash cmd) s2 = Inr True")
        case True
        then obtain d where "s2 p = Some d" "hash_matches (xe_sha env) (cmd_FileHash cmd) d"
          using VerifyFileHash_True by blast
        with True ty ex assms show thesis by (intro run) auto
      next
        case False
        with ex assms show thesis
          by (intro early) (auto simp: exec_failed_def split: sum.splits if_splits)
      qed
    qed
  qed
qed

text \<open>C6. Nothing unverified is installed: an execution either never starts the installer and fails with exit
  code -1, or starts it once, on the task's own package in the temporary directory, whose bytes have
  at that moment the hash the command announced; and then it succeeds exactly when the installer
  does, with its exit code, whatever the network, the file system and the installer do.\<close>

theorem executeCommand_verified:
  assumes "executeCommand env cfg cmd s = ((res, err), calls, s')"
  shows "calls = [] \<and> err \<noteq> None \<and> er_ExitCode res = -1 \<or>
    (\<exists>ext \<in> set package_types. \<exists>d. calls = [(task_basePath cfg cmd @ ext, Some d)] \<and>
       hash_matches (xe_sha env) (cmd_FileHash cmd) d \<and>
       (case Install (xe_inst env) (task_basePath cfg cmd @ ext) (cmd_InstallArgs cmd) (inc_TimeoutSec (cfg_Install cfg)) of
          (code, ierr) \<Rightarrow> er_ExitCode res = code \<and> (err = None \<longleftrightarrow> ierr = None) \<and>
            (err = None \<longrightarrow> er_InstalledVersion res = cmd_AppVersion cmd)))"
  using assms
proof (cases rule: executeCommand_cases)
  case early
  then show ?thesis by simp
next
  case (run p s2 d)
  then obtain ext where ext: "ext \<in> set package_types" "p = task_basePath cfg cmd @ ext" by blast
  have "calls = [(p, Some d)] \<and> (case Install (xe_inst env) p (cmd_InstallArgs cmd) (inc_TimeoutSec (cfg_Install cfg)) of
      (code, ierr) \<Rightarrow> er_ExitCode res = code \<and> (err = None \<longleftrightarrow> ierr = None) \<and>
        (err = None \<longrightarrow> er_InstalledVersion res = cmd_AppVersion cmd))"
    using run(2,4) by (auto simp: runInstaller_def Let_def exec_failed_def split: prod.splits option.splits)
  with run(3) show ?thesis unfolding ext(2)
    by (intro disjI2 bexI [OF _ ext(1)] exI [of _ d]) (elim conjE, intro conjI)
qed

subsection \<open>Trying again\<close>


text \<open>A complete package is never tried again: when an installation failed and its package, not empty, is still the only
  one of the task on disk, a server that answers a range request that starts at the end of the
  package as HTTP says (416) makes every further attempt fail in the download, before the installer
  is started again.\<close>

theorem retry_of_complete_package_fails:
  assumes "executeCommand env cfg cmd s = ((res, Some err), [(p, Some d)], s')" and "s' p = Some d" and "d \<noteq> []"
    and "\<forall>ext \<in> set package_types. task_basePath cfg cmd @ ext \<noteq> p \<longrightarrow> s' (task_basePath cfg cmd @ ext) = None"
    and "xe_orc env' = no_faults" and "dl_orc (xe_dl env') = no_faults" and "0 < dlc_BandwidthLimitKBs (cfg_Download cfg)"
    and "\<forall>url u k. \<exists>resp. dl_server (xe_dl env') (download_request url (length d) u k) = Inr resp \<and> rs_StatusCode resp = 416"
  shows "\<exists>res' msg. executeCommand env' cfg cmd s' = ((res', Some (GoWrap ''download failed'' (GoErr msg))), [], s')"
proof -
  let ?base = "task_basePath cfg cmd"
  from executeCommand_cases [OF assms(1)] obtain q s2
    where q: "q \<in> (\<lambda>e. ?base @ e) ` set package_types"
      and run: "runInstaller env cfg cmd q s2 = ((res, Some err), [(p, Some d)], s')" by (metis list.discI)
  then have "q = p" by (auto simp: runInstaller_def Let_def split: prod.splits option.splits)
  with q obtain ext where ext: "ext \<in> set package_types" "p = ?base @ ext" by blast
  have stat: "os_Stat no_faults (?base @ e) s' = None \<longleftrightarrow> e = ext" if "e \<in> set package_types" for e
    using assms(2,4) ext that os_Stat_no_fault [of no_faults "?base @ e" s'] by (auto simp: no_faults_def)
  have "find (\<lambda>e. os_Stat no_faults (?base @ e) s' = None) package_types = find (\<lambda>e. e = ext) package_types"
    using stat by (intro find_cong) auto
  also have "\<dots> = Some ext" using ext(1) by (auto simp: package_types_def)
  finally have path: "findExistingDownloadPath no_faults ?base s' = p"
    by (simp add: findExistingDownloadPath_def ext(2))
  have off: "resume_offset no_faults p s' = length d"
    using assms(2) stat [OF ext(1)] by (simp add: resume_offset_def ext(2))
  have mk: "os_MkdirAll no_faults q = None" for q by (simp add: os_defs)
  obtain resp where resp: "dl_server (xe_dl env') (download_request (command_url cfg cmd) (length d)
      (agt_UUID (cfg_Agent cfg)) (agt_SecretKey (cfg_Agent cfg))) = Inr resp" "rs_StatusCode resp = 416"
    using assms(8) by blast
  show ?thesis
    using assms(7) by (simp add: executeCommand_def Let_def assms(5,6) mk path DownloadFileWithMeta_def off resp)
qed

subsection \<open>An execution\<close>

definition exec_server :: transport where
  "exec_server req =
     (if header_Get (rq_Header req) ''Range'' = []
      then Inr \<lparr>rs_StatusCode = 200, rs_Status = ''200 OK'', rs_Header = [(''Content-Disposition'', ''a'')], rs_Body = ''MZ'', rs_BodyErr = None\<rparr>
      else Inr \<lparr>rs_StatusCode = 416, rs_Status = ''416 Range Not Satisfiable'', rs_Header = [], rs_Body = [], rs_BodyErr = None\<rparr>)"

definition sample_exec :: "cmd_result \<Rightarrow> exec_env" where
  "sample_exec r = \<lparr>xe_orc = no_faults,
     xe_dl = \<lparr>dl_orc = no_faults, dl_server = exec_server, dl_reads = (\<lambda>b. [b]), dl_waitN = (\<lambda>i b n. None),
       dl_media = (\<lambda>_. Some ''setup.exe'')\<rparr>,
     xe_sha = (\<lambda>d. if d = ''MZ'' then ''0a'' else ''00''),
     xe_inst = \<lparr>ie_windows = True, ie_run = (\<lambda>t p as. r), ie_logPath = ''l'', ie_log = None\<rparr>,
     xe_effect = (\<lambda>p s. s), xe_downloadSec = 1, xe_installSec = 2\<rparr>"

definition sample_task :: Command where
  "sample_task = zero_Command\<lparr>cmd_TaskID := 7, cmd_AppID := 3, cmd_FileHash := ''0A'', cmd_DownloadURL := ''/f''\<rparr>"

definition sample_exec_cfg :: Config where
  "sample_exec_cfg = Default\<lparr>cfg_Download := \<lparr>dlc_TempDir = ''t'', dlc_BandwidthLimitKBs = 64\<rparr>\<rparr>"

definition sample_package :: string where
  "sample_package = task_basePath sample_exec_cfg sample_task @ ''.exe''"

lemma sample_exec_run:
  "fst (executeCommand (sample_exec (CmdExit 1 ''no'')) sample_exec_cfg sample_task Map.empty) =
     ((exec_failed 1 1 2, Some (GoWrap ''install failed'' (GoErr ''exe install failed: no''))))"
  by code_simp

abbreviation sample_run :: exec_result where
  "sample_run \<equiv> executeCommand (sample_exec (CmdExit 1 ''no'')) sample_exec_cfg sample_task Map.empty"

lemma sample_exec_calls: "fst (snd sample_run) = [(sample_package, Some ''MZ'')]"
  by code_simp

lemma sample_exec_files:
  "snd (snd sample_run) sample_package = Some ''MZ''"
  "list_all (\<lambda>ext. task_basePath sample_exec_cfg sample_task @ ext \<noteq> sample_package \<longrightarrow>
     snd (snd sample_run) (task_basePath sample_exec_cfg sample_task @ ext) = None) package_types"
  by code_simp+

lemma sample_run_eq:
  "sample_run = ((exec_failed 1 1 2, Some (GoWrap ''install failed'' (GoErr ''exe install failed: no''))),
     [(sample_package, Some ''MZ'')], snd (snd sample_run))"
  by (metis prod.collapse sample_exec_calls sample_exec_run)

theorem executeCommand_verified_witness:
  "hash_matches (xe_sha (sample_exec (CmdExit 1 ''no''))) (cmd_FileHash sample_task) ''MZ'' \<and>
   fst (snd sample_run) = [(sample_package, Some ''MZ'')]"
  using executeCommand_verified [OF sample_run_eq] sample_exec_calls by auto

theorem retry_of_complete_package_fails_witness:
  "\<exists>res msg. executeCommand (sample_exec (CmdOK [])) sample_exec_cfg sample_task (snd (snd sample_run)) =
     ((res, Some (GoWrap ''download failed'' (GoErr msg))), [], snd (snd sample_run))"
proof (rule retry_of_complete_package_fails [OF sample_run_eq sample_exec_files(1)])
  show "\<forall>ext \<in> set package_types. task_basePath sample_exec_cfg sample_task @ ext \<noteq> sample_package \<longrightarrow>
      snd (snd sample_run) (task_basePath sample_exec_cfg sample_task @ ext) = None"
    using sample_exec_files(2) by (simp only: list_all_iff)
  show "\<forall>url u k. \<exists>resp. dl_server (xe_dl (sample_exec (CmdOK []))) (download_request url (length ''MZ'') u k) = Inr resp \<and>
      rs_StatusCode resp = 416"
    by (simp add: sample_exec_def exec_server_def Range_header)
qed (simp_all add: sample_exec_def sample_exec_cfg_def)

end
