(* ===== verification/Updater.thy ===== *)
theory Updater
  imports Config Hash Downloader Json
begin

section \<open>Self-update (\<open>internal/updater\<close>)\<close>

text \<open>
  Comparing versions, staging a new agent binary announced by the server, and starting the update
  helper for a staged binary. The JSON text of the metadata file goes through the parameters
  \<open>json_text\<close> and \<open>json_parse\<close> (the package \<open>encoding/json\<close>); field names, omitted fields and the
  decoding into the struct are modelled.
\<close>

subsection \<open>Versions\<close>

text \<open>\<open>semverLikeRe\<close>: the leftmost run of digits, with up to two more runs after single dots.\<close>

definition semver_group :: "string \<Rightarrow> string \<times> string" where
  "semver_group s =
     (case s of
        [] \<Rightarrow> ([], s)
      | c # r \<Rightarrow>
          if c = CHR ''.'' \<and> takeWhile char_digit r \<noteq> []
          then (CHR ''.'' # takeWhile char_digit r, dropWhile char_digit r) else ([], s))"

definition semverLike_FindString :: "string \<Rightarrow> string" where
  "semverLike_FindString s =
     (let r = dropWhile (\<lambda>c. \<not> char_digit c) s;
          (g2, r2) = semver_group (dropWhile char_digit r);
          (g3, r3) = (if g2 = [] then ([], r2) else semver_group r2)
      in takeWhile char_digit r @ g2 @ g3)"

text \<open>The loop over the parts: at most three, the others stay 0; \<open>None\<close> is a nil slice.\<close>

fun semver_parts :: "nat \<Rightarrow> string list \<Rightarrow> int list \<Rightarrow> int list option" where
  "semver_parts i [] out = Some out"
| "semver_parts i (p # ps) out =
     (if i < 3 then (case strconv_Atoi p of None \<Rightarrow> None | Some n \<Rightarrow> semver_parts (i + 1) ps (out[i := n]))
      else Some out)"

definition extractSemver3 :: "string \<Rightarrow> int list option" where
  "extractSemver3 v =
     (let m = semverLike_FindString v
      in if m = [] then None else semver_parts 0 (strings_Split m (CHR ''.'')) [0, 0, 0])"

definition isNewerVersion :: "string \<Rightarrow> string \<Rightarrow> bool" where
  "isNewerVersion target current =
     (case (extractSemver3 target, extractSemver3 current) of
        (Some t, Some c) \<Rightarrow>
          if t ! 0 \<noteq> c ! 0 then t ! 0 > c ! 0
          else if t ! 1 \<noteq> c ! 1 then t ! 1 > c ! 1
          else t ! 2 > c ! 2
      | _ \<Rightarrow> target \<noteq> [] \<and> target \<noteq> current)"

definition sanitizeVersion :: "string \<Rightarrow> string" where
  "sanitizeVersion v = map (\<lambda>c. if c \<in> {CHR ''/'', CHR 0x5C, CHR '':'', CHR '' ''} then CHR ''_'' else c) v"

subsection \<open>The staged update\<close>

record StagedUpdate =
  stg_Version :: string
  stg_FilePath :: string
  stg_Hash :: string
  stg_Force :: bool
  stg_StagedAtUTC :: string
  stg_SourceURL :: string
  stg_AgentVersion :: string

definition encode_StagedUpdate :: "StagedUpdate \<Rightarrow> json" where
  "encode_StagedUpdate m = JObj (
     [(''version'', JStr (stg_Version m)), (''file_path'', JStr (stg_FilePath m)), (''hash'', JStr (stg_Hash m))] @
     (if stg_Force m then [(''force'', JBool True)] else []) @
     [(''staged_at_utc'', JStr (stg_StagedAtUTC m)), (''source_url'', JStr (stg_SourceURL m)),
      (''agent_version'', JStr (stg_AgentVersion m))])"

definition staged_fields :: "string list" where
  "staged_fields = [''version'', ''file_path'', ''hash'', ''force'', ''staged_at_utc'', ''source_url'', ''agent_version'']"

definition set_staged_field :: "string \<Rightarrow> json \<Rightarrow> StagedUpdate \<Rightarrow> StagedUpdate option" where
  "set_staged_field f v m =
     (if f = ''version'' then map_option (\<lambda>s. m\<lparr>stg_Version := s\<rparr>) (decode_string (stg_Version m) v)
      else if f = ''file_path'' then map_option (\<lambda>s. m\<lparr>stg_FilePath := s\<rparr>) (decode_string (stg_FilePath m) v)
      else if f = ''hash'' then map_option (\<lambda>s. m\<lparr>stg_Hash := s\<rparr>) (decode_string (stg_Hash m) v)
      else if f = ''force'' then map_option (\<lambda>b. m\<lparr>stg_Force := b\<rparr>) (decode_bool (stg_Force m) v)
      else if f = ''staged_at_utc'' then map_option (\<lambda>s. m\<lparr>stg_StagedAtUTC := s\<rparr>) (decode_string (stg_StagedAtUTC m) v)
      else if f = ''source_url'' then map_option (\<lambda>s. m\<lparr>stg_SourceURL := s\<rparr>) (decode_string (stg_SourceURL m) v)
      else if f = ''agent_version'' then map_option (\<lambda>s. m\<lparr>stg_AgentVersion := s\<rparr>) (decode_string (stg_AgentVersion m) v)
      else Some m)"

definition decode_StagedUpdate :: "json \<Rightarrow> StagedUpdate option" where
  "decode_StagedUpdate v = decode_struct staged_fields set_staged_field
     \<lparr>stg_Version = [], stg_FilePath = [], stg_Hash = [], stg_Force = False, stg_StagedAtUTC = [],
      stg_SourceURL = [], stg_AgentVersion = []\<rparr> v"

text \<open>The world of one call: the file system's oracle for each use, the downloads, the digest, JSON
  texts, the clock's text and starting a process (\<open>processRunner\<close>).\<close>

record upd_env =
  ue_orc :: fs_oracle
  ue_dl :: dl_env
  ue_sha :: "string \<Rightarrow> string"
  ue_json_text :: "json \<Rightarrow> string"
  ue_json_parse :: "string \<Rightarrow> goerr + json"
  ue_now :: string
  ue_Start :: "string \<Rightarrow> string list \<Rightarrow> goerr option"

definition pendingMetaPath :: "Config \<Rightarrow> string" where
  "pendingMetaPath cfg = filepath_Join (dlc_TempDir (cfg_Download cfg)) ''pending_update.json''"

definition loadStagedUpdate :: "upd_env \<Rightarrow> string \<Rightarrow> fs \<Rightarrow> goerr + StagedUpdate" where
  "loadStagedUpdate env path s =
     (case os_ReadFile (ue_orc env) path s of
        Inl err \<Rightarrow> Inl err
      | Inr b \<Rightarrow> (case ue_json_parse env b of
          Inl err \<Rightarrow> Inl err
        | Inr j \<Rightarrow> (case decode_StagedUpdate j of
            None \<Rightarrow> Inl (GoErr ''json: cannot unmarshal'')
          | Some m \<Rightarrow>
              if stg_Version m = [] \<or> stg_FilePath m = [] \<or> stg_Hash m = []
              then Inl (GoErr ''invalid pending update metadata'') else Inr m)))"

definition resolveUpdateURL :: "Config \<Rightarrow> string \<Rightarrow> string" where
  "resolveUpdateURL cfg u =
     (if strings_HasPrefix u ''/'' then strings_TrimRight (srv_URL (cfg_Server cfg)) ''/'' @ u else u)"

definition stagedPath :: "Config \<Rightarrow> string \<Rightarrow> string" where
  "stagedPath cfg latestVersion =
     filepath_Join (dlc_TempDir (cfg_Download cfg)) (''agent-update-'' @ sanitizeVersion latestVersion @ ''.exe'')"

text \<open>The end of \<open>StageIfNeeded\<close>: verify the downloaded file and write the metadata.\<close>

definition recordStaged :: "upd_env \<Rightarrow> Config \<Rightarrow> StagedUpdate \<Rightarrow> fs \<Rightarrow> goerr option \<times> fs" where
  "recordStaged env cfg meta s1 =
     (case VerifyFileHash (ue_sha env) (ue_orc env) (stg_FilePath meta) (stg_Hash meta) s1 of
        Inl err \<Rightarrow> (Some (GoWrap ''update hash verify failed'' err), s1)
      | Inr valid \<Rightarrow>
          if \<not> valid then (Some (GoErr ''update hash mismatch''), snd (os_Remove (ue_orc env) (stg_FilePath meta) s1))
          else
            case os_WriteFile (ue_orc env) (pendingMetaPath cfg) (ue_json_text env (encode_StagedUpdate meta)) s1 of
              (Some err, s2) \<Rightarrow> (Some (GoWrap ''write pending update metadata'' err), s2)
            | (None, s2) \<Rightarrow> (None, s2))"

definition update_mode_force :: "payload \<Rightarrow> bool" where
  "update_mode_force hb \<longleftrightarrow> strings_TrimSpace (strings_ToLower (jstring hb ''mode'')) = ''force''"

definition staged_meta :: "upd_env \<Rightarrow> Config \<Rightarrow> payload \<Rightarrow> StagedUpdate" where
  "staged_meta env cfg hbConfig =
     (let latestVersion = jstring hbConfig ''latest_agent_version''
      in \<lparr>stg_Version = latestVersion, stg_FilePath = stagedPath cfg latestVersion,
          stg_Hash = jstring hbConfig ''agent_hash'', stg_Force = update_mode_force hbConfig,
          stg_StagedAtUTC = ue_now env,
          stg_SourceURL = resolveUpdateURL cfg (jstring hbConfig ''agent_download_url''),
          stg_AgentVersion = agt_Version (cfg_Agent cfg)\<rparr>)"

definition StageIfNeeded :: "upd_env \<Rightarrow> Config \<Rightarrow> payload \<Rightarrow> fs \<Rightarrow> goerr option \<times> fs" where
  "StageIfNeeded env cfg hbConfig s =
     (let latestVersion = jstring hbConfig ''latest_agent_version'';
          downloadURL = jstring hbConfig ''agent_download_url'';
          agentHash = jstring hbConfig ''agent_hash''
      in if latestVersion = [] \<or> downloadURL = [] \<or> agentHash = [] then (None, s)
      else if \<not> update_mode_force hbConfig \<and> \<not> isNewerVersion latestVersion (agt_Version (cfg_Agent cfg))
      then (None, s)
      else case os_MkdirAll (ue_orc env) (dlc_TempDir (cfg_Download cfg)) of
        Some err \<Rightarrow> (Some err, s)
      | None \<Rightarrow>
          case DownloadFileWithMeta (ue_dl env) (resolveUpdateURL cfg downloadURL) (stagedPath cfg latestVersion)
                (dlc_BandwidthLimitKBs (cfg_Download cfg)) (agt_UUID (cfg_Agent cfg)) (agt_SecretKey (cfg_Agent cfg)) s of
            (Inl err, s1) \<Rightarrow> (Some (GoWrap ''update download failed'' err), s1)
          | (Inr _, s1) \<Rightarrow> recordStaged env cfg (staged_meta env cfg hbConfig) s1)"

text \<open>\<open>applyIfPending\<close> returns its error and the processes it started, with their arguments.\<close>

definition helper_args :: "Config \<Rightarrow> string \<Rightarrow> string \<Rightarrow> StagedUpdate \<Rightarrow> string list" where
  "helper_args cfg cfgPath serviceExePath m =
     [''--service-name'', upc_ServiceName (cfg_Update cfg), ''--target-exe'', serviceExePath,
      ''--new-exe'', stg_FilePath m, ''--meta'', pendingMetaPath cfg, ''--config'', cfgPath,
      ''--target-version'', stg_Version m]"

definition applyIfPending ::
    "upd_env \<Rightarrow> Config \<Rightarrow> string \<Rightarrow> string \<Rightarrow> fs \<Rightarrow> goerr option \<times> (string \<times> string list) list" where
  "applyIfPending env cfg cfgPath serviceExePath s =
     (if \<not> upc_AutoApply (cfg_Update cfg) then (None, [])
      else if os_Stat (ue_orc env) (pendingMetaPath cfg) s \<noteq> None then (None, [])
      else case loadStagedUpdate env (pendingMetaPath cfg) s of
        Inl err \<Rightarrow> (Some (GoWrap ''read pending update'' err), [])
      | Inr m \<Rightarrow>
          if \<not> stg_Force m \<and> \<not> isNewerVersion (stg_Version m) (agt_Version (cfg_Agent cfg)) then (None, [])
          else case VerifyFileHash (ue_sha env) (ue_orc env) (stg_FilePath m) (stg_Hash m) s of
            Inl err \<Rightarrow> (Some (GoWrap ''verify staged update hash'' err), [])
          | Inr valid \<Rightarrow>
              let helper = upc_HelperPath (cfg_Update cfg); args = helper_args cfg cfgPath serviceExePath m in
              if \<not> valid then (Some (GoErr ''staged update hash mismatch''), [])
              else if helper = [] then (Some (GoErr ''update.helper_path is required when update.auto_apply=true''), [])
              else if serviceExePath = [] then (Some (GoErr ''service exe path is empty''), [])
              else case ue_Start env helper args of
                Some err \<Rightarrow> (Some (GoWrap ''start update helper'' err), [])
              | None \<Rightarrow> (Some ErrUpdateRestart, [(helper, args)]))"

subsection \<open>Comparing versions\<close>

lemma takeWhile_digits:
  assumes "list_all P ds" and "rest = [] \<or> \<not> P (hd rest)"
  shows "takeWhile P (ds @ rest) = ds" and "dropWhile P (ds @ rest) = rest"
proof -
  have "takeWhile P rest = []" "dropWhile P rest = rest" using assms(2) by (cases rest; simp)+
  with assms(1) show "takeWhile P (ds @ rest) = ds" "dropWhile P (ds @ rest) = rest"
    by (simp_all add: list_all_iff)
qed

lemma digit_not_dot: "char_digit c \<Longrightarrow> c \<noteq> CHR ''.''"
  by (auto simp: char_digit_def)

definition version_text :: "nat \<times> nat \<times> nat \<Rightarrow> string" where
  "version_text v = (case v of (a, b, c) \<Rightarrow> nat_Itoa a @ ''.'' @ nat_Itoa b @ ''.'' @ nat_Itoa c)"

lemma semver_group_number:
  assumes "rest = [] \<or> \<not> char_digit (hd rest)"
  shows "semver_group (''.'' @ nat_Itoa n @ rest) = (''.'' @ nat_Itoa n, rest)"
  using takeWhile_digits [OF nat_Itoa_digits assms, of n] by (simp add: semver_group_def)

lemma semverLike_FindString_version:
  assumes "list_all (\<lambda>c. \<not> char_digit c) pre" and "suf = [] \<or> \<not> char_digit (hd suf)"
  shows "semverLike_FindString (pre @ version_text (a, b, c) @ suf) = version_text (a, b, c)"
proof -
  let ?rest2 = "''.'' @ nat_Itoa c @ suf" and ?rest1 = "''.'' @ nat_Itoa b @ ''.'' @ nat_Itoa c @ suf"
  have dot: "\<not> char_digit (CHR ''.'')" by (simp add: char_digit_def)
  obtain d ds where a: "nat_Itoa a = d # ds" and "char_digit d"
    using nat_Itoa_digits [of a] nat_Itoa_nonempty [of a] by (cases "nat_Itoa a") auto
  then have "dropWhile (\<lambda>c. \<not> char_digit c) (pre @ nat_Itoa a @ ?rest1) = nat_Itoa a @ ?rest1"
    using assms(1) by (subst takeWhile_digits(2)) (auto simp: comp_def)
  moreover have "takeWhile char_digit (nat_Itoa a @ ?rest1) = nat_Itoa a"
    "dropWhile char_digit (nat_Itoa a @ ?rest1) = ?rest1"
    using takeWhile_digits [OF nat_Itoa_digits, of ?rest1 a] dot by simp_all
  moreover have "semver_group ?rest1 = (''.'' @ nat_Itoa b, ?rest2)"
    using semver_group_number [of ?rest2 b] dot by simp
  moreover have "semver_group ?rest2 = (''.'' @ nat_Itoa c, suf)"
    using semver_group_number [OF assms(2)] by simp
  ultimately show ?thesis
    by (simp only: semverLike_FindString_def version_text_def Let_def prod.case append_assoc) simp
qed

lemma no_dot_Itoa: "CHR ''.'' \<notin> set (nat_Itoa n)"
  using nat_Itoa_digits [of n] digit_not_dot by (auto simp: list_all_iff)

lemma extractSemver3_version:
  assumes "list_all (\<lambda>c. \<not> char_digit c) pre" and "suf = [] \<or> \<not> char_digit (hd suf)"
    and "a < 2 ^ 63" and "b < 2 ^ 63" and "c < 2 ^ 63"
  shows "extractSemver3 (pre @ version_text (a, b, c) @ suf) = Some [int a, int b, int c]"
proof -
  have "strings_Split (version_text (a, b, c)) (CHR ''.'') = [nat_Itoa a, nat_Itoa b, nat_Itoa c]"
    by (simp add: version_text_def strings_Split_append strings_Split_no_sep no_dot_Itoa)
  moreover have "version_text (a, b, c) \<noteq> []" by (simp add: version_text_def)
  moreover have "strconv_Atoi (nat_Itoa n) = Some (int n)" if "n < 2 ^ 63" for n
    using strconv_Atoi_nat_Itoa [of n] that by simp
  ultimately show ?thesis
    using assms(3-5) by (simp add: extractSemver3_def semverLike_FindString_version [OF assms(1,2)] Let_def)
qed

text \<open>C29. Version comparison is the numeric lexicographic order: for two version texts that contain
  the numbers \<open>a.b.c\<close> and \<open>a'.b'.c'\<close>, in any surroundings without other digits before, the first
  is newer exactly when \<open>(a, b, c)\<close> is lexicographically greater (so \<open>1.10.0\<close> is newer than
  \<open>1.9.0\<close>, and no version is newer than itself).\<close>

theorem isNewerVersion_lexicographic:
  assumes "list_all (\<lambda>x. \<not> char_digit x) pre" and "suf = [] \<or> \<not> char_digit (hd suf)"
    and "list_all (\<lambda>x. \<not> char_digit x) pre'" and "suf' = [] \<or> \<not> char_digit (hd suf')"
    and "a < 2 ^ 63" and "b < 2 ^ 63" and "c < 2 ^ 63"
    and "a' < 2 ^ 63" and "b' < 2 ^ 63" and "c' < 2 ^ 63"
  shows "isNewerVersion (pre @ version_text (a, b, c) @ suf) (pre' @ version_text (a', b', c') @ suf') \<longleftrightarrow>
    a' < a \<or> a' = a \<and> (b' < b \<or> b' = b \<and> c' < c)"
  by (auto simp: isNewerVersion_def extractSemver3_version [OF assms(1,2,5-7)]
      extractSemver3_version [OF assms(3,4,8-10)])

theorem isNewerVersion_lexicographic_witness:
  "isNewerVersion ''v1.10.0 / build:7'' ''1.9.3'' \<and> \<not> isNewerVersion ''1.9.3'' ''v1.10.0 / build:7''"
proof -
  have t: "version_text (1, 10, 0) = ''1.10.0''" "version_text (1, 9, 3) = ''1.9.3''"
    by (simp_all add: version_text_def nat_Itoa.simps digit_char_def)
  have sp: "\<not> char_digit (CHR ''v'')" "\<not> char_digit (CHR '' '')" by (simp_all add: char_digit_def)
  have "isNewerVersion (''v'' @ version_text (1, 10, 0) @ '' / build:7'') ([] @ version_text (1, 9, 3) @ [])"
    by (subst isNewerVersion_lexicographic) (simp_all add: sp)
  moreover have "\<not> isNewerVersion ([] @ version_text (1, 9, 3) @ []) (''v'' @ version_text (1, 10, 0) @ '' / build:7'')"
    by (subst isNewerVersion_lexicographic) (simp_all add: sp)
  ultimately show ?thesis unfolding t by simp
qed

text \<open>
  Versions as a linear order: a triple of numbers, compared from the left. A text that \<open>extractSemver3\<close>
  takes apart has one, and on these texts \<open>isNewerVersion\<close> is the order.
\<close>

datatype semver = SemVer (sv_major: int) (sv_minor: int) (sv_patch: int)

instantiation semver :: linorder
begin

definition less_semver :: "semver \<Rightarrow> semver \<Rightarrow> bool" where
  "less_semver v w \<longleftrightarrow> sv_major v < sv_major w \<or> sv_major v = sv_major w \<and>
     (sv_minor v < sv_minor w \<or> sv_minor v = sv_minor w \<and> sv_patch v < sv_patch w)"

definition less_eq_semver :: "semver \<Rightarrow> semver \<Rightarrow> bool" where
  "less_eq_semver v w \<longleftrightarrow> v < w \<or> v = w"

instance
  by standard (auto simp: less_semver_def less_eq_semver_def intro: semver.expand)

end

definition semver_of :: "string \<Rightarrow> semver option" where
  "semver_of v = map_option (\<lambda>ns. SemVer (ns ! 0) (ns ! 1) (ns ! 2)) (extractSemver3 v)"

lemma isNewerVersion_order:
  assumes "semver_of target = Some v" and "semver_of current = Some w"
  shows "isNewerVersion target current \<longleftrightarrow> w < v"
  using assms by (auto simp: semver_of_def isNewerVersion_def less_semver_def)

text \<open>
  So an agent cannot be moved back and forth between versions that can be compared: newer is transitive,
  and of two such versions at most one is newer.
\<close>

lemma isNewerVersion_trans:
  assumes "semver_of u \<noteq> None" "semver_of v \<noteq> None" "semver_of w \<noteq> None"
    and "isNewerVersion u v" "isNewerVersion v w"
  shows "isNewerVersion u w \<and> \<not> isNewerVersion w u"
  using assms isNewerVersion_order by fastforce

text \<open>Versions without numbers have no order: of two different ones each is newer than the other.\<close>

lemma isNewerVersion_unparsed:
  assumes "semver_of u = None" and "u \<noteq> []" and "v \<noteq> []" and "u \<noteq> v"
  shows "isNewerVersion u v \<and> isNewerVersion v u"
  using assms by (auto simp: semver_of_def isNewerVersion_def split: option.splits)

subsection \<open>Staging and applying\<close>

lemma decode_encode_StagedUpdate: "decode_StagedUpdate (encode_StagedUpdate m) = Some m"
  by (cases m) (simp add: decode_StagedUpdate_def encode_StagedUpdate_def decode_struct_def staged_fields_def
      set_staged_field_def)

lemma staged_path_not_meta: "stagedPath cfg v \<noteq> pendingMetaPath cfg"
  by (simp add: stagedPath_def pendingMetaPath_def filepath_Join_inj)

text \<open>What a metadata file promises about the binary it names.\<close>

definition staged_ok :: "upd_env \<Rightarrow> Config \<Rightarrow> StagedUpdate \<Rightarrow> fs \<Rightarrow> bool" where
  "staged_ok env cfg m s \<longleftrightarrow>
     (stg_Force m \<or> isNewerVersion (stg_Version m) (agt_Version (cfg_Agent cfg))) \<and>
     (case s (stg_FilePath m) of None \<Rightarrow> False | Some d \<Rightarrow> hash_matches (ue_sha env) (stg_Hash m) d)"

lemma staged_meta_simps [simp]:
  "stg_Version (staged_meta env cfg hb) = jstring hb ''latest_agent_version''"
  "stg_FilePath (staged_meta env cfg hb) = stagedPath cfg (jstring hb ''latest_agent_version'')"
  "stg_Hash (staged_meta env cfg hb) = jstring hb ''agent_hash''"
  "stg_Force (staged_meta env cfg hb) = update_mode_force hb"
  by (simp_all add: staged_meta_def Let_def)

text \<open>When the server's configuration calls for an update.\<close>

definition update_offered :: "Config \<Rightarrow> payload \<Rightarrow> bool" where
  "update_offered cfg hb \<longleftrightarrow>
     jstring hb ''latest_agent_version'' \<noteq> [] \<and> jstring hb ''agent_download_url'' \<noteq> [] \<and> jstring hb ''agent_hash'' \<noteq> [] \<and>
     (update_mode_force hb \<or> isNewerVersion (jstring hb ''latest_agent_version'') (agt_Version (cfg_Agent cfg)))"

lemma StageIfNeeded_idle: "\<not> update_offered cfg hb \<Longrightarrow> StageIfNeeded env cfg hb s = (None, s)"
  by (auto simp: StageIfNeeded_def update_offered_def Let_def)

lemma StageIfNeeded_offered:
  assumes "update_offered cfg hb"
  shows "StageIfNeeded env cfg hb s =
     (case os_MkdirAll (ue_orc env) (dlc_TempDir (cfg_Download cfg)) of
        Some err \<Rightarrow> (Some err, s)
      | None \<Rightarrow>
          case DownloadFileWithMeta (ue_dl env) (resolveUpdateURL cfg (jstring hb ''agent_download_url''))
                (stagedPath cfg (jstring hb ''latest_agent_version''))
                (dlc_BandwidthLimitKBs (cfg_Download cfg)) (agt_UUID (cfg_Agent cfg)) (agt_SecretKey (cfg_Agent cfg)) s of
            (Inl err, s1) \<Rightarrow> (Some (GoWrap ''update download failed'' err), s1)
          | (Inr _, s1) \<Rightarrow> recordStaged env cfg (staged_meta env cfg hb) s1)"
proof -
  have "\<not> (jstring hb ''latest_agent_version'' = [] \<or> jstring hb ''agent_download_url'' = [] \<or> jstring hb ''agent_hash'' = [])"
    and "\<not> (\<not> update_mode_force hb \<and> \<not> isNewerVersion (jstring hb ''latest_agent_version'') (agt_Version (cfg_Agent cfg)))"
    using assms by (simp_all add: update_offered_def)
  then show ?thesis unfolding StageIfNeeded_def Let_def by (simp only: if_False)
qed

lemma recordStaged_ok:
  assumes "recordStaged env cfg m s1 = (None, s2)"
  shows "s2 = s1(pendingMetaPath cfg \<mapsto> ue_json_text env (encode_StagedUpdate m)) \<and>
     (\<exists>d. s1 (stg_FilePath m) = Some d \<and> hash_matches (ue_sha env) (stg_Hash m) d)"
proof -
  have "VerifyFileHash (ue_sha env) (ue_orc env) (stg_FilePath m) (stg_Hash m) s1 = Inr True"
    using assms by (auto simp: recordStaged_def split: sum.splits if_splits)
  moreover from this obtain d where "s1 (stg_FilePath m) = Some d" "hash_matches (ue_sha env) (stg_Hash m) d"
    by (blast dest: VerifyFileHash_True)
  moreover have "s2 = s1(pendingMetaPath cfg \<mapsto> ue_json_text env (encode_StagedUpdate m))"
    using assms calculation(1)
      os_WriteFile_ok [of "ue_orc env" "pendingMetaPath cfg" "ue_json_text env (encode_StagedUpdate m)" s1]
    by (auto simp: recordStaged_def split: prod.splits option.splits)
  ultimately show ?thesis by blast
qed

lemma recordStaged_failed:
  assumes "recordStaged env cfg m s1 = (Some err, s2)"
  shows "(\<forall>q. q \<noteq> stg_FilePath m \<and> q \<noteq> pendingMetaPath cfg \<longrightarrow> s2 q = s1 q) \<and>
    (stg_FilePath m \<noteq> pendingMetaPath cfg \<longrightarrow> s2 (pendingMetaPath cfg) = s1 (pendingMetaPath cfg) \<or>
      (\<exists>e. err = GoWrap ''write pending update metadata'' e))"
  using assms osfs.remove_frame [of _ "stg_FilePath m" "ue_orc env" s1]
    os_WriteFile_frame [of _ "pendingMetaPath cfg" "ue_orc env" "ue_json_text env (encode_StagedUpdate m)" s1]
  by (auto simp: recordStaged_def split: sum.splits if_splits prod.splits option.splits)

text \<open>C3. Staging is verified: when \<open>StageIfNeeded\<close> returns no error, either the server's configuration
  calls for no update and no file changed, or the metadata file now describes the offered version
  and the binary it names is on disk with exactly the announced hash; the version is newer than the
  running one unless the server forced it. No other file changed. On an error the metadata is as
  before, unless writing it is what failed.\<close>

theorem StageIfNeeded_verified:
  assumes "StageIfNeeded env cfg hb s = (err, s')"
  shows "(\<forall>q. q \<noteq> stagedPath cfg (jstring hb ''latest_agent_version'') \<and> q \<noteq> pendingMetaPath cfg \<longrightarrow> s' q = s q) \<and>
    (case err of
       None \<Rightarrow>
         if update_offered cfg hb
         then s' (pendingMetaPath cfg) = Some (ue_json_text env (encode_StagedUpdate (staged_meta env cfg hb))) \<and>
              staged_ok env cfg (staged_meta env cfg hb) s'
         else s' = s
     | Some e \<Rightarrow> s' (pendingMetaPath cfg) = s (pendingMetaPath cfg) \<or>
         (\<exists>e'. e = GoWrap ''write pending update metadata'' e'))"
proof (cases "update_offered cfg hb")
  case False
  with assms StageIfNeeded_idle [OF False, of env s] show ?thesis by auto
next
  case True
  let ?p = "stagedPath cfg (jstring hb ''latest_agent_version'')" and ?m = "staged_meta env cfg hb"
  obtain r s1 where dl: "DownloadFileWithMeta (ue_dl env) (resolveUpdateURL cfg (jstring hb ''agent_download_url'')) ?p
      (dlc_BandwidthLimitKBs (cfg_Download cfg)) (agt_UUID (cfg_Agent cfg)) (agt_SecretKey (cfg_Agent cfg)) s = (r, s1)"
    by fastforce
  have frame: "s1 q = s q" if "q \<noteq> ?p" for q
    using DownloadFileWithMeta_frame [OF that] dl by (metis snd_conv)
  note ne = staged_path_not_meta [of cfg "jstring hb ''latest_agent_version''"]
  have outcome: "(\<exists>e. os_MkdirAll (ue_orc env) (dlc_TempDir (cfg_Download cfg)) = Some e \<and> err = Some e \<and> s' = s) \<or>
      (\<exists>e. err = Some e \<and> s' = s1) \<or> recordStaged env cfg ?m s1 = (err, s')"
    using assms dl StageIfNeeded_offered [OF True, of env s] by (auto split: option.splits sum.splits)
  show ?thesis
  proof (cases "recordStaged env cfg ?m s1 = (err, s')")
    case False
    with outcome frame [of "pendingMetaPath cfg"] frame ne show ?thesis by auto
  next
    case rec: True
    show ?thesis
    proof (cases err)
      case None
      note ok = recordStaged_ok [OF rec [unfolded None]]
      then have "s' q = s q" if "q \<noteq> ?p" "q \<noteq> pendingMetaPath cfg" for q
        using that frame by simp
      with ok True ne None show ?thesis
        by (auto simp: staged_ok_def update_offered_def)
    next
      case (Some e)
      with recordStaged_failed [OF rec [unfolded Some]] ne frame [of "pendingMetaPath cfg"] frame
      show ?thesis by auto
    qed
  qed
qed

lemma applyIfPending_started:
  assumes "applyIfPending env cfg cfgPath exe s = (err, started)"
  obtains (no) "started = []" and "err \<noteq> Some ErrUpdateRestart"
  | (yes) m where "err = Some ErrUpdateRestart" and "upc_AutoApply (cfg_Update cfg)"
      and "loadStagedUpdate env (pendingMetaPath cfg) s = Inr m" and "staged_ok env cfg m s"
      and "started = [(upc_HelperPath (cfg_Update cfg), helper_args cfg cfgPath exe m)]"
      and "upc_HelperPath (cfg_Update cfg) \<noteq> []" and "exe \<noteq> []"
proof (cases "loadStagedUpdate env (pendingMetaPath cfg) s")
  case (Inl e)
  with assms show thesis by (intro no) (auto simp: applyIfPending_def split: if_splits)
next
  case (Inr m)
  show thesis
  proof (cases "VerifyFileHash (ue_sha env) (ue_orc env) (stg_FilePath m) (stg_Hash m) s")
    case (Inl e)
    with assms Inr show thesis by (intro no) (auto simp: applyIfPending_def split: if_splits)
  next
    case v: (Inr valid)
    have ok: "staged_ok env cfg m s"
      if "valid" "stg_Force m \<or> isNewerVersion (stg_Version m) (agt_Version (cfg_Agent cfg))"
      using v that VerifyFileHash_True by (fastforce simp: staged_ok_def)
    show thesis
    proof (cases "started = []")
      case True
      with assms Inr v show thesis
        by (intro no) (auto simp: applyIfPending_def Let_def split: if_splits option.splits)
    next
      case False
      with assms Inr v ok show thesis
        by (intro yes [of m]) (auto simp: applyIfPending_def Let_def split: if_splits option.splits)
    qed
  qed
qed

text \<open>C2. The update helper is started only for a verified update: \<open>applyIfPending\<close> starts at most one
  process, does so exactly when it returns the restart error, and then automatic updates are on,
  the metadata file is valid, the version is newer or forced, and the binary on disk has the hash.\<close>

theorem applyIfPending_verified:
  assumes "applyIfPending env cfg cfgPath exe s = (err, started)"
  shows "(started \<noteq> [] \<longleftrightarrow> err = Some ErrUpdateRestart) \<and>
    (started \<noteq> [] \<longrightarrow> upc_AutoApply (cfg_Update cfg) \<and>
      (\<exists>m. loadStagedUpdate env (pendingMetaPath cfg) s = Inr m \<and> staged_ok env cfg m s \<and>
        started = [(upc_HelperPath (cfg_Update cfg), helper_args cfg cfgPath exe m)] \<and>
        upc_HelperPath (cfg_Update cfg) \<noteq> [] \<and> exe \<noteq> []))"
  using assms by (cases rule: applyIfPending_started) auto

text \<open>What is staged gets applied: after \<open>StageIfNeeded\<close> staged an offered update without an error, a
  call of \<open>applyIfPending\<close> that meets no I/O fault, with automatic updates, a helper and the service's
  path configured, starts the helper on exactly the staged binary and asks for the restart.\<close>

theorem staged_update_applies:
  assumes "StageIfNeeded env cfg hb s = (None, s')" and "update_offered cfg hb"
    and "ue_json_parse env (ue_json_text env (encode_StagedUpdate (staged_meta env cfg hb))) =
           Inr (encode_StagedUpdate (staged_meta env cfg hb))"
    and "upc_AutoApply (cfg_Update cfg)" and "upc_HelperPath (cfg_Update cfg) \<noteq> []" and "exe \<noteq> []"
    and "ue_Start env (upc_HelperPath (cfg_Update cfg)) (helper_args cfg cfgPath exe (staged_meta env cfg hb)) = None"
  shows "applyIfPending (env\<lparr>ue_orc := no_faults\<rparr>) cfg cfgPath exe s' =
    (Some ErrUpdateRestart, [(upc_HelperPath (cfg_Update cfg), helper_args cfg cfgPath exe (staged_meta env cfg hb))])"
proof -
  let ?m = "staged_meta env cfg hb" and ?p = "stagedPath cfg (jstring hb ''latest_agent_version'')"
  obtain r s1 where "DownloadFileWithMeta (ue_dl env) (resolveUpdateURL cfg (jstring hb ''agent_download_url'')) ?p
      (dlc_BandwidthLimitKBs (cfg_Download cfg)) (agt_UUID (cfg_Agent cfg)) (agt_SecretKey (cfg_Agent cfg)) s = (r, s1)"
    by fastforce
  then have "recordStaged env cfg ?m s1 = (None, s')"
    using assms(1) StageIfNeeded_offered [OF assms(2), of env s] by (auto split: option.splits sum.splits)
  from recordStaged_ok [OF this] obtain d where
    s': "s' = s1(pendingMetaPath cfg \<mapsto> ue_json_text env (encode_StagedUpdate ?m))"
    and d: "s1 ?p = Some d" "hash_matches (ue_sha env) (stg_Hash ?m) d" by auto
  have "s' ?p = Some d" using d(1) staged_path_not_meta [of cfg "jstring hb ''latest_agent_version''"] s' by simp
  then have v: "VerifyFileHash (ue_sha env) no_faults ?p (stg_Hash ?m) s' = Inr True"
    using d(2) by (simp add: VerifyFileHash_no_faults)
  have "stg_FilePath ?m \<noteq> []" by (simp add: stagedPath_def filepath_Join_def)
  then have "loadStagedUpdate (env\<lparr>ue_orc := no_faults\<rparr>) (pendingMetaPath cfg) s' = Inr ?m"
    using assms(2,3) s'
    by (simp add: loadStagedUpdate_def os_defs decode_encode_StagedUpdate update_offered_def)
  moreover have "os_Stat no_faults (pendingMetaPath cfg) s' = None" by (simp add: s' os_defs)
  moreover have "stg_Force ?m \<or> isNewerVersion (stg_Version ?m) (agt_Version (cfg_Agent cfg))"
    using assms(2) by (simp add: update_offered_def)
  ultimately show ?thesis
    using assms(4-7) v by (simp add: applyIfPending_def Let_def)
qed

subsection \<open>An example\<close>

definition sample_update_config :: Config where
  "sample_update_config = Default\<lparr>cfg_Agent := \<lparr>agt_Version = ''1.9.0'', agt_UUID = ''u'', agt_SecretKey = ''k''\<rparr>\<rparr>"

definition sample_update_offer :: payload where
  "sample_update_offer = [(''latest_agent_version'', JStr ''1.10.0''), (''agent_download_url'', JStr ''/agent.exe''),
     (''agent_hash'', JStr ''sha256:new'')]"

definition sample_upd :: upd_env where
  "sample_upd =
     (let env = \<lparr>ue_orc = no_faults, ue_dl = sample_dl ''NEW'', ue_sha = strings_ToLower,
        ue_json_text = (\<lambda>_. ''META''), ue_json_parse = (\<lambda>_. Inl (GoErr ''json'')), ue_now = ''now'', ue_Start = (\<lambda>_ _. None)\<rparr>
      in env\<lparr>ue_json_parse := (\<lambda>_. Inr (encode_StagedUpdate (staged_meta env sample_update_config sample_update_offer)))\<rparr>)"

lemma sample_offered: "update_offered sample_update_config sample_update_offer"
proof -
  have t: "''1.10.0'' = [] @ version_text (1, 10, 0) @ []" "''1.9.0'' = [] @ version_text (1, 9, 0) @ []"
    by (simp_all add: version_text_def nat_Itoa.simps digit_char_def)
  have "isNewerVersion ''1.10.0'' ''1.9.0''"
    unfolding t isNewerVersion_def using extractSemver3_version [of "[]" "[]" 1 10 0] extractSemver3_version [of "[]" "[]" 1 9 0]
    by simp
  then show ?thesis
    by (simp add: update_offered_def sample_update_offer_def sample_update_config_def jstring_def jget_any_def)
qed

lemma sample_download:
  "\<exists>r. DownloadFileWithMeta (sample_dl ''NEW'') url p 1024 u k Map.empty = (Inr r, [p \<mapsto> ''NEW''])"
proof -
  have off: "resume_offset no_faults p Map.empty = 0" by (simp add: resume_offset_def)
  have srv: "dl_server (sample_dl ''NEW'') (download_request url 0 u k) =
      Inr \<lparr>rs_StatusCode = 200, rs_Status = ''200 OK'', rs_Header = [], rs_Body = ''NEW'', rs_BodyErr = None\<rparr>"
    by (simp add: sample_dl_def range_server_start)
  have orc: "dl_orc (sample_dl ''NEW'') = no_faults" by (simp add: sample_dl_def)
  show ?thesis
    unfolding DownloadFileWithMeta_def Let_def orc off srv
    by (simp add: saveBody_def Let_def sample_dl_def no_faults_def disk_room_def sample_reads_single
        limitedRead_def sample_waitN_def)
qed

lemma sample_staged:
  "\<exists>s'. StageIfNeeded sample_upd sample_update_config sample_update_offer Map.empty = (None, s')"
proof -
  let ?p = "stagedPath sample_update_config ''1.10.0''"
  have v: "jstring sample_update_offer ''latest_agent_version'' = ''1.10.0''" "jstring sample_update_offer ''agent_hash'' = ''sha256:new''"
    by (simp_all add: sample_update_offer_def jstring_def jget_any_def)
  have lim: "dlc_BandwidthLimitKBs (cfg_Download sample_update_config) = 1024"
    by (simp add: sample_update_config_def Default_def)
  have env: "ue_dl sample_upd = sample_dl ''NEW''" "ue_orc sample_upd = no_faults" "ue_sha sample_upd = strings_ToLower"
    by (simp_all add: sample_upd_def Let_def)
  obtain r where dl: "DownloadFileWithMeta (sample_dl ''NEW'')
      (resolveUpdateURL sample_update_config (jstring sample_update_offer ''agent_download_url'')) ?p 1024
      (agt_UUID (cfg_Agent sample_update_config)) (agt_SecretKey (cfg_Agent sample_update_config)) Map.empty =
      (Inr r, [?p \<mapsto> ''NEW''])" using sample_download by blast
  have h: "hash_matches strings_ToLower ''sha256:new'' ''NEW''"
    by (simp add: hash_matches_def strings_ToLower_def strings_TrimPrefix_def char_lower_def char_upper_def)
  have "recordStaged sample_upd sample_update_config (staged_meta sample_upd sample_update_config sample_update_offer) [?p \<mapsto> ''NEW''] =
      (None, [?p \<mapsto> ''NEW''](pendingMetaPath sample_update_config \<mapsto> ''META''))"
    using h by (simp add: recordStaged_def v env VerifyFileHash_no_faults)
      (simp add: os_defs sample_upd_def Let_def)
  then show ?thesis
    unfolding StageIfNeeded_offered [OF sample_offered] env lim v dl by (simp add: os_defs)
qed

theorem StageIfNeeded_verified_witness:
  "\<exists>s'. StageIfNeeded sample_upd sample_update_config sample_update_offer Map.empty = (None, s') \<and>
     staged_ok sample_upd sample_update_config (staged_meta sample_upd sample_update_config sample_update_offer) s'"
proof -
  obtain s' where st: "StageIfNeeded sample_upd sample_update_config sample_update_offer Map.empty = (None, s')"
    using sample_staged by blast
  from StageIfNeeded_verified [OF st] st show ?thesis by (auto simp: sample_offered)
qed

lemma sample_applies:
  assumes "StageIfNeeded sample_upd sample_update_config sample_update_offer Map.empty = (None, s')"
  shows "ue_json_parse sample_upd (ue_json_text sample_upd
           (encode_StagedUpdate (staged_meta sample_upd sample_update_config sample_update_offer))) =
         Inr (encode_StagedUpdate (staged_meta sample_upd sample_update_config sample_update_offer))"
    and "upc_AutoApply (cfg_Update sample_update_config)"
    and "upc_HelperPath (cfg_Update sample_update_config) \<noteq> []"
    and "ue_Start sample_upd h args = None"
  by (simp_all add: sample_upd_def Let_def staged_meta_def sample_update_config_def Default_def)

theorem staged_update_applies_witness:
  "\<exists>s' args. StageIfNeeded sample_upd sample_update_config sample_update_offer Map.empty = (None, s') \<and>
     applyIfPending (sample_upd\<lparr>ue_orc := no_faults\<rparr>) sample_update_config ''c.yaml'' ''svc.exe'' s' =
       (Some ErrUpdateRestart, [(upc_HelperPath (cfg_Update sample_update_config), args)])"
proof -
  obtain s' where st: "StageIfNeeded sample_upd sample_update_config sample_update_offer Map.empty = (None, s')"
    using sample_staged by blast
  note sm = sample_applies [OF st]
  have exe: "''svc.exe'' \<noteq> []" by simp
  from staged_update_applies [OF st sample_offered sm(1-3) exe sm(4)] st show ?thesis by blast
qed

theorem applyIfPending_verified_witness:
  "fst (applyIfPending sample_upd sample_update_config ''c'' ''svc'' Map.empty) \<noteq> Some ErrUpdateRestart \<and>
   snd (applyIfPending sample_upd sample_update_config ''c'' ''svc'' Map.empty) = []"
proof -
  obtain err st where ap: "applyIfPending sample_upd sample_update_config ''c'' ''svc'' Map.empty = (err, st)" by fastforce
  have "st = []" using ap by (simp add: applyIfPending_def os_defs sample_upd_def Let_def split: if_splits)
  with applyIfPending_verified [OF ap] ap show ?thesis by simp
qed

end
