(* ===== verification/Payloads.thy ===== *)
theory Payloads
  imports Api Updater Go_Containers
begin

section \<open>Reading the server's payloads (\<open>cmd/service/core.go\<close>)\<close>

text \<open>
  The functions of the service that take a decoded JSON object apart. A payload is an arbitrary
  \<open>map[string]any\<close>; each function gives nothing, or a default, for one of another shape.
\<close>

definition payload_or :: "payload \<Rightarrow> string \<Rightarrow> json \<Rightarrow> json" where
  "payload_or p key other = (if jget_any p key = JNull then other else jget_any p key)"

text \<open>\<open>json.Marshal\<close> of a decoded value followed by \<open>json.Unmarshal\<close> is \<open>json_Remarshal\<close> and decoding.\<close>

definition parseCommandsFromPayload :: "payload \<Rightarrow> Command list" where
  "parseCommandsFromPayload p =
     (if p = [] then []
      else
        let commandsRaw = payload_or p ''commands'' (jget_any p ''pending_commands'') in
        if commandsRaw = JNull then []
        else case decode_slice decode_Command (json_Remarshal commandsRaw) of None \<Rightarrow> [] | Some cs \<Rightarrow> cs)"

definition parseRSRequestFromPayload :: "payload \<Rightarrow> RemoteSupportRequest option" where
  "parseRSRequestFromPayload p =
     (if p = [] then None
      else
        let raw = payload_or p ''remote_support_request'' (payload_or p ''pending_rs_request'' (JObj p)) in
        case decode_RemoteSupportRequest (json_Remarshal raw) of
          None \<Rightarrow> None
        | Some req \<Rightarrow> if rq_SessionID req \<le> 0 then None else Some req)"

definition parseRSEndFromPayload :: "payload \<Rightarrow> RemoteSupportEnd option" where
  "parseRSEndFromPayload p =
     (if p = [] then None
      else
        let raw = payload_or p ''remote_support_end'' (payload_or p ''pending_rs_end'' (JObj p)) in
        case decode_RemoteSupportEnd (json_Remarshal raw) of
          None \<Rightarrow> None
        | Some e \<Rightarrow> if end_SessionID e \<le> 0 then None else Some e)"

definition configInt :: "payload \<Rightarrow> string \<Rightarrow> int \<Rightarrow> int" where
  "configInt m key def =
     (case jget_any m key of
        JNum f \<Rightarrow> f64_to_int f
      | JStr s \<Rightarrow> (case strconv_Atoi (strings_TrimSpace s) of Some n \<Rightarrow> n | None \<Rightarrow> def)
      | _ \<Rightarrow> def)"

definition runtimeUpdateBaseURL :: "string \<Rightarrow> string" where
  "runtimeUpdateBaseURL serverURL =
     strings_TrimRight (strings_TrimSpace serverURL) ''/'' @ ''/uploads/agent_runtime''"

text \<open>\<open>GOOS\<close> of the build is \<open>windows\<close>.\<close>

definition isPayloadForCurrentPlatform :: "payload \<Rightarrow> bool" where
  "isPayloadForCurrentPlatform p =
     (let target = strings_TrimSpace (strings_ToLower (jstring p ''platform''))
      in if target = [] then True else target = strings_ToLower ''windows'')"

definition self_update_keys :: "string list" where
  "self_update_keys = [''latest_agent_version'', ''agent_download_url'', ''agent_hash'', ''mode'']"

definition extractSelfUpdateChanges :: "payload \<Rightarrow> payload" where
  "extractSelfUpdateChanges p =
     (let p = (case as_map (jget_any p ''changes'') of
                 Some wrapped \<Rightarrow> if wrapped \<noteq> [] then wrapped else p | None \<Rightarrow> p)
      in List.map_filter (\<lambda>k. map_option (\<lambda>v. (k, v)) (jget p k)) self_update_keys)"

definition restart_reason :: "payload \<Rightarrow> string" where
  "restart_reason p =
     (let reason = strings_TrimSpace (jstring p ''reason'') in if reason = [] then ''ws-broadcast'' else reason)"

subsection \<open>What they promise\<close>

text \<open>Writing and reading back a value changes nothing but the order of the keys of its objects.\<close>

lemma jget_perm:
  assumes "distinct (map fst m)" and "mset m' = mset m"
  shows "jget m' = jget m"
proof -
  have "set m' = set m" using assms(2) by (metis set_mset_mset)
  moreover have "distinct (map fst m')" using assms by (metis mset_eq_imp_distinct_iff mset_map)
  ultimately have "map_of m' = map_of m" using assms(1) by (metis map_of_inject_set)
  then show ?thesis by (simp add: jget_def fun_eq_iff)
qed

lemma map_of_map_snd: "map_of (map (\<lambda>(k, v). (k, f v)) m) k = map_option f (map_of m k)"
  by (induction m) auto

lemma Remarshal_jget:
  assumes "distinct (map fst m)" and "json_Remarshal (JObj m) = JObj m'"
  shows "jget m' k = map_option json_Remarshal (jget m k)"
proof -
  let ?m = "map (\<lambda>(k, v). (k, json_Remarshal v)) m"
  have keys: "map fst ?m = map fst m" by (induction m) auto
  have m': "m' = sort_key fst ?m" using assms(2) by simp
  have "jget m' = jget ?m" using assms(1) keys by (intro jget_perm) (simp_all only: m' mset_sort)
  then show ?thesis by (simp add: jget_def map_of_map_snd)
qed

lemma map_of_self_update:
  "map_of (List.map_filter (\<lambda>k. map_option (\<lambda>v. (k, v)) (f k)) ks) k = (if k \<in> set ks then f k else None)"
  by (induction ks) (auto simp: List.map_filter_simps split: option.splits)

lemma extractSelfUpdateChanges_get:
  assumes "as_map (jget_any p ''changes'') = None \<or> as_map (jget_any p ''changes'') = Some []"
  shows "jget (extractSelfUpdateChanges p) k = (if k \<in> set self_update_keys then jget p k else None)"
proof -
  have "extractSelfUpdateChanges p = List.map_filter (\<lambda>k. map_option (\<lambda>v. (k, v)) (jget p k)) self_update_keys"
    using assms unfolding extractSelfUpdateChanges_def Let_def by (elim disjE) simp_all
  then show ?thesis by (simp only: jget_def map_of_self_update)
qed

text \<open>A session is asked for, or ended, only with a positive identifier.\<close>

lemma parseRS_positive:
  "parseRSRequestFromPayload p = Some req \<Longrightarrow> 0 < rq_SessionID req"
  "parseRSEndFromPayload p = Some e \<Longrightarrow> 0 < end_SessionID e"
  by (auto simp: parseRSRequestFromPayload_def parseRSEndFromPayload_def Let_def split: if_splits option.splits)

text \<open>A pushed self-update stages what a heartbeat with the same data would: for a payload without a
  wrapping \<open>changes\<close> object, \<open>StageIfNeeded\<close> does the same with the extracted keys as with the whole
  payload, on every file system and under every failure.\<close>

theorem pushed_update_stages_the_same:
  assumes "as_map (jget_any p ''changes'') = None"
  shows "StageIfNeeded env cfg (extractSelfUpdateChanges p) s = StageIfNeeded env cfg p s"
proof -
  have "jget_any (extractSelfUpdateChanges p) k = jget_any p k" if "k \<in> set self_update_keys" for k
    using extractSelfUpdateChanges_get [of p k] assms that by (simp add: jget_any_def jget_def)
  then have str: "jstring (extractSelfUpdateChanges p) k = jstring p k" if "k \<in> set self_update_keys" for k
    using that by (simp add: jstring_def)
  have keys: "''latest_agent_version'' \<in> set self_update_keys" "''agent_download_url'' \<in> set self_update_keys"
    "''agent_hash'' \<in> set self_update_keys" "''mode'' \<in> set self_update_keys"
    by (simp_all add: self_update_keys_def)
  show ?thesis
    by (simp only: StageIfNeeded_def staged_meta_def update_mode_force_def str [OF keys(1)] str [OF keys(2)]
        str [OF keys(3)] str [OF keys(4)])
qed

theorem pushed_update_stages_the_same_witness:
  "\<forall>env cfg s. StageIfNeeded env cfg (extractSelfUpdateChanges [(''mode'', JStr ''force''), (''reason'', JStr ''x'')]) s =
   StageIfNeeded env cfg [(''mode'', JStr ''force''), (''reason'', JStr ''x'')] s"
  by (intro allI pushed_update_stages_the_same) (simp add: jget_any_def)

end
