(* ===== verification/Announcement.thy ===== *)
theory Announcement
  imports Json Go_Containers "HOL-Library.Word"
begin

section \<open>Announcements (\<open>internal/announcement\<close> and its use in \<open>cmd/service/core.go\<close>)\<close>

text \<open>
  The tracker of announcements that are on the screen, and the handling of one that the server
  pushes: it is tracked, and a goroutine of its own shows it in the sessions of the users, then
  acknowledges and forgets it. Showing does not wait for the users: the box is sent with \<open>bWait\<close>
  false, and whether any session got it is only logged.
\<close>

subsection \<open>The tracker\<close>

record PendingAnnouncement =
  pa_ID :: int
  pa_Title :: string
  pa_Message :: string
  pa_Priority :: string
  pa_ShownAt :: gotime

record Tracker =
  tr_pending :: "(int, PendingAnnouncement) gomap"

definition NewTracker :: Tracker where
  "NewTracker = \<lparr>tr_pending = []\<rparr>"

definition tracker_Add :: "gotime \<Rightarrow> int \<Rightarrow> string \<Rightarrow> string \<Rightarrow> string \<Rightarrow> Tracker \<Rightarrow> Tracker" where
  "tracker_Add now i title message priority t = t\<lparr>tr_pending := gm_put i
     \<lparr>pa_ID = i, pa_Title = title, pa_Message = message, pa_Priority = priority, pa_ShownAt = now\<rparr> (tr_pending t)\<rparr>"

definition tracker_Remove :: "int \<Rightarrow> Tracker \<Rightarrow> Tracker" where
  "tracker_Remove i t = t\<lparr>tr_pending := gm_del i (tr_pending t)\<rparr>"

definition GetCriticalPending :: "gotime \<Rightarrow> Tracker \<Rightarrow> PendingAnnouncement list" where
  "GetCriticalPending now t =
     (let threshold = time_Add now (- 5 * dur_minute)
      in filter (\<lambda>ann. pa_Priority ann = ''critical'' \<and> \<not> pa_ShownAt ann > threshold) (map snd (tr_pending t)))"

subsection \<open>The message box\<close>

text \<open>
  Sessions are identified by 32-bit words, flags are 32-bit words. \<open>enum\<close> is what
  \<open>WTSEnumerateSessionsW\<close> returns, sessions with their states, \<open>None\<close> when it fails; \<open>console\<close> is
  \<open>WTSGetActiveConsoleSessionId\<close>; \<open>send\<close> tells whether \<open>WTSSendMessageW\<close> works.
\<close>

type_synonym mb_flags = "32 word"

definition mbOK :: mb_flags where "mbOK = 0"
definition mbIconError :: mb_flags where "mbIconError = 0x10"
definition mbIconWarning :: mb_flags where "mbIconWarning = 0x30"
definition mbIconInfo :: mb_flags where "mbIconInfo = 0x40"
definition mbTopMost :: mb_flags where "mbTopMost = 0x40000"

definition iconFlags :: "string \<Rightarrow> mb_flags" where
  "iconFlags priority =
     (let p = strings_ToLower (strings_TrimSpace priority) in
      if p = ''critical'' then mbIconError
      else if p = ''important'' then mbIconWarning
      else mbIconInfo)"

definition console_session :: "32 word \<Rightarrow> 32 word list" where
  "console_session console = (if console \<noteq> 0xFFFFFFFF \<and> console \<noteq> 0 then [console] else [])"

definition getActiveSessions :: "(32 word \<times> 32 word) list option \<Rightarrow> 32 word \<Rightarrow> 32 word list" where
  "getActiveSessions enum console =
     (case enum of
        None \<Rightarrow> console_session console
      | Some infos \<Rightarrow>
          (let sessions = map fst (filter (\<lambda>(sid, state). sid \<noteq> 0 \<and> (state = 0 \<or> state = 1)) infos)
           in if sessions = [] then console_session console else sessions))"

text \<open>A text with a zero byte cannot be turned into UTF-16.\<close>

definition sendMessageToSession ::
    "(32 word \<Rightarrow> string \<Rightarrow> string \<Rightarrow> mb_flags \<Rightarrow> bool) \<Rightarrow> 32 word \<Rightarrow> string \<Rightarrow> string \<Rightarrow> mb_flags \<Rightarrow> bool" where
  "sendMessageToSession send sid title message style =
     (if CHR 0x00 \<in> set title \<or> CHR 0x00 \<in> set message then False else send sid title message style)"

text \<open>The sessions a box is shown in, with its texts and flags.\<close>

definition ShowMessageBox ::
    "(32 word \<times> 32 word) list option \<Rightarrow> 32 word \<Rightarrow> (32 word \<Rightarrow> string \<Rightarrow> string \<Rightarrow> mb_flags \<Rightarrow> bool) \<Rightarrow>
     string \<Rightarrow> string \<Rightarrow> string \<Rightarrow> (32 word \<times> string \<times> string \<times> mb_flags) list" where
  "ShowMessageBox enum console send title message priority =
     (let title = (if strings_TrimSpace title = [] then ''Announcement'' else title);
          message = (if strings_TrimSpace message = [] then '' '' else message);
          flags = or (or mbOK mbTopMost) (iconFlags priority)
      in map (\<lambda>sid. (sid, title, message, flags))
           (filter (\<lambda>sid. sendMessageToSession send sid title message flags) (getActiveSessions enum console)))"

lemma strings_TrimSpace_nil: "strings_TrimSpace [] = []"
  by (simp add: strings_TrimSpace_def)

text \<open>A box is never sent to session 0, which is that of the services, and never without a text.\<close>

lemma ShowMessageBox_sessions:
  assumes "(sid, title', message', flags) \<in> set (ShowMessageBox enum console send title message priority)"
  shows "sid \<noteq> 0 \<and> title' \<noteq> [] \<and> message' \<noteq> [] \<and> send sid title' message' flags"
  using assms strings_TrimSpace_nil
  by (auto simp: ShowMessageBox_def getActiveSessions_def console_session_def sendMessageToSession_def Let_def
      split: option.splits if_splits)

subsection \<open>A pushed announcement\<close>

text \<open>The payload is decoded JSON, so the identifier is a number, a string or something else.\<close>

definition parseAnnouncementID :: "json \<Rightarrow> int option" where
  "parseAnnouncementID v =
     (case v of
        JNum f \<Rightarrow> if f64_to_int f > 0 then Some (f64_to_int f) else None
      | JStr s \<Rightarrow> (case strconv_Atoi (strings_TrimSpace s) of
            None \<Rightarrow> None | Some i \<Rightarrow> if i \<le> 0 then None else Some i)
      | _ \<Rightarrow> None)"

text \<open>What is shown, if the payload is valid, and the tracker with it.\<close>

definition handleAnnouncementPush ::
    "gotime \<Rightarrow> payload \<Rightarrow> Tracker \<Rightarrow> (int \<times> string \<times> string \<times> string) option \<times> Tracker" where
  "handleAnnouncementPush now payload t =
     (if payload = [] then (None, t)
      else case parseAnnouncementID (jget_any payload ''announcement_id'') of
        None \<Rightarrow> (None, t)
      | Some i \<Rightarrow>
          let title = jstring payload ''title''; message = jstring payload ''message'';
              priority = (if strings_TrimSpace (jstring payload ''priority'') = [] then ''normal'' else jstring payload ''priority'')
          in (Some (i, title, message, priority), tracker_Add now i title message priority t))"

text \<open>The end of the goroutine: the event it sends when there is a WebSocket client, wherever the box
  was shown, and the removal.\<close>

definition finishAnnouncement :: "bool \<Rightarrow> int \<Rightarrow> Tracker \<Rightarrow> (string \<times> payload) list \<times> Tracker" where
  "finishAnnouncement hasClient i t =
     ((if hasClient then [(''agent.announcement.ack'', [(''announcement_id'', JNum (f64_of_int i))])] else []),
      tracker_Remove i t)"

definition processPendingAnnouncements ::
    "gotime \<Rightarrow> json \<Rightarrow> Tracker \<Rightarrow> (int \<times> string \<times> string \<times> string) list \<times> Tracker" where
  "processPendingAnnouncements now raw t =
     (case as_slice raw of
        None \<Rightarrow> ([], t)
      | Some items \<Rightarrow>
          fold (\<lambda>item (shown, t). case as_map item of
              None \<Rightarrow> (shown, t)
            | Some p \<Rightarrow> (case handleAnnouncementPush now p t of
                (None, t') \<Rightarrow> (shown, t') | (Some a, t') \<Rightarrow> (shown @ [a], t'))) items ([], t))"

subsection \<open>What the tracker promises\<close>

text \<open>
  The abstract tracker is the history of calls: an announcement is pending when the last call about
  it was \<open>Add\<close>. The map of the implementation refines it.
\<close>

datatype tracker_op = OpAdd gotime int string string string | OpRemove int

fun op_id :: "tracker_op \<Rightarrow> int" where
  "op_id (OpAdd now i title message priority) = i"
| "op_id (OpRemove i) = i"

fun tracker_apply :: "tracker_op \<Rightarrow> Tracker \<Rightarrow> Tracker" where
  "tracker_apply (OpAdd now i title message priority) t = tracker_Add now i title message priority t"
| "tracker_apply (OpRemove i) t = tracker_Remove i t"

fun op_pending :: "tracker_op \<Rightarrow> PendingAnnouncement option" where
  "op_pending (OpAdd now i title message priority) =
     Some \<lparr>pa_ID = i, pa_Title = title, pa_Message = message, pa_Priority = priority, pa_ShownAt = now\<rparr>"
| "op_pending (OpRemove i) = None"

definition last_op :: "tracker_op list \<Rightarrow> int \<Rightarrow> tracker_op option" where
  "last_op ops i = find (\<lambda>e. op_id e = i) (rev ops)"

definition pending_spec :: "tracker_op list \<Rightarrow> int \<Rightarrow> PendingAnnouncement option" where
  "pending_spec ops i = Option.bind (last_op ops i) op_pending"

lemma last_op_snoc: "last_op (ops @ [e]) i = (if op_id e = i then Some e else last_op ops i)"
  by (simp add: last_op_def)

lemma op_pending_id: "op_pending e = Some a \<Longrightarrow> pa_ID a = op_id e"
  by (cases e) auto

lemma tracker_refines:
  "gm_wf (tr_pending (fold tracker_apply ops NewTracker)) \<and>
   gm_get (tr_pending (fold tracker_apply ops NewTracker)) = pending_spec ops"
proof (induction ops rule: rev_induct)
  case Nil
  then show ?case by (simp add: NewTracker_def pending_spec_def last_op_def fun_eq_iff)
next
  case (snoc e ops)
  let ?t = "fold tracker_apply ops NewTracker"
  have spec: "pending_spec (ops @ [e]) = (pending_spec ops)(op_id e := op_pending e)"
    by (auto simp: pending_spec_def last_op_snoc fun_eq_iff)
  show ?case
  proof (cases e)
    case (OpAdd now i title message priority)
    with snoc show ?thesis unfolding fold_append comp_apply spec
      by (simp add: tracker_Add_def gm.wf_put gm.get_put)
  next
    case (OpRemove i)
    with snoc show ?thesis unfolding fold_append comp_apply spec
      by (simp add: tracker_Remove_def gm.wf_del gm.get_del)
  qed
qed

lemma pending_spec_id: "pending_spec ops i = Some a \<Longrightarrow> pa_ID a = i"
proof -
  have "last_op ops i = Some e \<Longrightarrow> op_id e = i" for e
    by (auto simp: last_op_def find_Some_iff)
  then show "pending_spec ops i = Some a \<Longrightarrow> pa_ID a = i"
    by (auto simp: pending_spec_def bind_eq_Some_conv dest: op_pending_id)
qed

text \<open>The tracker implements its specification: after any sequence of calls the critical announcements
  it reports are, each once, exactly those whose last call was an \<open>Add\<close> with priority \<open>critical\<close> that
  was made five minutes ago or earlier, in whatever order Go's map is traversed.\<close>

theorem critical_pending_spec:
  assumes "mset (tr_pending t) = mset (tr_pending (fold tracker_apply ops NewTracker))"
  shows "distinct (map pa_ID (GetCriticalPending now t)) \<and>
    set (GetCriticalPending now t) = {a. pending_spec ops (pa_ID a) = Some a \<and> pa_Priority a = ''critical'' \<and>
      pa_ShownAt a + 5 * dur_minute \<le> now}"
proof -
  let ?m = "tr_pending (fold tracker_apply ops NewTracker)"
  have wf0: "gm_wf ?m" and get0: "gm_get ?m = pending_spec ops" using tracker_refines [of ops] by simp_all
  have get: "gm_get (tr_pending t) = pending_spec ops"
    using gm_get_perm [OF wf0 assms [symmetric]] get0 by simp
  have "mset (map fst (tr_pending t)) = mset (map fst ?m)" unfolding mset_map assms ..
  then have wf: "gm_wf (tr_pending t)" using wf0 unfolding gm_wf_def by (metis mset_eq_imp_distinct_iff)
  have ids: "pa_ID a = i" if "(i, a) \<in> set (tr_pending t)" for i a
    using that gm_get_in [OF wf, of i a] by (simp add: get pending_spec_id)
  have "map pa_ID (map snd (tr_pending t)) = map fst (tr_pending t)"
    using ids by (auto simp: comp_def intro!: map_cong)
  then have "distinct (map pa_ID (map snd (tr_pending t)))" using wf by (simp only: gm_wf_def)
  then have "distinct (map pa_ID (GetCriticalPending now t))"
    unfolding GetCriticalPending_def Let_def by (rule distinct_map_filter)
  moreover have "a \<in> snd ` set (tr_pending t) \<longleftrightarrow> pending_spec ops (pa_ID a) = Some a" for a
  proof
    assume "a \<in> snd ` set (tr_pending t)"
    then obtain i where ia: "(i, a) \<in> set (tr_pending t)" by auto
    with gm_get_in [OF wf, of i a] ids [OF ia] show "pending_spec ops (pa_ID a) = Some a" by (simp add: get)
  next
    assume "pending_spec ops (pa_ID a) = Some a"
    with gm_get_in [OF wf, of "pa_ID a" a] have "(pa_ID a, a) \<in> set (tr_pending t)" by (simp add: get)
    then show "a \<in> snd ` set (tr_pending t)" by (metis image_eqI snd_conv)
  qed
  then have "set (GetCriticalPending now t) = {a. pending_spec ops (pa_ID a) = Some a \<and> pa_Priority a = ''critical'' \<and>
      pa_ShownAt a + 5 * dur_minute \<le> now}"
    by (auto simp: GetCriticalPending_def time_Add_def Let_def)
  ultimately show ?thesis by simp
qed

theorem critical_pending_spec_witness:
  "distinct (map pa_ID (GetCriticalPending (6 * dur_minute)
     (fold tracker_apply [OpAdd 1 7 ''t'' ''m'' ''critical'', OpAdd 2 8 ''t'' ''m'' ''critical'', OpRemove 7] NewTracker)))"
  by (rule conjunct1 [OF critical_pending_spec [OF refl]])

end
