(* ===== verification/System.thy ===== *)
theory System
  imports Api Go_Containers "HOL-Library.Word"
begin

section \<open>The machine (\<open>internal/system\<close>)\<close>

text \<open>
  What the agent reports about the machine. The Windows calls and PowerShell are parameters: what
  they return goes through the normalisation, filtering and sorting modelled here.
\<close>

subsection \<open>Services\<close>

record ServiceInfo =
  svc_Name :: string
  svc_DisplayName :: string
  svc_Status :: string
  svc_StartupType :: string
  svc_PID :: int
  svc_RunAs :: string
  svc_Description :: string

record psServiceRow =
  psr_Name :: string
  psr_DisplayName :: string
  psr_State :: string
  psr_StartMode :: string
  psr_ProcessID :: int
  psr_StartName :: string
  psr_Description :: string

definition normalizeServiceStatus :: "string \<Rightarrow> string" where
  "normalizeServiceStatus v =
     (let s = strings_ToLower (strings_TrimSpace v)
      in if s \<in> {''running'', ''stopped'', ''paused''} then s else ''unknown'')"

definition normalizeStartupType :: "string \<Rightarrow> string" where
  "normalizeStartupType v =
     (let s = strings_ToLower (strings_TrimSpace v)
      in if s \<in> {''auto'', ''manual'', ''disabled''} then s else ''unknown'')"

definition service_row_fields :: "string list" where
  "service_row_fields = [''Name'', ''DisplayName'', ''State'', ''StartMode'', ''ProcessId'', ''StartName'', ''Description'']"

definition set_service_row_field :: "string \<Rightarrow> json \<Rightarrow> psServiceRow \<Rightarrow> psServiceRow option" where
  "set_service_row_field f v r =
     (if f = ''Name'' then map_option (\<lambda>s. r\<lparr>psr_Name := s\<rparr>) (decode_string (psr_Name r) v)
      else if f = ''DisplayName'' then map_option (\<lambda>s. r\<lparr>psr_DisplayName := s\<rparr>) (decode_string (psr_DisplayName r) v)
      else if f = ''State'' then map_option (\<lambda>s. r\<lparr>psr_State := s\<rparr>) (decode_string (psr_State r) v)
      else if f = ''StartMode'' then map_option (\<lambda>s. r\<lparr>psr_StartMode := s\<rparr>) (decode_string (psr_StartMode r) v)
      else if f = ''ProcessId'' then map_option (\<lambda>n. r\<lparr>psr_ProcessID := n\<rparr>) (decode_int (psr_ProcessID r) v)
      else if f = ''StartName'' then map_option (\<lambda>s. r\<lparr>psr_StartName := s\<rparr>) (decode_string (psr_StartName r) v)
      else if f = ''Description'' then map_option (\<lambda>s. r\<lparr>psr_Description := s\<rparr>) (decode_string (psr_Description r) v)
      else Some r)"

definition decode_service_row :: "json \<Rightarrow> psServiceRow option" where
  "decode_service_row v = decode_struct service_row_fields set_service_row_field
     \<lparr>psr_Name = [], psr_DisplayName = [], psr_State = [], psr_StartMode = [], psr_ProcessID = 0,
      psr_StartName = [], psr_Description = []\<rparr> v"

definition service_of_row :: "psServiceRow \<Rightarrow> ServiceInfo" where
  "service_of_row r = \<lparr>svc_Name = strings_TrimSpace (psr_Name r), svc_DisplayName = strings_TrimSpace (psr_DisplayName r),
     svc_Status = normalizeServiceStatus (psr_State r), svc_StartupType = normalizeStartupType (psr_StartMode r),
     svc_PID = psr_ProcessID r, svc_RunAs = strings_TrimSpace (psr_StartName r),
     svc_Description = strings_TrimSpace (psr_Description r)\<rparr>"

definition CollectServices :: "(string \<Rightarrow> goerr + json) \<Rightarrow> goerr + string \<Rightarrow> goerr + ServiceInfo list" where
  "CollectServices parse output =
     (case output of
        Inl err \<Rightarrow> Inl err
      | Inr out \<Rightarrow>
          let txt = strings_TrimSpace out; bad = GoErr ''json: cannot unmarshal'' in
          if txt = [] then Inr []
          else
            let rows = (case parse out of
              Inl err \<Rightarrow> Inl err
            | Inr j \<Rightarrow>
                if strings_HasPrefix txt ''[''
                then (case decode_slice decode_service_row j of None \<Rightarrow> Inl bad | Some rs \<Rightarrow> Inr rs)
                else (case decode_service_row j of None \<Rightarrow> Inl bad | Some r \<Rightarrow> Inr [r]))
            in case rows of
                 Inl err \<Rightarrow> Inl err
               | Inr rs \<Rightarrow>
                   let items = map service_of_row (filter (\<lambda>r. strings_TrimSpace (psr_Name r) \<noteq> []) rs)
                   in Inr (sort_Slice (\<lambda>a b. strings_ToLower (svc_Name a) < strings_ToLower (svc_Name b)) items))"

subsection \<open>Host information\<close>

record HostInfo =
  hi_Hostname :: string
  hi_IPAddress :: string
  hi_IPAddresses :: "string list"
  hi_UptimeSec :: int
  hi_OSVersion :: string
  hi_CPUModel :: string
  hi_RAMGB :: int
  hi_DiskFreeGB :: int

text \<open>A network interface: up, loopback, and its addresses: the dotted form of an IPv4 address or none.\<close>

record net_interface =
  nif_up :: bool
  nif_loopback :: bool
  nif_addrs :: "goerr + string option list"

record host_world =
  hw_Hostname :: string
  hw_GOOS :: string
  hw_GOARCH :: string
  hw_interfaces :: "goerr + net_interface list"
  hw_cpu :: "string option"
  hw_totalPhys :: "64 word option"
  hw_diskFree :: "64 word option"
  hw_ticks :: "64 word"

definition interface_ips :: "net_interface \<Rightarrow> string list" where
  "interface_ips i =
     (if \<not> nif_up i \<or> nif_loopback i then []
      else case nif_addrs i of Inl err \<Rightarrow> [] | Inr as \<Rightarrow> List.map_filter id as)"

definition allIPv4 :: "goerr + net_interface list \<Rightarrow> string list" where
  "allIPv4 ifaces =
     (case ifaces of Inl err \<Rightarrow> [] | Inr is \<Rightarrow> fst (dedup_loop id [] (concat (map interface_ips is))))"

definition firstIPv4 :: "goerr + net_interface list \<Rightarrow> string" where
  "firstIPv4 ifaces = (case allIPv4 ifaces of [] \<Rightarrow> [] | ip # _ \<Rightarrow> ip)"

text \<open>\<open>collectHostExtras\<close> (Windows): processor name, memory and free disk in whole gigabytes.\<close>

definition whole_GB :: "64 word option \<Rightarrow> int" where
  "whole_GB b = (case b of None \<Rightarrow> 0 | Some v \<Rightarrow> uint (v div (1024 * 1024 * 1024)))"

definition collectHostExtras :: "host_world \<Rightarrow> string \<times> int \<times> int" where
  "collectHostExtras w =
     ((case hw_cpu w of None \<Rightarrow> [] | Some name \<Rightarrow> strings_TrimSpace name), whole_GB (hw_totalPhys w), whole_GB (hw_diskFree w))"

definition readUptimeSec :: "host_world \<Rightarrow> int" where
  "readUptimeSec w = uint (hw_ticks w div 1000)"

definition CollectHostInfo :: "host_world \<Rightarrow> HostInfo" where
  "CollectHostInfo w =
     (let (cpu, ram, disk) = collectHostExtras w;
          cpuModel = (if cpu = [] then hw_GOARCH w else cpu)
      in \<lparr>hi_Hostname = hw_Hostname w, hi_IPAddress = firstIPv4 (hw_interfaces w),
          hi_IPAddresses = allIPv4 (hw_interfaces w), hi_UptimeSec = readUptimeSec w,
          hi_OSVersion = hw_GOOS w @ ''/'' @ hw_GOARCH w, hi_CPUModel = cpuModel, hi_RAMGB = ram, hi_DiskFreeGB = disk\<rparr>)"

definition MonitorCount :: "int \<Rightarrow> int" where
  "MonitorCount metric = (if metric \<le> 0 then 1 else metric)"

subsection \<open>Logged-in sessions\<close>

definition normalizeSessionType :: "16 word \<Rightarrow> string" where
  "normalizeSessionType protocol = (if protocol = 2 then ''rdp'' else ''local'')"

definition normalizeSessionState :: "string \<Rightarrow> string" where
  "normalizeSessionState raw =
     (if strings_TrimSpace (strings_ToLower raw) \<in> {''disconnected'', ''disc''} then ''disconnected'' else ''active'')"

definition isReportableSessionState :: "32 word \<Rightarrow> bool" where
  "isReportableSessionState state \<longleftrightarrow> state = 0 \<or> state = 4"

definition sessionStateFromWTS :: "32 word \<Rightarrow> string" where
  "sessionStateFromWTS state = (if state = 4 then ''disconnected'' else ''active'')"

record wts_world =
  ww_sessions :: "(32 word \<times> 32 word) list"
  ww_user :: "32 word \<Rightarrow> string"
  ww_domain :: "32 word \<Rightarrow> string"
  ww_protocol :: "32 word \<Rightarrow> 16 word"

definition wts_account :: "wts_world \<Rightarrow> 32 word \<Rightarrow> string" where
  "wts_account w sid =
     (let user = strings_TrimSpace (ww_user w sid); domain = strings_TrimSpace (ww_domain w sid)
      in if domain \<noteq> [] then domain @ [CHR 0x5C] @ user else user)"

definition GetLoggedInSessions :: "wts_world \<Rightarrow> LoggedInSession list" where
  "GetLoggedInSessions w =
     (let reportable = filter (\<lambda>(sid, state). isReportableSessionState state \<and> strings_TrimSpace (ww_user w sid) \<noteq> []) (ww_sessions w)
      in map (\<lambda>(sid, state). \<lparr>ls_Username = wts_account w sid, ls_SessionType = normalizeSessionType (ww_protocol w sid),
                ls_SessionState = sessionStateFromWTS state, ls_LogonID = strconv_Itoa (uint sid)\<rparr>)
           (fst (dedup_loop (\<lambda>(sid, state). wts_account w sid) [] reportable)))"

subsection \<open>The state of profile reporting\<close>

record SystemProfileState =
  sps_LastSentAtUTC :: string
  sps_LastHash :: string

definition encode_profile_state :: "SystemProfileState \<Rightarrow> json" where
  "encode_profile_state st = JObj [(''last_sent_at_utc'', JStr (sps_LastSentAtUTC st)), (''last_hash'', JStr (sps_LastHash st))]"

definition set_profile_state_field :: "string \<Rightarrow> json \<Rightarrow> SystemProfileState \<Rightarrow> SystemProfileState option" where
  "set_profile_state_field f v st =
     (if f = ''last_sent_at_utc'' then map_option (\<lambda>s. st\<lparr>sps_LastSentAtUTC := s\<rparr>) (decode_string (sps_LastSentAtUTC st) v)
      else if f = ''last_hash'' then map_option (\<lambda>s. st\<lparr>sps_LastHash := s\<rparr>) (decode_string (sps_LastHash st) v)
      else Some st)"

definition LoadSystemProfileState :: "fs_oracle \<Rightarrow> (string \<Rightarrow> goerr + json) \<Rightarrow> string \<Rightarrow> fs \<Rightarrow> goerr + SystemProfileState" where
  "LoadSystemProfileState orc parse path s =
     (case os_ReadFile orc path s of
        Inl err \<Rightarrow> Inl err
      | Inr b \<Rightarrow> (case parse b of
          Inl err \<Rightarrow> Inl err
        | Inr j \<Rightarrow> (case decode_struct [''last_sent_at_utc'', ''last_hash''] set_profile_state_field
              \<lparr>sps_LastSentAtUTC = [], sps_LastHash = []\<rparr> j of
            None \<Rightarrow> Inl (GoErr ''json: cannot unmarshal'')
          | Some st \<Rightarrow> Inr st)))"

definition SaveSystemProfileState :: "fs_oracle \<Rightarrow> (json \<Rightarrow> string) \<Rightarrow> string \<Rightarrow> SystemProfileState \<Rightarrow> fs \<Rightarrow> goerr option \<times> fs" where
  "SaveSystemProfileState orc text path st s = os_WriteFile orc path (text (encode_profile_state st)) s"

definition ParseUTC :: "(string \<Rightarrow> gotime option) \<Rightarrow> string \<Rightarrow> gotime option" where
  "ParseUTC parseTime ts = (if ts = [] then None else parseTime ts)"

subsection \<open>The agent's identity\<close>

text \<open>The registry key \<open>SOFTWARE\AppCenter\<close>: its value \<open>UUID\<close>, and whether opening, creating and
  setting succeed. \<open>fresh\<close> is \<open>uuid.NewString()\<close>.\<close>

record uuid_world =
  uw_open :: bool
  uw_create :: "goerr option"
  uw_set :: "goerr option"

definition GetOrCreateUUID :: "uuid_world \<Rightarrow> string \<Rightarrow> string option \<Rightarrow> (goerr + string) \<times> string option" where
  "GetOrCreateUUID w fresh stored =
     (case (if uw_open w then stored else None) of
        Some (c # cs) \<Rightarrow> (Inr (c # cs), stored)
      | _ \<Rightarrow>
          (case uw_create w of
             Some err \<Rightarrow> (Inl err, stored)
           | None \<Rightarrow> (case uw_set w of Some err \<Rightarrow> (Inl err, stored) | None \<Rightarrow> (Inr fresh, Some fresh))))"

subsection \<open>What they promise\<close>

lemma allIPv4_distinct: "distinct (allIPv4 ifaces)"
  using dedup_loop_distinct [of id] by (auto simp: allIPv4_def split: sum.split)

lemma GetLoggedInSessions_distinct: "distinct (map ls_Username (GetLoggedInSessions w))"
proof -
  have "map ls_Username (GetLoggedInSessions w) =
      map (\<lambda>(sid, state). wts_account w sid) (fst (dedup_loop (\<lambda>(sid, state). wts_account w sid) []
        (filter (\<lambda>(sid, state). isReportableSessionState state \<and> strings_TrimSpace (ww_user w sid) \<noteq> []) (ww_sessions w))))"
    by (simp add: GetLoggedInSessions_def Let_def case_prod_beta)
  then show ?thesis by (simp add: dedup_loop_distinct)
qed

lemma uuid_stable:
  assumes "GetOrCreateUUID w fresh stored = (Inr u, stored')" and "fresh \<noteq> []"
  shows "u \<noteq> [] \<and> stored' = Some u \<and> (uw_open w' \<longrightarrow> GetOrCreateUUID w' fresh' stored' = (Inr u, stored'))"
proof -
  have "u \<noteq> [] \<and> stored' = Some u"
    using assms by (auto simp: GetOrCreateUUID_def split: option.splits list.splits if_splits)
  moreover from this have "uw_open w' \<Longrightarrow> GetOrCreateUUID w' fresh' stored' = (Inr u, stored')"
    by (cases u) (auto simp: GetOrCreateUUID_def)
  ultimately show ?thesis by blast
qed

lemma lower_less_strict_weak: "strict_weak (\<lambda>a b. strings_ToLower (f a) < strings_ToLower (f b))"
  unfolding strict_weak_def by (auto dest: less_le_trans simp: not_less)

lemma service_of_row_ok:
  "svc_Status (service_of_row r) \<in> {''running'', ''stopped'', ''paused'', ''unknown''} \<and>
   svc_StartupType (service_of_row r) \<in> {''auto'', ''manual'', ''disabled'', ''unknown''}"
proof -
  have "normalizeServiceStatus v \<in> {''running'', ''stopped'', ''paused'', ''unknown''}" for v
    unfolding normalizeServiceStatus_def Let_def
    by (cases "strings_ToLower (strings_TrimSpace v) \<in> {''running'', ''stopped'', ''paused''}") (simp only: if_True, blast, simp)
  moreover have "normalizeStartupType v \<in> {''auto'', ''manual'', ''disabled'', ''unknown''}" for v
    unfolding normalizeStartupType_def Let_def
    by (cases "strings_ToLower (strings_TrimSpace v) \<in> {''auto'', ''manual'', ''disabled''}") (simp only: if_True, blast, simp)
  ultimately show ?thesis by (simp add: service_of_row_def)
qed

text \<open>A service snapshot is normal: whatever PowerShell printed, the services collected have
  non-empty names without surrounding white space, a status and a start type of the closed lists,
  and come in the case-insensitive order of their names.\<close>

theorem CollectServices_normal:
  assumes "CollectServices parse output = Inr items"
  shows "(\<forall>s \<in> set items. svc_Name s \<noteq> [] \<and> strings_TrimSpace (svc_Name s) = svc_Name s \<and>
      svc_Status s \<in> {''running'', ''stopped'', ''paused'', ''unknown''} \<and>
      svc_StartupType s \<in> {''auto'', ''manual'', ''disabled'', ''unknown''}) \<and>
    sorted_wrt (\<lambda>a b. strings_ToLower (svc_Name a) \<le> strings_ToLower (svc_Name b)) items"
proof -
  let ?lt = "\<lambda>a b. strings_ToLower (svc_Name a) < strings_ToLower (svc_Name b)"
  have "items = [] \<or> (\<exists>rs. items = sort_Slice ?lt (map service_of_row (filter (\<lambda>r. strings_TrimSpace (psr_Name r) \<noteq> []) rs)))"
    using assms by (auto simp: CollectServices_def Let_def split: sum.splits if_splits option.splits)
  then obtain rs where items: "items = sort_Slice ?lt (map service_of_row (filter (\<lambda>r. strings_TrimSpace (psr_Name r) \<noteq> []) rs))"
    by (metis filter.simps(1) gosort.srt_Nil_iff list.map(1))
  have "sorted_wrt (\<lambda>x y. \<not> ?lt y x) items"
    unfolding items by (rule gosort.srt_sorted [OF lower_less_strict_weak])
  then have "sorted_wrt (\<lambda>a b. strings_ToLower (svc_Name a) \<le> strings_ToLower (svc_Name b)) items"
    by (simp add: not_less)
  moreover have "svc_Name s \<noteq> [] \<and> strings_TrimSpace (svc_Name s) = svc_Name s \<and>
      svc_Status s \<in> {''running'', ''stopped'', ''paused'', ''unknown''} \<and>
      svc_StartupType s \<in> {''auto'', ''manual'', ''disabled'', ''unknown''}" if s: "s \<in> set items" for s
  proof -
    from s items obtain r where r: "s = service_of_row r" "strings_TrimSpace (psr_Name r) \<noteq> []" by auto
    then have "svc_Name s = strings_TrimSpace (psr_Name r)" by (simp add: service_of_row_def)
    with r service_of_row_ok [of r] show ?thesis by simp
  qed
  ultimately show ?thesis by blast
qed

definition sample_service_rows :: json where
  "sample_service_rows = JArr [
     JObj [(''Name'', JStr ''b ''), (''State'', JStr ''Running''), (''StartMode'', JStr ''Boot'')],
     JObj [(''Name'', JStr ''  '')],
     JObj [(''Name'', JStr ''A''), (''State'', JStr ''Stopped''), (''StartMode'', JStr ''Auto''), (''ProcessId'', JNum (f64_of_int 7))]]"

theorem CollectServices_normal_witness:
  "\<exists>items. CollectServices (\<lambda>_. Inr sample_service_rows) (Inr ''[...]'') = Inr items \<and>
     sorted_wrt (\<lambda>a b. strings_ToLower (svc_Name a) \<le> strings_ToLower (svc_Name b)) items"
proof -
  have "strings_TrimSpace ''[...]'' = ''[...]''" by (simp add: strings_TrimSpace_def char_space_def)
  then have "\<exists>items. CollectServices (\<lambda>_. Inr sample_service_rows) (Inr ''[...]'') = Inr items"
    by (simp add: CollectServices_def Let_def sample_service_rows_def decode_slice_def decode_service_row_def
        decode_struct_def set_service_row_field_def service_row_fields_def f64_of_int_def int64_range_def)
  then obtain items where i: "CollectServices (\<lambda>_. Inr sample_service_rows) (Inr ''[...]'') = Inr items" by blast
  from CollectServices_normal [OF i] i show ?thesis by blast
qed

end
