(* ===== verification/ApiClient.thy ===== *)
theory ApiClient
  imports Api System Config
begin

section \<open>The HTTP client of the server API (\<open>internal/api/client.go\<close>)\<close>

text \<open>
  How the messages of theory \<open>Api\<close> are written and read as JSON values (the struct tags, with
  \<open>omitempty\<close>), the requests the client sends, and how a response becomes a value or an error.
  Parameters: the network, for each timeout, and the JSON text layer (printing a value, parsing a
  whole text, decoding the first value of a text).
\<close>

subsection \<open>Writing structs\<close>

text \<open>A field with the option \<open>omitempty\<close> is left out when it holds its zero value.\<close>

definition omit_string :: "string \<Rightarrow> string \<Rightarrow> payload" where
  "omit_string k s = (if s = [] then [] else [(k, JStr s)])"

definition omit_int :: "string \<Rightarrow> int \<Rightarrow> payload" where
  "omit_int k n = (if n = 0 then [] else [(k, JNum (f64_of_int n))])"

definition omit_list :: "string \<Rightarrow> ('a \<Rightarrow> json) \<Rightarrow> 'a list \<Rightarrow> payload" where
  "omit_list k f xs = (if xs = [] then [] else [(k, JArr (map f xs))])"

definition omit_ptr :: "string \<Rightarrow> ('a \<Rightarrow> json) \<Rightarrow> 'a option \<Rightarrow> payload" where
  "omit_ptr k f x = (case x of None \<Rightarrow> [] | Some v \<Rightarrow> [(k, f v)])"

definition jint :: "int \<Rightarrow> json" where
  "jint n = JNum (f64_of_int n)"

lemmas omit_defs = omit_string_def omit_int_def omit_list_def omit_ptr_def jint_def

record RegisterRequest =
  rr_UUID :: string
  rr_Hostname :: string
  rr_OSVersion :: string
  rr_Platform :: string
  rr_Arch :: string
  rr_Distro :: string
  rr_DistroVersion :: string
  rr_AgentVersion :: string
  rr_CPUModel :: string
  rr_RAMGB :: int
  rr_DiskFreeGB :: int

definition encode_RegisterRequest :: "RegisterRequest \<Rightarrow> json" where
  "encode_RegisterRequest r = JObj (
     [(''uuid'', JStr (rr_UUID r)), (''hostname'', JStr (rr_Hostname r)), (''os_version'', JStr (rr_OSVersion r))] @
     omit_string ''platform'' (rr_Platform r) @ omit_string ''arch'' (rr_Arch r) @
     omit_string ''distro'' (rr_Distro r) @ omit_string ''distro_version'' (rr_DistroVersion r) @
     [(''agent_version'', JStr (rr_AgentVersion r)), (''cpu_model'', JStr (rr_CPUModel r)),
      (''ram_gb'', jint (rr_RAMGB r)), (''disk_free_gb'', jint (rr_DiskFreeGB r))])"

definition encode_InstalledApp :: "InstalledApp \<Rightarrow> json" where
  "encode_InstalledApp a = JObj [(''app_id'', jint (app_AppID a)), (''version'', JStr (app_Version a))]"

definition encode_LoggedInSession :: "LoggedInSession \<Rightarrow> json" where
  "encode_LoggedInSession s = JObj (
     [(''username'', JStr (ls_Username s)), (''session_type'', JStr (ls_SessionType s))] @
     omit_string ''session_state'' (ls_SessionState s) @ omit_string ''logon_id'' (ls_LogonID s))"

definition encode_SystemDisk :: "SystemDisk \<Rightarrow> json" where
  "encode_SystemDisk d = JObj (
     [(''index'', jint (sd_Index d))] @ omit_int ''size_gb'' (sd_SizeGB d) @
     omit_string ''model'' (sd_Model d) @ omit_string ''bus_type'' (sd_BusType d))"

definition encode_VirtualizationInfo :: "VirtualizationInfo \<Rightarrow> json" where
  "encode_VirtualizationInfo v = JObj (
     [(''is_virtual'', JBool (vi_IsVirtual v))] @ omit_string ''vendor'' (vi_Vendor v) @
     omit_string ''model'' (vi_Model v))"

definition encode_SystemProfile :: "SystemProfile \<Rightarrow> json" where
  "encode_SystemProfile p = JObj (
     omit_string ''os_full_name'' (sp_OSFullName p) @ omit_string ''os_version'' (sp_OSVersion p) @
     omit_string ''build_number'' (sp_BuildNumber p) @ omit_string ''architecture'' (sp_Architecture p) @
     omit_string ''manufacturer'' (sp_Manufacturer p) @ omit_string ''model'' (sp_Model p) @
     omit_string ''cpu_model'' (sp_CPUModel p) @ omit_int ''cpu_cores_physical'' (sp_CPUCoresPhysical p) @
     omit_int ''cpu_cores_logical'' (sp_CPUCoresLogical p) @ omit_int ''total_memory_gb'' (sp_TotalMemoryGB p) @
     omit_int ''disk_count'' (sp_DiskCount p) @ omit_list ''disks'' encode_SystemDisk (sp_Disks p) @
     omit_ptr ''virtualization'' encode_VirtualizationInfo (sp_Virtualization p))"

definition encode_ServiceItem :: "ServiceItem \<Rightarrow> json" where
  "encode_ServiceItem s = JObj (
     [(''name'', JStr (si_Name s))] @ omit_string ''display_name'' (si_DisplayName s) @
     omit_string ''status'' (si_Status s) @ omit_string ''startup_type'' (si_StartupType s) @
     omit_int ''pid'' (si_PID s) @ omit_string ''run_as'' (si_RunAs s) @ omit_string ''description'' (si_Description s))"

definition encode_RemoteSupportStatus :: "RemoteSupportStatus \<Rightarrow> json" where
  "encode_RemoteSupportStatus s = JObj [(''state'', JStr (rss_State s)), (''session_id'', jint (rss_SessionID s)),
     (''helper_running'', JBool (rss_HelperRunning s)), (''helper_pid'', jint (rss_HelperPID s))]"

text \<open>The slices of the heartbeat without \<open>omitempty\<close> are never nil, so they are written as arrays.\<close>

definition encode_HeartbeatRequest :: "HeartbeatRequest \<Rightarrow> json" where
  "encode_HeartbeatRequest r = JObj (
     [(''hostname'', JStr (hb_Hostname r)), (''ip_address'', JStr (hb_IPAddress r))] @
     omit_list ''full_ip'' JStr (hb_FullIP r) @ omit_int ''uptime_sec'' (hb_UptimeSec r) @
     [(''os_user'', JStr (hb_OSUser r))] @ omit_string ''os_version'' (hb_OSVersion r) @
     omit_string ''platform'' (hb_Platform r) @ omit_string ''arch'' (hb_Arch r) @
     omit_string ''distro'' (hb_Distro r) @ omit_string ''distro_version'' (hb_DistroVersion r) @
     [(''agent_version'', JStr (hb_AgentVersion r))] @ omit_string ''cpu_model'' (hb_CPUModel r) @
     omit_int ''ram_gb'' (hb_RAMGB r) @
     [(''disk_free_gb'', jint (hb_DiskFreeGB r)), (''cpu_usage'', jint (hb_CPUUsage r)), (''ram_usage'', jint (hb_RAMUsage r)),
      (''current_status'', JStr (hb_CurrentStatus r)), (''apps_changed'', JBool (hb_AppsChanged r)),
      (''installed_apps'', JArr (map encode_InstalledApp (hb_InstalledApps r)))] @
     omit_string ''inventory_hash'' (hb_InventoryHash r) @ omit_string ''services_hash'' (hb_ServicesHash r) @
     omit_list ''services'' encode_ServiceItem (hb_Services r) @
     [(''logged_in_sessions'', JArr (map encode_LoggedInSession (hb_LoggedInSessions r)))] @
     omit_ptr ''system_profile'' encode_SystemProfile (hb_SystemProfile r) @
     omit_ptr ''remote_support'' encode_RemoteSupportStatus (hb_RemoteSupport r))"

definition encode_TaskStatusRequest :: "TaskStatusRequest \<Rightarrow> json" where
  "encode_TaskStatusRequest r = JObj (
     [(''status'', JStr (ts_Status r)), (''progress'', jint (ts_Progress r)), (''message'', JStr (ts_Message r))] @
     omit_ptr ''exit_code'' jint (ts_ExitCode r) @ omit_string ''installed_version'' (ts_InstalledVersion r) @
     omit_int ''download_duration_sec'' (ts_DownloadDurationSec r) @
     omit_int ''install_duration_sec'' (ts_InstallDurationSec r) @ omit_string ''error'' (ts_Error r))"

subsection \<open>Reading structs\<close>

text \<open>A pointer field: \<open>null\<close> is nil, anything else is decoded into what the pointer refers to.\<close>

definition decode_ptr :: "('r \<Rightarrow> json \<Rightarrow> 'r option) \<Rightarrow> 'r \<Rightarrow> 'r option \<Rightarrow> json \<Rightarrow> 'r option option" where
  "decode_ptr dec zero old v =
     (if v = JNull then Some None
      else map_option Some (dec (case old of None \<Rightarrow> zero | Some r \<Rightarrow> r) v))"

text \<open>A field of type \<open>map[string]any\<close>: entries are added to the map that is there.\<close>

fun decode_any_map :: "payload option \<Rightarrow> json \<Rightarrow> payload option option" where
  "decode_any_map old JNull = Some None"
| "decode_any_map old (JObj m) = Some (Some (m @ (case old of None \<Rightarrow> [] | Some p \<Rightarrow> p)))"
| "decode_any_map old _ = None"

definition decode_any_object :: "json \<Rightarrow> payload option" where
  "decode_any_object v = map_option (\<lambda>m. case m of None \<Rightarrow> [] | Some p \<Rightarrow> p) (decode_any_map None v)"

record RegisterResponse =
  rgr_Status :: string
  rgr_Message :: string
  rgr_SecretKey :: string
  rgr_Config :: "payload option"

definition set_register_field :: "string \<Rightarrow> json \<Rightarrow> RegisterResponse \<Rightarrow> RegisterResponse option" where
  "set_register_field f v r =
     (if f = ''status'' then map_option (\<lambda>s. r\<lparr>rgr_Status := s\<rparr>) (decode_string (rgr_Status r) v)
      else if f = ''message'' then map_option (\<lambda>s. r\<lparr>rgr_Message := s\<rparr>) (decode_string (rgr_Message r) v)
      else if f = ''secret_key'' then map_option (\<lambda>s. r\<lparr>rgr_SecretKey := s\<rparr>) (decode_string (rgr_SecretKey r) v)
      else if f = ''config'' then map_option (\<lambda>m. r\<lparr>rgr_Config := m\<rparr>) (decode_any_map (rgr_Config r) v)
      else Some r)"

definition decode_RegisterResponse :: "json \<Rightarrow> RegisterResponse option" where
  "decode_RegisterResponse v = decode_struct [''status'', ''message'', ''secret_key'', ''config''] set_register_field
     \<lparr>rgr_Status = [], rgr_Message = [], rgr_SecretKey = [], rgr_Config = None\<rparr> v"

definition decode_rs_request_into :: "RemoteSupportRequest \<Rightarrow> json \<Rightarrow> RemoteSupportRequest option" where
  "decode_rs_request_into r v = decode_struct rs_request_fields set_rs_request_field r v"

definition decode_rs_end_into :: "RemoteSupportEnd \<Rightarrow> json \<Rightarrow> RemoteSupportEnd option" where
  "decode_rs_end_into r v = decode_struct [''session_id''] set_rs_end_field r v"

definition heartbeat_response_fields :: "string list" where
  "heartbeat_response_fields = [''status'', ''server_time'', ''config'', ''commands'', ''pending_announcements'',
     ''remote_support_request'', ''remote_support_end'']"

definition set_heartbeat_response_field :: "string \<Rightarrow> json \<Rightarrow> HeartbeatResponse \<Rightarrow> HeartbeatResponse option" where
  "set_heartbeat_response_field f v r =
     (if f = ''status'' then map_option (\<lambda>s. r\<lparr>hr_Status := s\<rparr>) (decode_string (hr_Status r) v)
      else if f = ''server_time'' then map_option (\<lambda>s. r\<lparr>hr_ServerTime := s\<rparr>) (decode_string (hr_ServerTime r) v)
      else if f = ''config'' then map_option (\<lambda>m. r\<lparr>hr_Config := m\<rparr>) (decode_any_map (hr_Config r) v)
      else if f = ''commands'' then map_option (\<lambda>cs. r\<lparr>hr_Commands := cs\<rparr>) (decode_slice decode_Command v)
      else if f = ''pending_announcements''
        then map_option (\<lambda>as. r\<lparr>hr_PendingAnnouncements := as\<rparr>) (decode_slice decode_any_object v)
      else if f = ''remote_support_request''
        then map_option (\<lambda>q. r\<lparr>hr_RemoteSupportRequest := q\<rparr>)
               (decode_ptr decode_rs_request_into zero_RemoteSupportRequest (hr_RemoteSupportRequest r) v)
      else if f = ''remote_support_end''
        then map_option (\<lambda>e. r\<lparr>hr_RemoteSupportEnd := e\<rparr>)
               (decode_ptr decode_rs_end_into \<lparr>end_SessionID = 0\<rparr> (hr_RemoteSupportEnd r) v)
      else Some r)"

definition decode_HeartbeatResponse :: "json \<Rightarrow> HeartbeatResponse option" where
  "decode_HeartbeatResponse v = decode_struct heartbeat_response_fields set_heartbeat_response_field
     \<lparr>hr_Status = [], hr_ServerTime = [], hr_Config = None, hr_Commands = [], hr_PendingAnnouncements = [],
      hr_RemoteSupportRequest = None, hr_RemoteSupportEnd = None\<rparr> v"

record TaskStatusResponse =
  tsr_Status :: string
  tsr_Detail :: string

definition set_task_response_field :: "string \<Rightarrow> json \<Rightarrow> TaskStatusResponse \<Rightarrow> TaskStatusResponse option" where
  "set_task_response_field f v r =
     (if f = ''status'' then map_option (\<lambda>s. r\<lparr>tsr_Status := s\<rparr>) (decode_string (tsr_Status r) v)
      else if f = ''detail'' then map_option (\<lambda>s. r\<lparr>tsr_Detail := s\<rparr>) (decode_string (tsr_Detail r) v)
      else Some r)"

definition decode_TaskStatusResponse :: "json \<Rightarrow> TaskStatusResponse option" where
  "decode_TaskStatusResponse v =
     decode_struct [''status'', ''detail''] set_task_response_field \<lparr>tsr_Status = [], tsr_Detail = []\<rparr> v"

definition set_message_response_field :: "string \<Rightarrow> json \<Rightarrow> MessageResponse \<Rightarrow> MessageResponse option" where
  "set_message_response_field f v r =
     (if f = ''status'' then map_option (\<lambda>s. r\<lparr>mr_Status := s\<rparr>) (decode_string (mr_Status r) v)
      else if f = ''message'' then map_option (\<lambda>s. r\<lparr>mr_Message := s\<rparr>) (decode_string (mr_Message r) v)
      else Some r)"

definition decode_MessageResponse :: "json \<Rightarrow> MessageResponse option" where
  "decode_MessageResponse v =
     decode_struct [''status'', ''message''] set_message_response_field \<lparr>mr_Status = [], mr_Message = []\<rparr> v"

record SignalResponse =
  sig_Status :: string
  sig_Reason :: string

definition set_signal_field :: "string \<Rightarrow> json \<Rightarrow> SignalResponse \<Rightarrow> SignalResponse option" where
  "set_signal_field f v r =
     (if f = ''status'' then map_option (\<lambda>s. r\<lparr>sig_Status := s\<rparr>) (decode_string (sig_Status r) v)
      else if f = ''reason'' then map_option (\<lambda>s. r\<lparr>sig_Reason := s\<rparr>) (decode_string (sig_Reason r) v)
      else Some r)"

definition decode_SignalResponse :: "json \<Rightarrow> SignalResponse option" where
  "decode_SignalResponse v =
     decode_struct [''status'', ''reason''] set_signal_field \<lparr>sig_Status = [], sig_Reason = []\<rparr> v"

definition approve_fields :: "string list" where
  "approve_fields = [''status'', ''message'', ''vnc_password'', ''guacd_host'', ''guacd_reverse_port'']"

definition set_approve_field ::
    "string \<Rightarrow> json \<Rightarrow> ApproveRemoteSessionResponse \<Rightarrow> ApproveRemoteSessionResponse option" where
  "set_approve_field f v r =
     (if f = ''status'' then map_option (\<lambda>s. r\<lparr>ar_Status := s\<rparr>) (decode_string (ar_Status r) v)
      else if f = ''message'' then map_option (\<lambda>s. r\<lparr>ar_Message := s\<rparr>) (decode_string (ar_Message r) v)
      else if f = ''vnc_password'' then map_option (\<lambda>s. r\<lparr>ar_VNCPassword := s\<rparr>) (decode_string (ar_VNCPassword r) v)
      else if f = ''guacd_host'' then map_option (\<lambda>s. r\<lparr>ar_GuacdHost := s\<rparr>) (decode_string (ar_GuacdHost r) v)
      else if f = ''guacd_reverse_port'' then map_option (\<lambda>n. r\<lparr>ar_GuacdRevPort := n\<rparr>) (decode_int (ar_GuacdRevPort r) v)
      else Some r)"

definition decode_ApproveRemoteSessionResponse :: "json \<Rightarrow> ApproveRemoteSessionResponse option" where
  "decode_ApproveRemoteSessionResponse v = decode_struct approve_fields set_approve_field
     \<lparr>ar_Status = [], ar_Message = [], ar_VNCPassword = [], ar_GuacdHost = [], ar_GuacdRevPort = 0\<rparr> v"

subsection \<open>The store\<close>

record StoreApp =
  sa_ID :: int
  sa_DisplayName :: string
  sa_Version :: string
  sa_Description :: string
  sa_IconURL :: string
  sa_FileSizeMB :: int
  sa_Category :: string
  sa_Installed :: bool
  sa_InstallState :: string
  sa_ErrorMessage :: string
  sa_ConflictDetected :: bool
  sa_ConflictConfidence :: string
  sa_ConflictMessage :: string
  sa_InstalledVersion :: string
  sa_CanUninstall :: bool

record StoreResponse =
  st_Apps :: "StoreApp list"

definition zero_StoreApp :: StoreApp where
  "zero_StoreApp = \<lparr>sa_ID = 0, sa_DisplayName = [], sa_Version = [], sa_Description = [], sa_IconURL = [],
     sa_FileSizeMB = 0, sa_Category = [], sa_Installed = False, sa_InstallState = [], sa_ErrorMessage = [],
     sa_ConflictDetected = False, sa_ConflictConfidence = [], sa_ConflictMessage = [], sa_InstalledVersion = [],
     sa_CanUninstall = False\<rparr>"

definition store_app_fields :: "string list" where
  "store_app_fields = [''id'', ''display_name'', ''version'', ''description'', ''icon_url'', ''file_size_mb'', ''category'',
     ''installed'', ''install_state'', ''error_message'', ''conflict_detected'', ''conflict_confidence'',
     ''conflict_message'', ''installed_version'', ''can_uninstall'']"

definition set_store_app_field :: "string \<Rightarrow> json \<Rightarrow> StoreApp \<Rightarrow> StoreApp option" where
  "set_store_app_field f v a =
     (if f = ''id'' then map_option (\<lambda>n. a\<lparr>sa_ID := n\<rparr>) (decode_int (sa_ID a) v)
      else if f = ''display_name'' then map_option (\<lambda>s. a\<lparr>sa_DisplayName := s\<rparr>) (decode_string (sa_DisplayName a) v)
      else if f = ''version'' then map_option (\<lambda>s. a\<lparr>sa_Version := s\<rparr>) (decode_string (sa_Version a) v)
      else if f = ''description'' then map_option (\<lambda>s. a\<lparr>sa_Description := s\<rparr>) (decode_string (sa_Description a) v)
      else if f = ''icon_url'' then map_option (\<lambda>s. a\<lparr>sa_IconURL := s\<rparr>) (decode_string (sa_IconURL a) v)
      else if f = ''file_size_mb'' then map_option (\<lambda>n. a\<lparr>sa_FileSizeMB := n\<rparr>) (decode_int (sa_FileSizeMB a) v)
      else if f = ''category'' then map_option (\<lambda>s. a\<lparr>sa_Category := s\<rparr>) (decode_string (sa_Category a) v)
      else if f = ''installed'' then map_option (\<lambda>b. a\<lparr>sa_Installed := b\<rparr>) (decode_bool (sa_Installed a) v)
      else if f = ''install_state'' then map_option (\<lambda>s. a\<lparr>sa_InstallState := s\<rparr>) (decode_string (sa_InstallState a) v)
      else if f = ''error_message'' then map_option (\<lambda>s. a\<lparr>sa_ErrorMessage := s\<rparr>) (decode_string (sa_ErrorMessage a) v)
      else if f = ''conflict_detected'' then map_option (\<lambda>b. a\<lparr>sa_ConflictDetected := b\<rparr>) (decode_bool (sa_ConflictDetected a) v)
      else if f = ''conflict_confidence''
        then map_option (\<lambda>s. a\<lparr>sa_ConflictConfidence := s\<rparr>) (decode_string (sa_ConflictConfidence a) v)
      else if f = ''conflict_message'' then map_option (\<lambda>s. a\<lparr>sa_ConflictMessage := s\<rparr>) (decode_string (sa_ConflictMessage a) v)
      else if f = ''installed_version'' then map_option (\<lambda>s. a\<lparr>sa_InstalledVersion := s\<rparr>) (decode_string (sa_InstalledVersion a) v)
      else if f = ''can_uninstall'' then map_option (\<lambda>b. a\<lparr>sa_CanUninstall := b\<rparr>) (decode_bool (sa_CanUninstall a) v)
      else Some a)"

definition decode_StoreApp :: "json \<Rightarrow> StoreApp option" where
  "decode_StoreApp v = decode_struct store_app_fields set_store_app_field zero_StoreApp v"

definition set_store_field :: "string \<Rightarrow> json \<Rightarrow> StoreResponse \<Rightarrow> StoreResponse option" where
  "set_store_field f v r = map_option (\<lambda>as. r\<lparr>st_Apps := as\<rparr>) (decode_slice decode_StoreApp v)"

definition decode_StoreResponse :: "json \<Rightarrow> StoreResponse option" where
  "decode_StoreResponse v = decode_struct [''apps''] set_store_field \<lparr>st_Apps = []\<rparr> v"

subsection \<open>Requests and responses\<close>

record api_env =
  ae_do :: "duration \<Rightarrow> transport"
  ae_print :: "json \<Rightarrow> string"
  ae_parse :: "string \<Rightarrow> goerr + json"
  ae_first :: "string \<Rightarrow> goerr + json"

text \<open>A client is its base address; its two HTTP clients differ in their timeouts.\<close>

record ApiClient =
  ac_baseURL :: string
  ac_timeout :: duration
  ac_longPollTimeout :: duration

definition ApiNewClient :: "ServerConfig \<Rightarrow> ApiClient" where
  "ApiNewClient cfg = \<lparr>ac_baseURL = strings_TrimRight (srv_URL cfg) ''/'', ac_timeout = 30 * dur_second,
     ac_longPollTimeout = 65 * dur_second\<rparr>"

record HTTPError =
  he_Method :: string
  he_URL :: string
  he_StatusCode :: int
  he_Status :: string
  he_Detail :: string
  he_Body :: string

definition HTTPError_Error :: "HTTPError \<Rightarrow> string" where
  "HTTPError_Error e =
     (let msg = (if he_Status e = [] then ''HTTP '' @ strconv_Itoa (he_StatusCode e) else he_Status e) in
      if he_Detail e \<noteq> [] then he_Method e @ '' '' @ he_URL e @ '': '' @ he_Detail e @ '' ('' @ msg @ '')''
      else if he_Body e \<noteq> [] then he_Method e @ '' '' @ he_URL e @ '': '' @ he_Body e @ '' ('' @ msg @ '')''
      else he_Method e @ '' '' @ he_URL e @ '' failed: '' @ msg)"

text \<open>The anonymous struct of the error body, and the field it takes the detail from.\<close>

record api_error_body =
  ab_Status :: string
  ab_Detail :: string
  ab_Message :: string

definition set_api_error_field :: "string \<Rightarrow> json \<Rightarrow> api_error_body \<Rightarrow> api_error_body option" where
  "set_api_error_field f v r =
     (if f = ''status'' then map_option (\<lambda>s. r\<lparr>ab_Status := s\<rparr>) (decode_string (ab_Status r) v)
      else if f = ''detail'' then map_option (\<lambda>s. r\<lparr>ab_Detail := s\<rparr>) (decode_string (ab_Detail r) v)
      else if f = ''message'' then map_option (\<lambda>s. r\<lparr>ab_Message := s\<rparr>) (decode_string (ab_Message r) v)
      else Some r)"

definition error_detail :: "(string \<Rightarrow> goerr + json) \<Rightarrow> string \<Rightarrow> string" where
  "error_detail parse b =
     (if b = [] then []
      else case parse b of
        Inl err \<Rightarrow> []
      | Inr j \<Rightarrow> (case decode_struct [''status'', ''detail'', ''message''] set_api_error_field
                        \<lparr>ab_Status = [], ab_Detail = [], ab_Message = []\<rparr> j of
          None \<Rightarrow> []
        | Some e \<Rightarrow> if ab_Detail e \<noteq> [] then ab_Detail e else ab_Message e))"

text \<open>At most 64 KiB of the body are read; an error while reading leaves what was read so far.\<close>

definition httpErrorFromResponse :: "api_env \<Rightarrow> string \<Rightarrow> string \<Rightarrow> http_response \<Rightarrow> HTTPError" where
  "httpErrorFromResponse env method url resp =
     (let b = take 65536 (rs_Body resp)
      in \<lparr>he_Method = method, he_URL = url, he_StatusCode = rs_StatusCode resp, he_Status = rs_Status resp,
          he_Detail = error_detail (ae_parse env) b, he_Body = strings_TrimSpace b\<rparr>)"

text \<open>
  What follows \<open>Do\<close> in the three functions that send: an error, an error response, or the first JSON
  value of the body, decoded. A body that breaks off before its first value is complete is an error.
\<close>

definition read_response ::
    "api_env \<Rightarrow> string \<Rightarrow> string \<Rightarrow> (json \<Rightarrow> 'r option) \<Rightarrow> goerr + http_response \<Rightarrow> goerr + 'r" where
  "read_response env method url dec result =
     (case result of
        Inl err \<Rightarrow> Inl err
      | Inr resp \<Rightarrow>
          if rs_StatusCode resp \<ge> 300
          then Inl (GoErr (HTTPError_Error (httpErrorFromResponse env method url resp)))
          else case ae_first env (rs_Body resp) of
            Inl err \<Rightarrow> Inl (case rs_BodyErr resp of None \<Rightarrow> err | Some e \<Rightarrow> e)
          | Inr j \<Rightarrow> (case dec j of None \<Rightarrow> Inl (GoErr ''json: cannot unmarshal'') | Some r \<Rightarrow> Inr r))"

definition postJSON ::
    "api_env \<Rightarrow> ApiClient \<Rightarrow> string \<Rightarrow> json \<Rightarrow> (string \<times> string) list \<Rightarrow> (json \<Rightarrow> 'r option) \<Rightarrow> goerr + 'r" where
  "postJSON env c path payload headers dec =
     (let url = ac_baseURL c @ path;
          req = \<lparr>rq_Method = ''POST'', rq_URL = url, rq_Header = (''Content-Type'', ''application/json'') # headers,
                 rq_Body = ae_print env payload\<rparr>
      in read_response env ''POST'' url dec (ae_do env (ac_timeout c) req))"

definition getJSON ::
    "api_env \<Rightarrow> ApiClient \<Rightarrow> string \<Rightarrow> (string \<times> string) list \<Rightarrow> (json \<Rightarrow> 'r option) \<Rightarrow> goerr + 'r" where
  "getJSON env c path headers dec =
     (let url = ac_baseURL c @ path;
          req = \<lparr>rq_Method = ''GET'', rq_URL = url, rq_Header = headers, rq_Body = []\<rparr>
      in read_response env ''GET'' url dec (ae_do env (ac_timeout c) req))"

definition agent_headers :: "string \<Rightarrow> string \<Rightarrow> (string \<times> string) list" where
  "agent_headers agentUUID secret = [(''X-Agent-UUID'', agentUUID), (''X-Agent-Secret'', secret)]"

subsection \<open>The calls\<close>

definition Register :: "api_env \<Rightarrow> string \<Rightarrow> ApiClient \<Rightarrow> string \<Rightarrow> string \<Rightarrow> HostInfo \<Rightarrow> goerr + RegisterResponse" where
  "Register env arch c uuid version info =
     (let payload = \<lparr>rr_UUID = uuid, rr_Hostname = hi_Hostname info, rr_OSVersion = hi_OSVersion info,
            rr_Platform = ''windows'', rr_Arch = arch, rr_Distro = ''windows'', rr_DistroVersion = [],
            rr_AgentVersion = version, rr_CPUModel = hi_CPUModel info, rr_RAMGB = hi_RAMGB info,
            rr_DiskFreeGB = hi_DiskFreeGB info\<rparr>
      in postJSON env c ''/api/v1/agent/register'' (encode_RegisterRequest payload) [] decode_RegisterResponse)"

definition Heartbeat :: "api_env \<Rightarrow> ApiClient \<Rightarrow> string \<Rightarrow> string \<Rightarrow> HeartbeatRequest \<Rightarrow> goerr + HeartbeatResponse" where
  "Heartbeat env c agentUUID secret reqBody =
     postJSON env c ''/api/v1/agent/heartbeat'' (encode_HeartbeatRequest reqBody) (agent_headers agentUUID secret)
       decode_HeartbeatResponse"

definition ReportTaskStatus ::
    "api_env \<Rightarrow> ApiClient \<Rightarrow> string \<Rightarrow> string \<Rightarrow> int \<Rightarrow> TaskStatusRequest \<Rightarrow> goerr + TaskStatusResponse" where
  "ReportTaskStatus env c agentUUID secret taskID reqBody =
     postJSON env c (''/api/v1/agent/task/'' @ strconv_Itoa taskID @ ''/status'') (encode_TaskStatusRequest reqBody)
       (agent_headers agentUUID secret) decode_TaskStatusResponse"

definition GetStore :: "api_env \<Rightarrow> ApiClient \<Rightarrow> string \<Rightarrow> string \<Rightarrow> goerr + StoreResponse" where
  "GetStore env c agentUUID secret =
     getJSON env c ''/api/v1/agent/store'' (agent_headers agentUUID secret) decode_StoreResponse"

definition SubmitInventory :: "api_env \<Rightarrow> ApiClient \<Rightarrow> string \<Rightarrow> string \<Rightarrow> json \<Rightarrow> goerr + payload option" where
  "SubmitInventory env c agentUUID secret payload =
     postJSON env c ''/api/v1/agent/inventory'' payload (agent_headers agentUUID secret) (decode_any_map None)"

definition RequestStoreInstall :: "api_env \<Rightarrow> ApiClient \<Rightarrow> string \<Rightarrow> string \<Rightarrow> int \<Rightarrow> goerr + MessageResponse" where
  "RequestStoreInstall env c agentUUID secret appID =
     postJSON env c (''/api/v1/agent/store/'' @ strconv_Itoa appID @ ''/install'') (JObj [])
       (agent_headers agentUUID secret) decode_MessageResponse"

definition ApproveRemoteSession ::
    "api_env \<Rightarrow> ApiClient \<Rightarrow> string \<Rightarrow> string \<Rightarrow> int \<Rightarrow> bool \<Rightarrow> int \<Rightarrow> goerr + ApproveRemoteSessionResponse" where
  "ApproveRemoteSession env c agentUUID secret sessionID approved monitorCount =
     postJSON env c (''/api/v1/agent/remote-support/'' @ strconv_Itoa sessionID @ ''/approve'')
       (JObj [(''approved'', JBool approved), (''monitor_count'', jint monitorCount)])
       (agent_headers agentUUID secret) decode_ApproveRemoteSessionResponse"

definition ReportRemoteReady :: "api_env \<Rightarrow> ApiClient \<Rightarrow> string \<Rightarrow> string \<Rightarrow> int \<Rightarrow> goerr option" where
  "ReportRemoteReady env c agentUUID secret sessionID =
     (case postJSON env c (''/api/v1/agent/remote-support/'' @ strconv_Itoa sessionID @ ''/ready'')
         (JObj [(''vnc_ready'', JBool True)]) (agent_headers agentUUID secret) decode_MessageResponse of
        Inl err \<Rightarrow> Some err | Inr _ \<Rightarrow> None)"

definition ReportRemoteEnded :: "api_env \<Rightarrow> ApiClient \<Rightarrow> string \<Rightarrow> string \<Rightarrow> int \<Rightarrow> string \<Rightarrow> goerr option" where
  "ReportRemoteEnded env c agentUUID secret sessionID endedBy =
     (case postJSON env c (''/api/v1/agent/remote-support/'' @ strconv_Itoa sessionID @ ''/ended'')
         (JObj [(''ended_by'', JStr endedBy)]) (agent_headers agentUUID secret) decode_MessageResponse of
        Inl err \<Rightarrow> Some err | Inr _ \<Rightarrow> None)"

definition WaitForSignal :: "api_env \<Rightarrow> ApiClient \<Rightarrow> string \<Rightarrow> string \<Rightarrow> int \<Rightarrow> goerr + SignalResponse" where
  "WaitForSignal env c agentUUID secret timeoutSec =
     (let url = ac_baseURL c @ ''/api/v1/agent/signal?timeout='' @ strconv_Itoa timeoutSec;
          req = \<lparr>rq_Method = ''GET'', rq_URL = url, rq_Header = agent_headers agentUUID secret, rq_Body = []\<rparr>
      in read_response env ''GET'' url decode_SignalResponse (ae_do env (ac_longPollTimeout c) req))"

subsection \<open>Round trips\<close>

text \<open>
  The struct tags also say how a struct is read. A message that is written and read back is the same
  message: no field is lost to \<open>omitempty\<close>, because a field that is left out reads as its zero value.
\<close>

definition task_status_fields :: "string list" where
  "task_status_fields = [''status'', ''progress'', ''message'', ''exit_code'', ''installed_version'',
     ''download_duration_sec'', ''install_duration_sec'', ''error'']"

definition set_task_status_field :: "string \<Rightarrow> json \<Rightarrow> TaskStatusRequest \<Rightarrow> TaskStatusRequest option" where
  "set_task_status_field f v r =
     (if f = ''status'' then map_option (\<lambda>s. r\<lparr>ts_Status := s\<rparr>) (decode_string (ts_Status r) v)
      else if f = ''progress'' then map_option (\<lambda>n. r\<lparr>ts_Progress := n\<rparr>) (decode_int (ts_Progress r) v)
      else if f = ''message'' then map_option (\<lambda>s. r\<lparr>ts_Message := s\<rparr>) (decode_string (ts_Message r) v)
      else if f = ''exit_code'' then map_option (\<lambda>n. r\<lparr>ts_ExitCode := n\<rparr>) (decode_ptr decode_int 0 (ts_ExitCode r) v)
      else if f = ''installed_version'' then map_option (\<lambda>s. r\<lparr>ts_InstalledVersion := s\<rparr>) (decode_string (ts_InstalledVersion r) v)
      else if f = ''download_duration_sec''
        then map_option (\<lambda>n. r\<lparr>ts_DownloadDurationSec := n\<rparr>) (decode_int (ts_DownloadDurationSec r) v)
      else if f = ''install_duration_sec''
        then map_option (\<lambda>n. r\<lparr>ts_InstallDurationSec := n\<rparr>) (decode_int (ts_InstallDurationSec r) v)
      else if f = ''error'' then map_option (\<lambda>s. r\<lparr>ts_Error := s\<rparr>) (decode_string (ts_Error r) v)
      else Some r)"

definition decode_TaskStatusRequest :: "json \<Rightarrow> TaskStatusRequest option" where
  "decode_TaskStatusRequest v = decode_struct task_status_fields set_task_status_field zero_TaskStatusRequest v"


text \<open>Reading goes on after each written field with the field set.\<close>

lemma decode_entries_append:
  "decode_entries st (m1 @ m2) r = Option.bind (decode_entries st m1 r) (decode_entries st m2)"
  by (induction st m1 r rule: decode_entries.induct) (auto split: option.splits)

lemma decode_entries_omit_string:
  "decode_entries st (omit_string k s) r = (if s = [] then Some r else st k (JStr s) r)"
  by (simp add: omit_string_def split: option.splits)

lemma decode_entries_omit_int:
  "decode_entries st (omit_int k n) r = (if n = 0 then Some r else st k (JNum (f64_of_int n)) r)"
  by (simp add: omit_int_def split: option.splits)

lemma decode_entries_omit_ptr:
  "decode_entries st (omit_ptr k f x) r = (case x of None \<Rightarrow> Some r | Some v \<Rightarrow> st k (f v) r)"
  by (simp add: omit_ptr_def split: option.splits)

lemma decode_entries_omit_list:
  "decode_entries st (omit_list k f xs) r = (if xs = [] then Some r else st k (JArr (map f xs)) r)"
  by (simp add: omit_list_def split: option.splits)

lemmas decode_omit = decode_entries_append decode_entries_omit_string decode_entries_omit_int
  decode_entries_omit_ptr decode_entries_omit_list

definition task_status_ints :: "TaskStatusRequest \<Rightarrow> int list" where
  "task_status_ints r = [ts_Progress r, ts_DownloadDurationSec r, ts_InstallDurationSec r] @
     (case ts_ExitCode r of None \<Rightarrow> [] | Some n \<Rightarrow> [n])"

interpretation report_codec: message_codec encode_TaskStatusRequest decode_TaskStatusRequest
  "\<lambda>r. list_all int64_range (task_status_ints r)"
proof
  fix r
  assume ints: "list_all int64_range (task_status_ints r)"
  show "decode_TaskStatusRequest (encode_TaskStatusRequest r) = Some r"
  proof (cases r)
    case (fields st pr msg ec iv dd id er)
    then show ?thesis using ints
      by (cases ec) (simp_all add: decode_TaskStatusRequest_def encode_TaskStatusRequest_def decode_struct_def
        decode_omit task_status_fields_def set_task_status_field_def zero_TaskStatusRequest_def task_status_ints_def
        jint_def decode_ptr_def)
  qed
qed

text \<open>A task report arrives as it was made: written as JSON and read back by the same struct tags it is
  the same report, with an exit code of 0 kept apart from no exit code, for all numbers an \<open>int\<close> holds.\<close>

theorem TaskStatus_roundtrip:
  assumes "list_all int64_range (task_status_ints r)"
  shows "decode_TaskStatusRequest (encode_TaskStatusRequest r) = Some r"
  using assms by (rule report_codec.dec_enc)

theorem TaskStatus_roundtrip_witness:
  "decode_TaskStatusRequest (encode_TaskStatusRequest (zero_TaskStatusRequest\<lparr>ts_Status := ''success'', ts_ExitCode := Some 0\<rparr>)) =
     Some (zero_TaskStatusRequest\<lparr>ts_Status := ''success'', ts_ExitCode := Some 0\<rparr>)"
  by (rule TaskStatus_roundtrip) (simp add: task_status_ints_def zero_TaskStatusRequest_def int64_range_def)

subsection \<open>What a call gives\<close>

definition server_text :: "api_env \<Rightarrow> string \<Rightarrow> json option" where
  "server_text env body = (case ae_parse env (take 65536 body) of Inl err \<Rightarrow> None | Inr j \<Rightarrow> Some j)"

text \<open>A call succeeds exactly when the server answered with a status below 300 and a body whose first JSON
  value has the expected shape; an answer with another status is an error whose message is the
  server's own detail, if its body has one, and otherwise names the status.\<close>

theorem ReportTaskStatus_result:
  assumes url: "url = ac_baseURL c @ ''/api/v1/agent/task/'' @ strconv_Itoa taskID @ ''/status''"
    and resp: "ae_do env (ac_timeout c) \<lparr>rq_Method = ''POST'', rq_URL = url,
      rq_Header = [(''Content-Type'', ''application/json''), (''X-Agent-UUID'', uuid), (''X-Agent-Secret'', secret)],
      rq_Body = ae_print env (encode_TaskStatusRequest r)\<rparr> = Inr resp"
  shows "(\<not> isl (ReportTaskStatus env c uuid secret taskID r) \<longleftrightarrow>
      rs_StatusCode resp < 300 \<and> (\<exists>j. ae_first env (rs_Body resp) = Inr j \<and> decode_TaskStatusResponse j \<noteq> None)) \<and>
    (rs_StatusCode resp \<ge> 300 \<and> server_text env (rs_Body resp) = Some (JObj [(''detail'', JStr detail)]) \<and>
       detail \<noteq> [] \<and> rs_Body resp \<noteq> [] \<and> rs_Status resp \<noteq> [] \<longrightarrow>
     ReportTaskStatus env c uuid secret taskID r =
       Inl (GoErr (''POST '' @ url @ '': '' @ detail @ '' ('' @ rs_Status resp @ '')'')))"
proof (cases "rs_StatusCode resp \<ge> 300")
  case True
  have "error_detail (ae_parse env) (take 65536 (rs_Body resp)) = detail"
    if "server_text env (rs_Body resp) = Some (JObj [(''detail'', JStr detail)])" "rs_Body resp \<noteq> []" "detail \<noteq> []"
    using that by (auto simp: server_text_def error_detail_def decode_struct_def set_api_error_field_def split: sum.splits)
  with True resp show ?thesis
    by (auto simp: ReportTaskStatus_def postJSON_def read_response_def url agent_headers_def HTTPError_Error_def
        httpErrorFromResponse_def Let_def)
next
  case False
  with resp show ?thesis
    by (auto simp: ReportTaskStatus_def postJSON_def read_response_def url agent_headers_def
        split: sum.splits option.splits)
qed

definition refusing_env :: api_env where
  "refusing_env = \<lparr>ae_do = (\<lambda>t req. Inr \<lparr>rs_StatusCode = 404, rs_Status = ''404 Not Found'', rs_Header = [], rs_Body = ''{}'', rs_BodyErr = None\<rparr>),
     ae_print = (\<lambda>j. ''{}''), ae_parse = (\<lambda>s. Inr (JObj [(''detail'', JStr ''no such task'')])),
     ae_first = (\<lambda>s. Inr (JObj []))\<rparr>"

definition sample_client :: ApiClient where
  "sample_client = ApiNewClient \<lparr>srv_URL = ''http://s/'', srv_VerifySSL = True\<rparr>"

theorem ReportTaskStatus_result_witness:
  "ReportTaskStatus refusing_env sample_client ''u'' ''k'' 7 zero_TaskStatusRequest =
     Inl (GoErr ''POST http://s/api/v1/agent/task/7/status: no such task (404 Not Found)'')"
proof -
  have base: "ac_baseURL sample_client = ''http://s''"
    by (simp add: sample_client_def ApiNewClient_def strings_TrimRight_def)
  have seven: "strconv_Itoa 7 = ''7''" by (simp add: strconv_Itoa_def nat_Itoa.simps digit_char_def)
  have "ae_do refusing_env (ac_timeout sample_client) req =
    Inr \<lparr>rs_StatusCode = 404, rs_Status = ''404 Not Found'', rs_Header = [], rs_Body = ''{}'', rs_BodyErr = None\<rparr>" for req
    by (simp add: refusing_env_def)
  from ReportTaskStatus_result [OF refl this, where uuid = "''u''" and secret = "''k''" and r = zero_TaskStatusRequest and taskID = 7
    and detail = "''no such task''"]
  show ?thesis by (simp add: server_text_def refusing_env_def base seven)
qed

end
