(* ===== verification/Profile.thy ===== *)
theory Profile
  imports ApiClient
begin

section \<open>The system profile (\<open>internal/system/profile_windows.go\<close>)\<close>

text \<open>
  The rarely changing description of the machine: what PowerShell prints is decoded, trimmed and its
  disks sorted. The types of the package \<open>system\<close> have the fields of the messages of theory \<open>Api\<close>,
  but they are types of their own; \<open>api_profile\<close> is the conversion the heartbeat does.
\<close>

record HostDisk =
  hd_Index :: int
  hd_SizeGB :: int
  hd_Model :: string
  hd_BusType :: string

record HostVirtualization =
  hv_IsVirtual :: bool
  hv_Vendor :: string
  hv_Model :: string

record psSystemProfile =
  pp_OSFullName :: string
  pp_OSVersion :: string
  pp_BuildNumber :: string
  pp_Architecture :: string
  pp_Manufacturer :: string
  pp_Model :: string
  pp_CPUModel :: string
  pp_CPUCoresPhysical :: int
  pp_CPUCoresLogical :: int
  pp_TotalMemoryGB :: int
  pp_DiskCount :: int
  pp_Disks :: "HostDisk list"
  pp_Virtualization :: "HostVirtualization option"

record HostProfile =
  hp_OSFullName :: string
  hp_OSVersion :: string
  hp_BuildNumber :: string
  hp_Architecture :: string
  hp_Manufacturer :: string
  hp_Model :: string
  hp_CPUModel :: string
  hp_CPUCoresPhysical :: int
  hp_CPUCoresLogical :: int
  hp_TotalMemoryGB :: int
  hp_DiskCount :: int
  hp_Disks :: "HostDisk list"
  hp_Virtualization :: "HostVirtualization option"

subsection \<open>Decoding\<close>

definition set_disk_field :: "string \<Rightarrow> json \<Rightarrow> HostDisk \<Rightarrow> HostDisk option" where
  "set_disk_field f v d =
     (if f = ''index'' then map_option (\<lambda>n. d\<lparr>hd_Index := n\<rparr>) (decode_int (hd_Index d) v)
      else if f = ''size_gb'' then map_option (\<lambda>n. d\<lparr>hd_SizeGB := n\<rparr>) (decode_int (hd_SizeGB d) v)
      else if f = ''model'' then map_option (\<lambda>s. d\<lparr>hd_Model := s\<rparr>) (decode_string (hd_Model d) v)
      else if f = ''bus_type'' then map_option (\<lambda>s. d\<lparr>hd_BusType := s\<rparr>) (decode_string (hd_BusType d) v)
      else Some d)"

definition decode_disk :: "json \<Rightarrow> HostDisk option" where
  "decode_disk v = decode_struct [''index'', ''size_gb'', ''model'', ''bus_type''] set_disk_field
     \<lparr>hd_Index = 0, hd_SizeGB = 0, hd_Model = [], hd_BusType = []\<rparr> v"

definition set_virtualization_field :: "string \<Rightarrow> json \<Rightarrow> HostVirtualization \<Rightarrow> HostVirtualization option" where
  "set_virtualization_field f v r =
     (if f = ''is_virtual'' then map_option (\<lambda>b. r\<lparr>hv_IsVirtual := b\<rparr>) (decode_bool (hv_IsVirtual r) v)
      else if f = ''vendor'' then map_option (\<lambda>s. r\<lparr>hv_Vendor := s\<rparr>) (decode_string (hv_Vendor r) v)
      else if f = ''model'' then map_option (\<lambda>s. r\<lparr>hv_Model := s\<rparr>) (decode_string (hv_Model r) v)
      else Some r)"

definition decode_virtualization_into :: "HostVirtualization \<Rightarrow> json \<Rightarrow> HostVirtualization option" where
  "decode_virtualization_into r v = decode_struct [''is_virtual'', ''vendor'', ''model''] set_virtualization_field r v"

definition ps_profile_fields :: "string list" where
  "ps_profile_fields = [''os_full_name'', ''os_version'', ''build_number'', ''architecture'', ''manufacturer'', ''model'',
     ''cpu_model'', ''cpu_cores_physical'', ''cpu_cores_logical'', ''total_memory_gb'', ''disk_count'', ''disks'',
     ''virtualization'']"

definition set_ps_profile_field :: "string \<Rightarrow> json \<Rightarrow> psSystemProfile \<Rightarrow> psSystemProfile option" where
  "set_ps_profile_field f v p =
     (if f = ''os_full_name'' then map_option (\<lambda>s. p\<lparr>pp_OSFullName := s\<rparr>) (decode_string (pp_OSFullName p) v)
      else if f = ''os_version'' then map_option (\<lambda>s. p\<lparr>pp_OSVersion := s\<rparr>) (decode_string (pp_OSVersion p) v)
      else if f = ''build_number'' then map_option (\<lambda>s. p\<lparr>pp_BuildNumber := s\<rparr>) (decode_string (pp_BuildNumber p) v)
      else if f = ''architecture'' then map_option (\<lambda>s. p\<lparr>pp_Architecture := s\<rparr>) (decode_string (pp_Architecture p) v)
      else if f = ''manufacturer'' then map_option (\<lambda>s. p\<lparr>pp_Manufacturer := s\<rparr>) (decode_string (pp_Manufacturer p) v)
      else if f = ''model'' then map_option (\<lambda>s. p\<lparr>pp_Model := s\<rparr>) (decode_string (pp_Model p) v)
      else if f = ''cpu_model'' then map_option (\<lambda>s. p\<lparr>pp_CPUModel := s\<rparr>) (decode_string (pp_CPUModel p) v)
      else if f = ''cpu_cores_physical'' then map_option (\<lambda>n. p\<lparr>pp_CPUCoresPhysical := n\<rparr>) (decode_int (pp_CPUCoresPhysical p) v)
      else if f = ''cpu_cores_logical'' then map_option (\<lambda>n. p\<lparr>pp_CPUCoresLogical := n\<rparr>) (decode_int (pp_CPUCoresLogical p) v)
      else if f = ''total_memory_gb'' then map_option (\<lambda>n. p\<lparr>pp_TotalMemoryGB := n\<rparr>) (decode_int (pp_TotalMemoryGB p) v)
      else if f = ''disk_count'' then map_option (\<lambda>n. p\<lparr>pp_DiskCount := n\<rparr>) (decode_int (pp_DiskCount p) v)
      else if f = ''disks'' then map_option (\<lambda>ds. p\<lparr>pp_Disks := ds\<rparr>) (decode_slice decode_disk v)
      else if f = ''virtualization'' then map_option (\<lambda>r. p\<lparr>pp_Virtualization := r\<rparr>)
        (decode_ptr decode_virtualization_into \<lparr>hv_IsVirtual = False, hv_Vendor = [], hv_Model = []\<rparr> (pp_Virtualization p) v)
      else Some p)"

definition decode_psSystemProfile :: "json \<Rightarrow> psSystemProfile option" where
  "decode_psSystemProfile v = decode_struct ps_profile_fields set_ps_profile_field
     \<lparr>pp_OSFullName = [], pp_OSVersion = [], pp_BuildNumber = [], pp_Architecture = [], pp_Manufacturer = [],
      pp_Model = [], pp_CPUModel = [], pp_CPUCoresPhysical = 0, pp_CPUCoresLogical = 0, pp_TotalMemoryGB = 0,
      pp_DiskCount = 0, pp_Disks = [], pp_Virtualization = None\<rparr> v"

subsection \<open>Collecting\<close>

text \<open>The disks in the order of their indices; \<open>output\<close> is what PowerShell printed, or the error of running it.\<close>

definition stable_disks :: "HostDisk list \<Rightarrow> HostDisk list" where
  "stable_disks ds = (if length ds > 1 then sort_Slice (\<lambda>a b. hd_Index a < hd_Index b) ds else ds)"

definition CollectSystemProfile :: "(string \<Rightarrow> goerr + json) \<Rightarrow> goerr + string \<Rightarrow> goerr + HostProfile" where
  "CollectSystemProfile parse output =
     (case output of
        Inl err \<Rightarrow> Inl (GoWrap ''collect system profile failed'' err)
      | Inr out \<Rightarrow>
          if out = [] then Inl (GoErr ''collect system profile failed: %!w(<nil>)'')
          else case parse out of
            Inl err \<Rightarrow> Inl err
          | Inr j \<Rightarrow> (case decode_psSystemProfile j of
              None \<Rightarrow> Inl (GoErr ''json: cannot unmarshal'')
            | Some raw \<Rightarrow>
                Inr \<lparr>hp_OSFullName = strings_TrimSpace (pp_OSFullName raw),
                    hp_OSVersion = strings_TrimSpace (pp_OSVersion raw),
                    hp_BuildNumber = strings_TrimSpace (pp_BuildNumber raw),
                    hp_Architecture = strings_TrimSpace (pp_Architecture raw),
                    hp_Manufacturer = strings_TrimSpace (pp_Manufacturer raw),
                    hp_Model = strings_TrimSpace (pp_Model raw),
                    hp_CPUModel = strings_TrimSpace (pp_CPUModel raw),
                    hp_CPUCoresPhysical = pp_CPUCoresPhysical raw, hp_CPUCoresLogical = pp_CPUCoresLogical raw,
                    hp_TotalMemoryGB = pp_TotalMemoryGB raw, hp_DiskCount = pp_DiskCount raw,
                    hp_Disks = stable_disks (pp_Disks raw), hp_Virtualization = pp_Virtualization raw\<rparr>))"

lemma CollectSystemProfile_disks:
  assumes "CollectSystemProfile parse output = Inr p"
  shows "sorted (map hd_Index (hp_Disks p))"
proof -
  have weak: "strict_weak (\<lambda>a b. hd_Index a < hd_Index b)"
    unfolding strict_weak_def by auto
  from assms obtain ds where "hp_Disks p = stable_disks ds"
    by (auto simp: CollectSystemProfile_def split: sum.splits if_splits option.splits)
  moreover have "sorted (map hd_Index ds)" if "\<not> length ds > 1" for ds :: "HostDisk list"
    using that by (cases ds rule: remdups_adj.cases) auto
  moreover have "sorted (map hd_Index (sort_Slice (\<lambda>a b. hd_Index a < hd_Index b) ds))" for ds :: "HostDisk list"
    using gosort.srt_sorted [OF weak] by (simp add: sorted_wrt_map not_less)
  ultimately show ?thesis by (simp add: stable_disks_def)
qed

subsection \<open>Running PowerShell\<close>

text \<open>
  The script, and how it is run; \<open>run\<close> is what a program prints with these arguments within 25 seconds, or
  the error of running it. What the script makes of the machine is left to PowerShell.
\<close>

definition profile_script :: string where
  "profile_script = strings_Join [
     ''$ErrorActionPreference='SilentlyContinue';'',
     ''$os = Get-CimInstance Win32_OperatingSystem | Select-Object Caption, Version, BuildNumber, OSArchitecture;'',
     ''$cs = Get-CimInstance Win32_ComputerSystem | Select-Object Manufacturer, Model, TotalPhysicalMemory;'',
     ''$cpu = Get-CimInstance Win32_Processor | Select-Object -First 1 Name, NumberOfCores, NumberOfLogicalProcessors;'',
     ''$diskDrives = Get-CimInstance Win32_DiskDrive | Select-Object Index, Model, Size;'',
     ''$disks = @();'',
     ''try { $gd = Get-Disk | Select-Object Number, BusType; } catch { $gd = @(); }'',
     ''foreach($d in $diskDrives){'',
     ''  $bus='' @ [CHR 0x27] @ [CHR 0x27] @ '';'',
     ''  $g = $gd | Where-Object { $_.Number -eq $d.Index } | Select-Object -First 1;'',
     ''  if($g){ $bus = [string]$g.BusType }'',
     ''  $disks += [pscustomobject]@'' @
     ''{ index=[int]$d.Index; size_gb=[int]([math]::Round(($d.Size/1GB),0)); model=[string]$d.Model; bus_type=$bus };'',
     ''}'',
     ''$m=[string]$cs.Model; $man=[string]$cs.Manufacturer;'',
     ''$isVirt=$false; $virtVendor='' @ [CHR 0x27] @ [CHR 0x27] @ ''; $virtModel='' @ [CHR 0x27] @ [CHR 0x27] @ '';'',
     ''$virtHints=@('vmware','virtualbox','kvm','hyper-v','xen','virtual');'',
     ''$check=($man+' '+$m).ToLower();'',
     ''foreach($h in $virtHints){ if($check -like ('*'+$h+'*')){ $isVirt=$true } }'',
     ''if($isVirt){ $virtVendor=$man; $virtModel=$m }'',
     ''$out=[pscustomobject]@'' @ ''{'',
     '' os_full_name=[string]$os.Caption;'',
     '' os_version=[string]$os.Version;'',
     '' build_number=[string]$os.BuildNumber;'',
     '' architecture=[string]$os.OSArchitecture;'',
     '' manufacturer=$man;'',
     '' model=$m;'',
     '' cpu_model=[string]$cpu.Name;'',
     '' cpu_cores_physical=[int]$cpu.NumberOfCores;'',
     '' cpu_cores_logical=[int]$cpu.NumberOfLogicalProcessors;'',
     '' total_memory_gb=[int]([math]::Round(($cs.TotalPhysicalMemory/1GB),0));'',
     '' disk_count=[int]$disks.Count;'',
     '' disks=$disks;'',
     '' virtualization=[pscustomobject]@'' @ ''{ is_virtual=$isVirt; vendor=$virtVendor; model=$virtModel }'',
     ''};'',
     ''$out | ConvertTo-Json -Compress''] '' ''"

definition profile_command :: "string \<times> string list" where
  "profile_command = (''powershell.exe'', [''-NoProfile'', ''-NonInteractive'', ''-Command'', profile_script])"

definition collect_profile :: "(string \<Rightarrow> string list \<Rightarrow> goerr + string) \<Rightarrow> (string \<Rightarrow> goerr + json) \<Rightarrow> goerr + HostProfile" where
  "collect_profile run parse = CollectSystemProfile parse (run (fst profile_command) (snd profile_command))"

lemma collect_profile_disks: "collect_profile run parse = Inr p \<Longrightarrow> sorted (map hd_Index (hp_Disks p))"
  unfolding collect_profile_def by (rule CollectSystemProfile_disks)

subsection \<open>The message\<close>

definition api_disk :: "HostDisk \<Rightarrow> SystemDisk" where
  "api_disk d = \<lparr>sd_Index = hd_Index d, sd_SizeGB = hd_SizeGB d, sd_Model = hd_Model d, sd_BusType = hd_BusType d\<rparr>"

definition api_profile :: "HostProfile \<Rightarrow> SystemProfile" where
  "api_profile p = \<lparr>sp_OSFullName = hp_OSFullName p, sp_OSVersion = hp_OSVersion p, sp_BuildNumber = hp_BuildNumber p,
     sp_Architecture = hp_Architecture p, sp_Manufacturer = hp_Manufacturer p, sp_Model = hp_Model p,
     sp_CPUModel = hp_CPUModel p, sp_CPUCoresPhysical = hp_CPUCoresPhysical p, sp_CPUCoresLogical = hp_CPUCoresLogical p,
     sp_TotalMemoryGB = hp_TotalMemoryGB p, sp_DiskCount = hp_DiskCount p, sp_Disks = map api_disk (hp_Disks p),
     sp_Virtualization = map_option (\<lambda>v. \<lparr>vi_IsVirtual = hv_IsVirtual v, vi_Vendor = hv_Vendor v, vi_Model = hv_Model v\<rparr>)
       (hp_Virtualization p)\<rparr>"

end
