(* ===== verification/Backoff.thy ===== *)
theory Backoff
  imports Go_Prelude
begin

section \<open>Exponential back-off\<close>

text \<open>
  The WebSocket client and the signal listener both wait longer after every failure in a row: the
  wait doubles up to a maximum. The contract is one equation, for waits whose double still is a
  64-bit duration; what follows from it is proved once.
\<close>

locale backoff_policy =
  fixes nxt :: "duration \<Rightarrow> duration" and hi :: duration
  assumes nxt_double: "int64_range (2 * b) \<Longrightarrow> nxt b = min (2 * b) hi"
begin

lemma nxt_iterate:
  assumes "0 < lo" and "lo \<le> 2 ^ 61" and "0 < hi" and "hi \<le> 2 ^ 61"
  shows "(nxt ^^ n) lo = (if n = 0 then lo else min (lo * 2 ^ n) hi)"
proof (induction n)
  case (Suc n)
  show ?case
  proof (cases n)
    case 0
    have "int64_range (2 * lo)" using assms by (simp add: int64_range_def)
    with 0 show ?thesis by (simp add: nxt_double mult.commute)
  next
    case (Suc m)
    have pos: "0 < lo * 2 ^ n" using assms(1) by simp
    have "int64_range (2 * min (lo * 2 ^ n) hi)"
      using assms(3,4) pos by (auto simp: int64_range_def min_def)
    then have "nxt (min (lo * 2 ^ n) hi) = min (2 * min (lo * 2 ^ n) hi) hi" by (rule nxt_double)
    also have "\<dots> = min (lo * 2 ^ Suc n) hi" using assms(3) pos by (simp add: min_def)
    finally show ?thesis using Suc.IH Suc by simp
  qed
qed simp

lemma nxt_bounds:
  assumes "0 < lo" and "lo \<le> hi" and "hi \<le> 2 ^ 61"
  shows "lo \<le> (nxt ^^ n) lo" and "(nxt ^^ n) lo \<le> hi"
proof -
  have "lo \<le> lo * 2 ^ n" using assms(1) by (simp add: mult_le_cancel_left1)
  then show "lo \<le> (nxt ^^ n) lo" and "(nxt ^^ n) lo \<le> hi"
    using assms nxt_iterate [of lo n] by auto
qed

end

end
