(* ===== verification/Heartbeat.thy ===== *)
theory Heartbeat
  imports Profile TaskQueue Backoff
begin

section \<open>Heartbeats (\<open>internal/heartbeat\<close>)\<close>

text \<open>
  The sender collects what the server should know, posts it, and hands the answer to the service
  loop; the signal listener holds a long poll open and wakes the sender. The sender's goroutine is
  the only one that touches the sender's fields, apart from the trigger channel and the flag
  \<open>wsActive\<close>. One call of \<open>sendOnce\<close> is a function of the sender, the installed-apps provider and
  the file system; what it reads from outside is the record \<open>hb_env\<close>.
\<close>

subsection \<open>State\<close>

record PollResult =
  pr_ServerTime :: gotime
  pr_Config :: "payload option"
  pr_Commands :: "Command list"
  pr_PendingAnnouncements :: "payload list"
  pr_InventorySyncRequired :: bool
  pr_RemoteSupportRequest :: "RemoteSupportRequest option"
  pr_RemoteSupportEnd :: "RemoteSupportEnd option"

text \<open>\<open>hs_resultsCap\<close> is the capacity of the result channel, \<open>None\<close> when there is no channel.\<close>

record Sender =
  hs_client :: ApiClient
  hs_results :: "PollResult list"
  hs_resultsCap :: "nat option"
  hs_triggerCh :: "unit list"
  hs_sysProfileStatePath :: string
  hs_sysProfileLastSent :: gotime
  hs_sysProfileLastHash :: string
  hs_servicesEnabled :: bool
  hs_servicesSyncNeeded :: bool
  hs_servicesIntervalMin :: int
  hs_servicesLastSent :: gotime
  hs_servicesLastHash :: string
  hs_wsActive :: bool

text \<open>
  The machine and the clock during one call: \<open>hx_profileNow\<close> and \<open>hx_servicesNow\<close> are read by the
  interval checks, \<open>hx_servicesSent\<close> when the service list is attached, \<open>hx_received\<close> when the
  answer is there. \<open>hx_sha\<close> is the hexadecimal SHA-256 of a text.
\<close>

record hb_env =
  hx_api :: api_env
  hx_orc :: fs_oracle
  hx_host :: host_world
  hx_user :: "string option"
  hx_wts :: wts_world
  hx_profileOut :: "goerr + string"
  hx_servicesOut :: "goerr + string"
  hx_sha :: "string \<Rightarrow> string"
  hx_parseTime :: "string \<Rightarrow> gotime option"
  hx_fmtTime :: "gotime \<Rightarrow> string"
  hx_profileNow :: gotime
  hx_servicesNow :: gotime
  hx_servicesSent :: gotime
  hx_received :: gotime

definition DefaultSystemProfileStatePath :: string where
  "DefaultSystemProfileStatePath =
     ''C:'' @ [CHR 0x5C] @ ''ProgramData'' @ [CHR 0x5C] @ ''AppCenter'' @ [CHR 0x5C] @ ''system_profile_state.json''"

definition NewSender :: "hb_env \<Rightarrow> ApiClient \<Rightarrow> nat option \<Rightarrow> fs \<Rightarrow> Sender" where
  "NewSender env client cap s =
     (let statePath = DefaultSystemProfileStatePath;
          (lastSent, lastHash) =
            (case LoadSystemProfileState (hx_orc env) (ae_parse (hx_api env)) statePath s of
               Inl err \<Rightarrow> (0, [])
             | Inr st \<Rightarrow> (case ParseUTC (hx_parseTime env) (sps_LastSentAtUTC st) of None \<Rightarrow> 0 | Some t \<Rightarrow> t, sps_LastHash st))
      in \<lparr>hs_client = client, hs_results = [], hs_resultsCap = cap, hs_triggerCh = [],
          hs_sysProfileStatePath = statePath, hs_sysProfileLastSent = lastSent, hs_sysProfileLastHash = lastHash,
          hs_servicesEnabled = False, hs_servicesSyncNeeded = False, hs_servicesIntervalMin = 10,
          hs_servicesLastSent = 0, hs_servicesLastHash = [], hs_wsActive = False\<rparr>)"

definition TriggerNow :: "Sender \<Rightarrow> Sender" where
  "TriggerNow s = s\<lparr>hs_triggerCh := chan_kick (hs_triggerCh s)\<rparr>"

definition SetWSActive :: "bool \<Rightarrow> Sender \<Rightarrow> Sender" where
  "SetWSActive active s = s\<lparr>hs_wsActive := active\<rparr>"

subsection \<open>Services\<close>

definition hashServices :: "hb_env \<Rightarrow> ServiceItem list \<Rightarrow> string" where
  "hashServices env items = hx_sha env (ae_print (hx_api env) (JArr (map encode_ServiceItem items)))"

definition api_services :: "ServiceInfo list \<Rightarrow> ServiceItem list" where
  "api_services rows =
     map (\<lambda>r. \<lparr>si_Name = svc_Name r, si_DisplayName = svc_DisplayName r, si_Status = svc_Status r,
                si_StartupType = svc_StartupType r, si_PID = svc_PID r, si_RunAs = svc_RunAs r,
                si_Description = svc_Description r\<rparr>)
       (filter (\<lambda>r. svc_Name r \<noteq> []) rows)"

definition services_due :: "gotime \<Rightarrow> Sender \<Rightarrow> bool" where
  "services_due now s =
     (let intervalMin = (if hs_servicesIntervalMin s \<le> 0 then 10 else hs_servicesIntervalMin s)
      in hs_servicesSyncNeeded s \<or> hs_servicesLastHash s = [] \<or> time_IsZero (hs_servicesLastSent s) \<or>
         time_Sub now (hs_servicesLastSent s) \<ge> dur_mul intervalMin dur_minute)"

definition maybeAttachServices :: "hb_env \<Rightarrow> Sender \<times> HeartbeatRequest \<Rightarrow> Sender \<times> HeartbeatRequest" where
  "maybeAttachServices env = (\<lambda>(s, req).
     if \<not> hs_servicesEnabled s then (s, req)
     else if \<not> services_due (hx_servicesNow env) s then (s, req\<lparr>hb_ServicesHash := hs_servicesLastHash s\<rparr>)
     else case CollectServices (ae_parse (hx_api env)) (hx_servicesOut env) of
       Inl err \<Rightarrow> (s, if hs_servicesLastHash s \<noteq> [] then req\<lparr>hb_ServicesHash := hs_servicesLastHash s\<rparr> else req)
     | Inr rows \<Rightarrow>
         let items = api_services rows; hash = hashServices env items; req' = req\<lparr>hb_ServicesHash := hash\<rparr> in
         if hs_servicesSyncNeeded s \<or> hash \<noteq> hs_servicesLastHash s
         then (s\<lparr>hs_servicesLastHash := hash, hs_servicesLastSent := hx_servicesSent env\<rparr>, req'\<lparr>hb_Services := items\<rparr>)
         else (s, req'))"

subsection \<open>The system profile\<close>

text \<open>The struct tags of \<open>system.SystemProfile\<close> are those of the message, so its JSON text is the same.\<close>

definition hashSystemProfile :: "hb_env \<Rightarrow> HostProfile \<Rightarrow> string" where
  "hashSystemProfile env p = hx_sha env (ae_print (hx_api env) (encode_SystemProfile (api_profile p)))"

definition maybeAttachSystemProfile ::
    "hb_env \<Rightarrow> Config \<Rightarrow> Sender \<times> HeartbeatRequest \<times> fs \<Rightarrow> Sender \<times> HeartbeatRequest \<times> fs" where
  "maybeAttachSystemProfile env cfg = (\<lambda>(s, req, disk).
     let intervalMin = spc_ReportIntervalMin (cfg_SystemProfile cfg); now = hx_profileNow env in
     if intervalMin \<le> 0 then (s, req, disk)
     else if \<not> time_IsZero (hs_sysProfileLastSent s) \<and>
             time_Sub now (hs_sysProfileLastSent s) < dur_mul intervalMin dur_minute then (s, req, disk)
     else case CollectSystemProfile (ae_parse (hx_api env)) (hx_profileOut env) of
       Inl err \<Rightarrow> (s, req, disk)
     | Inr p \<Rightarrow>
         let h = hashSystemProfile env p;
             (err, disk') = SaveSystemProfileState (hx_orc env) (ae_print (hx_api env)) (hs_sysProfileStatePath s)
               \<lparr>sps_LastSentAtUTC = hx_fmtTime env now, sps_LastHash = h\<rparr> disk
         in (s\<lparr>hs_sysProfileLastSent := now, hs_sysProfileLastHash := h\<rparr>,
             req\<lparr>hb_SystemProfile := Some (api_profile p)\<rparr>, disk'))"

subsection \<open>One heartbeat\<close>

text \<open>
  The parameters \<open>consume\<close>, \<open>hash\<close> and \<open>remote\<close> are the three providers: \<open>ConsumeAppsChanged\<close> on the
  state of the installed-apps provider, the current inventory hash, and the remote support status;
  \<open>None\<close> is a nil provider.
\<close>

definition heartbeat_request ::
    "hb_env \<Rightarrow> Config \<Rightarrow> bool \<Rightarrow> InstalledApp list \<Rightarrow> string option \<Rightarrow> HeartbeatRequest" where
  "heartbeat_request env cfg appsChanged installedApps inventoryHash =
     (let info = CollectHostInfo (hx_host env)
      in \<lparr>hb_Hostname = hi_Hostname info, hb_IPAddress = hi_IPAddress info, hb_FullIP = hi_IPAddresses info,
          hb_UptimeSec = hi_UptimeSec info, hb_OSUser = (case hx_user env of None \<Rightarrow> [] | Some u \<Rightarrow> u),
          hb_OSVersion = hi_OSVersion info, hb_Platform = ''windows'', hb_Arch = hw_GOARCH (hx_host env),
          hb_Distro = ''windows'', hb_DistroVersion = [], hb_AgentVersion = agt_Version (cfg_Agent cfg),
          hb_CPUModel = hi_CPUModel info, hb_RAMGB = hi_RAMGB info, hb_DiskFreeGB = hi_DiskFreeGB info,
          hb_CPUUsage = 0, hb_RAMUsage = 0, hb_CurrentStatus = ''Idle'', hb_AppsChanged = appsChanged,
          hb_InstalledApps = installedApps,
          hb_InventoryHash = (case inventoryHash of None \<Rightarrow> [] | Some h \<Rightarrow> h),
          hb_ServicesHash = [], hb_Services = [],
          hb_LoggedInSessions = GetLoggedInSessions (hx_wts env),
          hb_SystemProfile = None, hb_RemoteSupport = None\<rparr>)"

definition take_apps :: "('q \<Rightarrow> (bool \<times> InstalledApp list) \<times> 'q) option \<Rightarrow> bool \<Rightarrow> 'q \<Rightarrow> bool \<times> InstalledApp list \<times> 'q" where
  "take_apps consume appsChanged q =
     (case consume of
        None \<Rightarrow> (appsChanged, [], q)
      | Some c \<Rightarrow> (case c q of ((ch, as), q') \<Rightarrow> if ch then (True, as, q') else (appsChanged, [], q')))"

definition with_remote :: "RemoteSupportStatus option \<Rightarrow> HeartbeatRequest \<Rightarrow> HeartbeatRequest" where
  "with_remote remote req = (case remote of None \<Rightarrow> req | Some st \<Rightarrow> req\<lparr>hb_RemoteSupport := Some st\<rparr>)"

definition build_request ::
    "hb_env \<Rightarrow> Config \<Rightarrow> ('q \<Rightarrow> (bool \<times> InstalledApp list) \<times> 'q) option \<Rightarrow> string option \<Rightarrow>
     RemoteSupportStatus option \<Rightarrow> bool \<Rightarrow> Sender \<times> 'q \<times> fs \<Rightarrow> HeartbeatRequest \<times> Sender \<times> 'q \<times> fs" where
  "build_request env cfg consume hash remote appsChanged = (\<lambda>(s, q, disk).
     case take_apps consume appsChanged q of
       (changed, apps, q1) \<Rightarrow>
     (case maybeAttachSystemProfile env cfg (s, heartbeat_request env cfg changed apps hash, disk) of
       (s1, req1, disk1) \<Rightarrow>
     (case maybeAttachServices env (s1, req1) of
       (s2, req2) \<Rightarrow> (with_remote remote req2, s2, q1, disk1))))"

lemma build_request_cases:
  assumes "build_request env cfg consume hash remote ch w = (req, s', q', disk')"
  obtains changed apps s1 r1 s2 r2
  where "take_apps consume ch (fst (snd w)) = (changed, apps, q')"
    and "maybeAttachSystemProfile env cfg (fst w, heartbeat_request env cfg changed apps hash, snd (snd w)) = (s1, r1, disk')"
    and "maybeAttachServices env (s1, r1) = (s', r2)" and "req = with_remote remote r2"
  using assms by (auto simp: build_request_def split: prod.splits)

text \<open>What the answer's configuration changes in the sender, and whether the server asks for the inventory.\<close>

definition config_bool :: "payload option \<Rightarrow> string \<Rightarrow> bool \<Rightarrow> bool" where
  "config_bool config key old =
     (case config of None \<Rightarrow> old | Some m \<Rightarrow> (case jbool m key of None \<Rightarrow> old | Some b \<Rightarrow> b))"

definition apply_heartbeat_config :: "payload option \<Rightarrow> Sender \<Rightarrow> Sender" where
  "apply_heartbeat_config config s =
     (let minutes = (case config of None \<Rightarrow> 0
        | Some m \<Rightarrow> (case as_float (jget_any m ''inventory_scan_interval_min'') of None \<Rightarrow> 0 | Some f \<Rightarrow> f64_to_int f))
      in s\<lparr>hs_servicesEnabled := config_bool config ''service_monitoring_enabled'' (hs_servicesEnabled s),
           hs_servicesSyncNeeded := config_bool config ''services_sync_required'' (hs_servicesSyncNeeded s),
           hs_servicesIntervalMin := (if minutes > 0 then minutes else hs_servicesIntervalMin s)\<rparr>)"

definition poll_result :: "hb_env \<Rightarrow> HeartbeatResponse \<Rightarrow> PollResult" where
  "poll_result env resp =
     \<lparr>pr_ServerTime = (case hx_parseTime env (hr_ServerTime resp) of None \<Rightarrow> hx_received env | Some t \<Rightarrow> t),
      pr_Config = hr_Config resp, pr_Commands = hr_Commands resp,
      pr_PendingAnnouncements = hr_PendingAnnouncements resp,
      pr_InventorySyncRequired = config_bool (hr_Config resp) ''inventory_sync_required'' False,
      pr_RemoteSupportRequest = hr_RemoteSupportRequest resp, pr_RemoteSupportEnd = hr_RemoteSupportEnd resp\<rparr>"

definition deliver :: "PollResult \<Rightarrow> Sender \<Rightarrow> Sender" where
  "deliver r s =
     (case hs_resultsCap s of
        None \<Rightarrow> s
      | Some cap \<Rightarrow> s\<lparr>hs_results := snd (chan_try_send cap r (hs_results s))\<rparr>)"

definition sendOnce ::
    "hb_env \<Rightarrow> Config \<Rightarrow> ('q \<Rightarrow> (bool \<times> InstalledApp list) \<times> 'q) option \<Rightarrow> string option \<Rightarrow>
     RemoteSupportStatus option \<Rightarrow> bool \<Rightarrow> Sender \<times> 'q \<times> fs \<Rightarrow> HeartbeatRequest \<times> Sender \<times> 'q \<times> fs" where
  "sendOnce env cfg consume hash remote appsChanged w =
     (case build_request env cfg consume hash remote appsChanged w of
        (req, s, q, disk) \<Rightarrow>
          (req,
           (case Heartbeat (hx_api env) (hs_client s) (agt_UUID (cfg_Agent cfg)) (agt_SecretKey (cfg_Agent cfg)) req of
              Inl err \<Rightarrow> s
            | Inr resp \<Rightarrow> deliver (poll_result env resp) (apply_heartbeat_config (hr_Config resp) s)),
           q, disk))"

text \<open>
  The loop of \<open>Start\<close>, one event at a time. A tick of the ticker does nothing while the WebSocket is
  connected; a token of the trigger channel sends a heartbeat whether it is or not. The initial
  heartbeat is an event of its own.
\<close>

datatype hb_event = HbInitial | HbTick | HbTrigger

definition hb_turn ::
    "hb_env \<Rightarrow> Config \<Rightarrow> ('q \<Rightarrow> (bool \<times> InstalledApp list) \<times> 'q) option \<Rightarrow> string option \<Rightarrow>
     RemoteSupportStatus option \<Rightarrow> hb_event \<Rightarrow> Sender \<times> 'q \<times> fs \<Rightarrow> HeartbeatRequest option \<times> Sender \<times> 'q \<times> fs" where
  "hb_turn env cfg consume hash remote e w =
     (case (w, e) of
        ((s, q, disk), HbTick) \<Rightarrow>
          if hs_wsActive s then (None, w)
          else (case sendOnce env cfg consume hash remote False w of (req, w') \<Rightarrow> (Some req, w'))
      | ((s, q, disk), HbTrigger) \<Rightarrow>
          (case hs_triggerCh s of
             [] \<Rightarrow> (None, w)
           | t # ts \<Rightarrow> (case sendOnce env cfg consume hash remote False (s\<lparr>hs_triggerCh := ts\<rparr>, q, disk) of
               (req, w') \<Rightarrow> (Some req, w')))
      | (_, HbInitial) \<Rightarrow> (case sendOnce env cfg consume hash remote False w of (req, w') \<Rightarrow> (Some req, w')))"

subsection \<open>The signal listener\<close>

definition signalBackoffMin :: duration where "signalBackoffMin = 2 * dur_second"
definition signalBackoffMax :: duration where "signalBackoffMax = 60 * dur_second"

definition signal_next :: "duration \<Rightarrow> duration" where
  "signal_next backoff =
     (let b = wrap64 (backoff * 2) in if b > signalBackoffMax then signalBackoffMax else b)"

text \<open>
  \<open>Start\<close> over the turns of its loop while the context lives: whether the WebSocket is connected, and
  otherwise the result of the long poll. Each turn gives the wait that follows it, and whether the
  sender was woken.
\<close>

fun signal_Start :: "duration \<Rightarrow> (bool \<times> (goerr + SignalResponse)) list \<Rightarrow> (duration \<times> bool) list" where
  "signal_Start backoff [] = []"
| "signal_Start backoff ((wsActive, resp) # turns) =
     (if wsActive then (5 * dur_second, False) # signal_Start backoff turns
      else case resp of
        Inl err \<Rightarrow> (backoff, False) # signal_Start (signal_next backoff) turns
      | Inr r \<Rightarrow> (0, sig_Status r = ''signal'') # signal_Start signalBackoffMin turns)"

subsection \<open>The installed-apps provider\<close>

text \<open>
  What the sender relies on: a pending announcement is handed out once, and asking when there is none
  changes nothing. The task queue provides it.
\<close>

locale apps_announcer =
  fixes consume :: "'q \<Rightarrow> (bool \<times> InstalledApp list) \<times> 'q" and pending :: "'q \<Rightarrow> bool"
  assumes consume_flag: "fst (fst (consume q)) = pending q"
    and consume_once: "\<not> pending (snd (consume q))"
    and consume_idle: "\<not> pending q \<Longrightarrow> consume q = ((False, []), q)"
begin

lemma consume_twice: "consume (snd (consume q)) = ((False, []), snd (consume q))"
  by (rule consume_idle [OF consume_once])

end

interpretation tq_apps: apps_announcer ConsumeAppsChanged q_appsChanged
  by unfold_locales (auto simp: ConsumeAppsChanged_def Let_def)

lemma maybeAttachServices_apps:
  "maybeAttachServices env (s, req) = (s', req') \<Longrightarrow>
     hb_AppsChanged req' = hb_AppsChanged req \<and> hb_InstalledApps req' = hb_InstalledApps req"
  by (auto simp: maybeAttachServices_def Let_def split: if_splits sum.splits)

lemma maybeAttachSystemProfile_apps:
  "maybeAttachSystemProfile env cfg (s, req, disk) = (s', req', disk') \<Longrightarrow>
     hb_AppsChanged req' = hb_AppsChanged req \<and> hb_InstalledApps req' = hb_InstalledApps req"
  by (auto simp: maybeAttachSystemProfile_def Let_def split_def split: if_splits sum.splits)

lemma heartbeat_request_apps [simp]:
  "hb_AppsChanged (heartbeat_request env cfg ch apps h) = ch"
  "hb_InstalledApps (heartbeat_request env cfg ch apps h) = apps"
  by (simp_all add: heartbeat_request_def Let_def)

context apps_announcer begin

lemma build_request_apps:
  assumes "build_request env cfg (Some consume) hash remote False (s, q, disk) = (req, s', q', disk')"
  shows "hb_AppsChanged req = pending q"
    and "hb_InstalledApps req = (if pending q then snd (fst (consume q)) else [])"
    and "q' = snd (consume q)"
proof -
  obtain ch apps q1 where c: "consume q = ((ch, apps), q1)" by (metis prod.collapse)
  then have ch: "ch = pending q" using consume_flag [of q] by simp
  from assms obtain changed apps' s1 r1 r2
    where t: "take_apps (Some consume) False q = (changed, apps', q')"
      and p: "maybeAttachSystemProfile env cfg (s, heartbeat_request env cfg changed apps' hash, disk) = (s1, r1, disk')"
      and v: "maybeAttachServices env (s1, r1) = (s', r2)" and req: "req = with_remote remote r2"
    by (rule build_request_cases) simp
  have "changed = ch \<and> apps' = (if ch then apps else []) \<and> q' = q1"
    using t c by (cases ch) (auto simp: take_apps_def)
  with maybeAttachSystemProfile_apps [OF p] maybeAttachServices_apps [OF v] c
  show "hb_AppsChanged req = pending q"
    and "hb_InstalledApps req = (if pending q then snd (fst (consume q)) else [])"
    and "q' = snd (consume q)"
    by (simp_all add: ch req with_remote_def split: option.split)
qed

lemma sendOnce_apps:
  assumes "sendOnce env cfg (Some consume) hash remote False (s, q, disk) = (req, s', q', disk')"
  shows "hb_AppsChanged req = pending q"
    and "hb_InstalledApps req = (if pending q then snd (fst (consume q)) else [])"
    and "q' = snd (consume q)"
  using build_request_apps [of env cfg hash remote s q disk] assms
  by (cases "build_request env cfg (Some consume) hash remote False (s, q, disk)"; simp add: sendOnce_def)+

end

text \<open>C31. A change of the installed applications is announced by one heartbeat only: the first heartbeat after
  it carries the flag and the whole list, and no later one does until something is installed again,
  whether or not the server ever answered the first (the flag is taken before the request is sent and
  not put back when it fails).\<close>

theorem heartbeat_announces_once:
  assumes "sendOnce env cfg (Some ConsumeAppsChanged) hash remote False (s, q, disk) = (req, s1, q1, disk1)"
    and "sendOnce env' cfg' (Some ConsumeAppsChanged) hash' remote' False (s1, q1, disk1) = (req', s2, q2, disk2)"
  shows "hb_AppsChanged req = q_appsChanged q \<and>
    hb_InstalledApps req = (if q_appsChanged q then snd (fst (ConsumeAppsChanged q)) else []) \<and>
    \<not> hb_AppsChanged req' \<and> hb_InstalledApps req' = [] \<and> q2 = q1"
  using tq_apps.sendOnce_apps [OF assms(1)] tq_apps.sendOnce_apps [OF assms(2)]
    tq_apps.consume_once tq_apps.consume_twice by auto

subsection \<open>The results\<close>

text \<open>Heartbeats one after the other, with nobody taking results out of the channel.\<close>

fun hb_run ::
    "(hb_env \<times> Config \<times> string option \<times> RemoteSupportStatus option) list \<Rightarrow>
     ('q \<Rightarrow> (bool \<times> InstalledApp list) \<times> 'q) option \<Rightarrow> Sender \<times> 'q \<times> fs \<Rightarrow> (HeartbeatRequest list) \<times> Sender \<times> 'q \<times> fs" where
  "hb_run [] consume w = ([], w)"
| "hb_run ((env, cfg, hash, remote) # es) consume w =
     (case sendOnce env cfg consume hash remote False w of
        (req, w') \<Rightarrow> (case hb_run es consume w' of (reqs, w'') \<Rightarrow> (req # reqs, w'')))"

definition answer_result ::
    "ApiClient \<Rightarrow> hb_env \<times> Config \<times> string option \<times> RemoteSupportStatus option \<Rightarrow> HeartbeatRequest \<Rightarrow> PollResult option" where
  "answer_result client = (\<lambda>(env, cfg, hash, remote) req.
     case Heartbeat (hx_api env) client (agt_UUID (cfg_Agent cfg)) (agt_SecretKey (cfg_Agent cfg)) req of
       Inl err \<Rightarrow> None | Inr resp \<Rightarrow> Some (poll_result env resp))"

lemma maybeAttachServices_frame:
  "maybeAttachServices env (s, req) = (s', req') \<Longrightarrow>
     hs_results s' = hs_results s \<and> hs_resultsCap s' = hs_resultsCap s \<and> hs_client s' = hs_client s \<and>
       hs_triggerCh s' = hs_triggerCh s \<and> hs_wsActive s' = hs_wsActive s"
  by (auto simp: maybeAttachServices_def Let_def split: if_splits sum.splits)

lemma maybeAttachSystemProfile_frame:
  "maybeAttachSystemProfile env cfg (s, req, disk) = (s', req', disk') \<Longrightarrow>
     hs_results s' = hs_results s \<and> hs_resultsCap s' = hs_resultsCap s \<and> hs_client s' = hs_client s \<and>
       hs_triggerCh s' = hs_triggerCh s \<and> hs_wsActive s' = hs_wsActive s"
  by (auto simp: maybeAttachSystemProfile_def Let_def split_def split: if_splits sum.splits)

lemma build_request_frame:
  assumes "build_request env cfg consume hash remote ch (s, q, disk) = (req, s', q', disk')"
  shows "hs_results s' = hs_results s \<and> hs_resultsCap s' = hs_resultsCap s \<and> hs_client s' = hs_client s \<and>
       hs_triggerCh s' = hs_triggerCh s \<and> hs_wsActive s' = hs_wsActive s"
proof -
  from assms obtain changed apps s1 r1 r2
    where p: "maybeAttachSystemProfile env cfg (s, heartbeat_request env cfg changed apps hash, disk) = (s1, r1, disk')"
      and v: "maybeAttachServices env (s1, r1) = (s', r2)"
    by (rule build_request_cases) simp
  from maybeAttachSystemProfile_frame [OF p] maybeAttachServices_frame [OF v] show ?thesis by simp
qed

lemma sendOnce_results:
  assumes "sendOnce env cfg consume hash remote False (s, q, disk) = (req, s', q', disk')"
    and "hs_resultsCap s = Some cap" and "length (hs_results s) \<le> cap"
  shows "hs_results s' = take cap (hs_results s @ (case answer_result (hs_client s) (env, cfg, hash, remote) req of None \<Rightarrow> [] | Some r \<Rightarrow> [r]))
    \<and> hs_resultsCap s' = Some cap \<and> hs_client s' = hs_client s \<and>
    hs_triggerCh s' = hs_triggerCh s \<and> hs_wsActive s' = hs_wsActive s"
proof -
  obtain req0 s0 q0 d0 where b: "build_request env cfg consume hash remote False (s, q, disk) = (req0, s0, q0, d0)"
    by (metis prod_cases4)
  from build_request_frame [OF b] assms show ?thesis
    by (auto simp: sendOnce_def b answer_result_def deliver_def apply_heartbeat_config_def chan_try_send_def Let_def
        split: sum.splits)
qed

lemma take_append_take: "take n (take n xs @ ys) = take n (xs @ ys)"
  by (cases "n \<le> length xs") simp_all

lemma map_filter_Cons: "List.map_filter f (x # xs) = (case f x of None \<Rightarrow> [] | Some y \<Rightarrow> [y]) @ List.map_filter f xs"
  by (simp add: List.map_filter_simps split: option.split)

text \<open>Answers reach the service loop in order, and only as far as the channel holds them: while the loop does
  not take any, the channel holds the first results, up to its capacity, of the heartbeats that were
  answered; a result that finds it full is dropped with all its commands.\<close>

theorem heartbeat_results:
  assumes "hb_run es consume (s, q, disk) = (reqs, s', q', disk')"
    and "hs_resultsCap s = Some cap" and "length (hs_results s) \<le> cap"
  shows "hs_results s' = take cap (hs_results s @
    List.map_filter (\<lambda>(e, req). answer_result (hs_client s) e req) (zip es reqs))"
  using assms
proof (induction es arbitrary: s q disk reqs)
  case Nil
  then show ?case by (simp add: List.map_filter_simps)
next
  case (Cons e es)
  obtain env cfg hash remote where e: "e = (env, cfg, hash, remote)" by (metis prod_cases4)
  obtain req s1 q1 d1 where so: "sendOnce env cfg consume hash remote False (s, q, disk) = (req, s1, q1, d1)"
    by (metis prod_cases4)
  obtain reqs' where rest: "hb_run es consume (s1, q1, d1) = (reqs', s', q', disk')" and reqs: "reqs = req # reqs'"
    using Cons.prems(1) so e by (auto split: prod.splits)
  let ?one = "case answer_result (hs_client s) e req of None \<Rightarrow> [] | Some r \<Rightarrow> [r]"
  let ?more = "List.map_filter (\<lambda>(e, req). answer_result (hs_client s) e req) (zip es reqs')"
  have step: "hs_results s1 = take cap (hs_results s @ ?one)" "hs_resultsCap s1 = Some cap" "hs_client s1 = hs_client s"
    using sendOnce_results [OF so Cons.prems(2,3)] by (simp_all only: e)
  then have "length (hs_results s1) \<le> cap" by simp
  from Cons.IH [OF rest step(2) this] have "hs_results s' = take cap (take cap (hs_results s @ ?one) @ ?more)"
    by (simp only: step)
  also have "\<dots> = take cap (hs_results s @ ?one @ ?more)" by (simp only: take_append_take append_assoc)
  also have "?one @ ?more = List.map_filter (\<lambda>(e, req). answer_result (hs_client s) e req) (zip (e # es) reqs)"
    by (simp only: reqs zip_Cons_Cons map_filter_Cons prod.case)
  finally show ?case .
qed

definition answering_api :: api_env where
  "answering_api = \<lparr>ae_do = (\<lambda>t req. Inr \<lparr>rs_StatusCode = 200, rs_Status = ''200 OK'', rs_Header = [], rs_Body = ''{}'', rs_BodyErr = None\<rparr>),
     ae_print = (\<lambda>j. []), ae_parse = (\<lambda>s. Inr (JObj [])), ae_first = (\<lambda>s. Inr (JObj []))\<rparr>"

definition sample_hb_env :: hb_env where
  "sample_hb_env = \<lparr>hx_api = answering_api, hx_orc = no_faults,
     hx_host = \<lparr>hw_Hostname = ''pc'', hw_GOOS = ''windows'', hw_GOARCH = ''amd64'', hw_interfaces = Inr [], hw_cpu = None,
       hw_totalPhys = None, hw_diskFree = None, hw_ticks = 0\<rparr>,
     hx_user = None, hx_wts = \<lparr>ww_sessions = [], ww_user = (\<lambda>_. []), ww_domain = (\<lambda>_. []), ww_protocol = (\<lambda>_. 0)\<rparr>,
     hx_profileOut = Inl ErrNotExist, hx_servicesOut = Inl ErrNotExist, hx_sha = (\<lambda>_. ''0''),
     hx_parseTime = (\<lambda>_. None), hx_fmtTime = (\<lambda>_. []), hx_profileNow = 5, hx_servicesNow = 6, hx_servicesSent = 7,
     hx_received = 8\<rparr>"

definition sample_sender :: Sender where
  "sample_sender = NewSender sample_hb_env sample_client (Some 1) Map.empty"

lemma answering_Heartbeat: "Heartbeat answering_api client u k req = Inr (the (decode_HeartbeatResponse (JObj [])))"
  by (simp add: Heartbeat_def postJSON_def read_response_def answering_api_def Let_def decode_HeartbeatResponse_def
      decode_struct_def)

lemma sample_sender_simps:
  "hs_resultsCap sample_sender = Some 1" "hs_results sample_sender = []" "hs_client sample_sender = sample_client"
  by (simp_all add: sample_sender_def NewSender_def Let_def split_def)

theorem heartbeat_announces_once_witness:
  "let (req, s1, q1, d1) = sendOnce sample_hb_env Default (Some ConsumeAppsChanged) None None False
         (sample_sender, handleSuccess (zero_Command\<lparr>cmd_AppID := 7\<rparr>) (NewTaskQueue 3), Map.empty);
       (req', s2, q2, d2) = sendOnce sample_hb_env Default (Some ConsumeAppsChanged) None None False (s1, q1, d1)
   in hb_AppsChanged req \<and> \<not> hb_AppsChanged req'"
proof -
  let ?q = "handleSuccess (zero_Command\<lparr>cmd_AppID := 7\<rparr>) (NewTaskQueue 3)"
  obtain req s1 q1 d1 where a: "sendOnce sample_hb_env Default (Some ConsumeAppsChanged) None None False
      (sample_sender, ?q, Map.empty) = (req, s1, q1, d1)" by (metis prod_cases4)
  obtain req' s2 q2 d2 where b: "sendOnce sample_hb_env Default (Some ConsumeAppsChanged) None None False
      (s1, q1, d1) = (req', s2, q2, d2)" by (metis prod_cases4)
  have "q_appsChanged ?q" by (simp add: handleSuccess_def zero_Command_def Let_def)
  with heartbeat_announces_once [OF a b] a b show ?thesis by simp
qed

theorem heartbeat_results_witness:
  "let e = (sample_hb_env, Default, None, None); (reqs, s', q', d') = hb_run [e, e] (Some ConsumeAppsChanged)
         (sample_sender, NewTaskQueue 3, Map.empty)
   in length (hs_results s') = 1"
proof -
  let ?e = "(sample_hb_env, Default, None, None)"
  obtain reqs s' q' d' where r: "hb_run [?e, ?e] (Some ConsumeAppsChanged) (sample_sender, NewTaskQueue 3, Map.empty) = (reqs, s', q', d')"
    by (metis prod_cases4)
  then have "length reqs = 2" by (auto split: prod.splits)
  then obtain a b where reqs: "reqs = [a, b]" by (auto simp: numeral_2_eq_2 length_Suc_conv)
  have "answer_result sample_client ?e req = Some (poll_result sample_hb_env (the (decode_HeartbeatResponse (JObj []))))" for req
    by (simp add: answer_result_def answering_Heartbeat sample_hb_env_def)
  with heartbeat_results [OF r sample_sender_simps(1)] have "length (hs_results s') = 1"
    by (simp add: sample_sender_simps reqs List.map_filter_simps)
  with r show ?thesis by simp
qed

subsection \<open>Waiting for signals\<close>

interpretation signal_backoff: backoff_policy signal_next signalBackoffMax
  by unfold_locales (simp add: signal_next_def Let_def wrap64_id mult.commute min_def)

text \<open>The \<open>n\<close>-th failure in a row is followed by a wait of twice the previous one, from 2 s to 60 s.\<close>

lemma signal_Start_failures:
  "length errs = Suc n \<Longrightarrow>
   last (signal_Start signalBackoffMin (map (\<lambda>e. (False, Inl e)) errs)) = (min (signalBackoffMin * 2 ^ n) signalBackoffMax, False)"
proof -
  have gen: "length errs = Suc n \<Longrightarrow> last (signal_Start b (map (\<lambda>e. (False, Inl e)) errs)) = ((signal_next ^^ n) b, False)"
    for errs :: "goerr list" and n b
  proof (induction n arbitrary: b errs)
    case 0
    then show ?case by (auto simp: length_Suc_conv)
  next
    case (Suc n)
    then obtain e e' es where errs: "errs = e # e' # es" and len: "length (e' # es) = Suc n"
      by (auto simp: length_Suc_conv)
    from Suc.IH [OF len, of "signal_next b"] show ?case by (simp add: errs funpow_swap1)
  qed
  assume "length errs = Suc n"
  moreover have "(signal_next ^^ n) signalBackoffMin = min (signalBackoffMin * 2 ^ n) signalBackoffMax"
    using signal_backoff.nxt_iterate [of signalBackoffMin n]
    by (auto simp: signalBackoffMin_def signalBackoffMax_def dur_second_def)
  ultimately show ?thesis using gen by metis
qed

end
