(* ===== verification/Inventory.thy ===== *)
theory Inventory
  imports System
begin

section \<open>Software inventory (\<open>internal/inventory\<close>)\<close>

text \<open>
  Scanning the installed software (registry and store packages), its hash, and the manager that
  keeps the last scan. The registry and PowerShell's answer are parameters, and so are the digest of
  the JSON text of a list of items and the clock. A Go panic is the result \<open>None\<close>.
\<close>

subsection \<open>Items and their hash\<close>

record SoftwareItem =
  sw_Name :: string
  sw_Version :: string
  sw_Publisher :: string
  sw_InstallDate :: string
  sw_EstimatedSizeKB :: int
  sw_Architecture :: string

record SubmitRequest =
  sub_InventoryHash :: string
  sub_SoftwareCount :: int
  sub_Items :: "SoftwareItem list"

text \<open>\<open>sha\<close> is the hexadecimal digest of the JSON text of the items: 64 characters.\<close>

definition computeHash :: "(SoftwareItem list \<Rightarrow> string) \<Rightarrow> SoftwareItem list \<Rightarrow> string" where
  "computeHash sha items =
     (if items = [] then ''empty'' else sha (sort_Slice (\<lambda>a b. sw_Name a < sw_Name b) items))"

subsection \<open>The manager\<close>

record InventoryManager =
  im_lastHash :: string
  im_lastItems :: "SoftwareItem list"
  im_scanIntervalMin :: int
  im_lastScanTime :: gotime

definition InventoryNewManager :: InventoryManager where
  "InventoryNewManager = \<lparr>im_lastHash = [], im_lastItems = [], im_scanIntervalMin = 10, im_lastScanTime = 0\<rparr>"

definition SetScanInterval :: "int \<Rightarrow> InventoryManager \<Rightarrow> InventoryManager" where
  "SetScanInterval minutes m = (if minutes > 0 then m\<lparr>im_scanIntervalMin := minutes\<rparr> else m)"

definition GetCurrentHash :: "InventoryManager \<Rightarrow> string" where
  "GetCurrentHash m = im_lastHash m"

text \<open>The slice \<open>hash[:12]\<close> in the log line: it panics on a shorter string.\<close>

definition slice_to :: "nat \<Rightarrow> string \<Rightarrow> string option" where
  "slice_to n s = (if n \<le> length s then Some (take n s) else None)"

definition recordScan :: "(SoftwareItem list \<Rightarrow> string) \<Rightarrow> gotime \<Rightarrow> SoftwareItem list \<Rightarrow> InventoryManager \<Rightarrow> InventoryManager option" where
  "recordScan sha now items m =
     (let hash = computeHash sha items;
          m' = m\<lparr>im_lastItems := items, im_lastHash := hash, im_lastScanTime := now\<rparr>
      in case slice_to 12 hash of None \<Rightarrow> None | Some _ \<Rightarrow> Some m')"

definition ForceScan :: "(SoftwareItem list \<Rightarrow> string) \<Rightarrow> gotime \<Rightarrow> SoftwareItem list \<Rightarrow> InventoryManager \<Rightarrow> InventoryManager option" where
  "ForceScan sha now scan m = recordScan sha now scan m"

definition ScanIfNeeded :: "(SoftwareItem list \<Rightarrow> string) \<Rightarrow> gotime \<Rightarrow> SoftwareItem list \<Rightarrow> InventoryManager \<Rightarrow> (bool \<times> InventoryManager) option" where
  "ScanIfNeeded sha now scan m =
     (let interval = dur_mul (im_scanIntervalMin m) dur_minute
      in if \<not> time_Sub now (im_lastScanTime m) \<ge> interval then Some (False, m)
         else case recordScan sha now scan m of None \<Rightarrow> None | Some m' \<Rightarrow> Some (True, m'))"

definition GetSubmitPayload :: "InventoryManager \<Rightarrow> SubmitRequest" where
  "GetSubmitPayload m = \<lparr>sub_InventoryHash = im_lastHash m, sub_SoftwareCount = int (length (im_lastItems m)),
     sub_Items = im_lastItems m\<rparr>"

text \<open>The payload \<open>SyncIfRequested\<close> submits, if it submits one.\<close>

definition SyncIfRequested :: "bool \<Rightarrow> InventoryManager \<Rightarrow> SubmitRequest option" where
  "SyncIfRequested syncRequired m =
     (if \<not> syncRequired then None
      else let p = GetSubmitPayload m in if sub_Items p = [] then None else Some p)"

subsection \<open>The registry\<close>

text \<open>
  A value of a key is a string, a number, or missing. \<open>GetStringValue\<close> of anything else than a string
  gives the empty string, \<open>GetIntegerValue\<close> of anything else than a number gives an error.
\<close>

datatype reg_value = RegString string | RegInt "64 word"

type_synonym reg_key = "string \<Rightarrow> reg_value option"

definition GetStringValue :: "reg_key \<Rightarrow> string \<Rightarrow> string option" where
  "GetStringValue k n = (case k n of Some (RegString s) \<Rightarrow> Some s | _ \<Rightarrow> None)"

definition string_or_empty :: "reg_key \<Rightarrow> string \<Rightarrow> string" where
  "string_or_empty k n = (case GetStringValue k n of None \<Rightarrow> [] | Some s \<Rightarrow> s)"

definition GetIntegerValue :: "reg_key \<Rightarrow> string \<Rightarrow> (64 word) option" where
  "GetIntegerValue k n = (case k n of Some (RegInt v) \<Rightarrow> Some v | _ \<Rightarrow> None)"

text \<open>\<open>containsCI\<close>: the loop over the positions, comparing the bytes up to the case of ASCII letters.\<close>

fun prefixCI :: "string \<Rightarrow> string \<Rightarrow> bool" where
  "prefixCI s [] = True"
| "prefixCI [] (b # bs) = False"
| "prefixCI (a # s) (b # bs) = (char_lower a = char_lower b \<and> prefixCI s bs)"

definition containsCI :: "string \<Rightarrow> string \<Rightarrow> bool" where
  "containsCI s substr =
     (if length substr > length s then False
      else list_ex (\<lambda>i. prefixCI (drop i s) substr) [0..<length s - length substr + 1])"

definition inferArchitecture :: "reg_key \<Rightarrow> string" where
  "inferArchitecture k =
     (let name = string_or_empty k ''DisplayName'' in
      if list_ex (containsCI name) [''(x64)'', ''64-bit'', ''x64'', ''amd64''] then ''x64''
      else if list_ex (containsCI name) [''(x86)'', ''32-bit'', ''x86''] then ''x86''
      else [])"

definition readSoftwareItem :: "reg_key \<Rightarrow> SoftwareItem" where
  "readSoftwareItem k =
     (let name = string_or_empty k ''DisplayName'';
          sizeKB = (case GetIntegerValue k ''EstimatedSize'' of None \<Rightarrow> 0 | Some v \<Rightarrow> sint v);
          sizeKB = (if sizeKB = 0
            then (case GetStringValue k ''EstimatedSize'' of
                    None \<Rightarrow> sizeKB
                  | Some s \<Rightarrow> (case strconv_Atoi s of None \<Rightarrow> sizeKB | Some v \<Rightarrow> v))
            else sizeKB)
      in \<lparr>sw_Name = name, sw_Version = string_or_empty k ''DisplayVersion'', sw_Publisher = string_or_empty k ''Publisher'',
          sw_InstallDate = string_or_empty k ''InstallDate'', sw_EstimatedSizeKB = sizeKB,
          sw_Architecture = (if name \<noteq> [] then inferArchitecture k else [])\<rparr>)"

text \<open>
  \<open>roots\<close> are the three uninstall keys with their subkeys, or an error; a subkey that cannot be opened
  is \<open>None\<close>.
\<close>

definition registry_items :: "(goerr + reg_key option list) list \<Rightarrow> SoftwareItem list" where
  "registry_items roots =
     concat (map (\<lambda>root. case root of
         Inl err \<Rightarrow> []
       | Inr subs \<Rightarrow>
           filter (\<lambda>item. sw_Name item \<noteq> [])
             (map readSoftwareItem
               (filter (\<lambda>k. GetIntegerValue k ''SystemComponent'' \<noteq> Some 1) (List.map_filter id subs)))) roots)"

definition dedup_key :: "SoftwareItem \<Rightarrow> string" where
  "dedup_key item = sw_Name item @ ''|'' @ sw_Version item"

definition ScanInstalledSoftware :: "(goerr + reg_key option list) list \<Rightarrow> SoftwareItem list \<Rightarrow> SoftwareItem list" where
  "ScanInstalledSoftware roots appx =
     (let (items, seen) = dedup_loop dedup_key [] (registry_items roots);
          (storeItems, seen') = dedup_loop dedup_key seen (filter (\<lambda>item. sw_Name item \<noteq> []) appx)
      in items @ storeItems)"

subsection \<open>Store packages\<close>

definition all_digits :: "string \<Rightarrow> bool" where
  "all_digits s \<longleftrightarrow> s \<noteq> [] \<and> list_all char_digit s"

text \<open>The loop that moves \<open>tailStart\<close> down over the numeric parts at the end.\<close>

fun numeric_tail :: "string list \<Rightarrow> nat \<Rightarrow> nat" where
  "numeric_tail parts 0 = 0"
| "numeric_tail parts (Suc t) = (if all_digits (parts ! t) then numeric_tail parts t else Suc t)"

definition shortenAppxName :: "string \<Rightarrow> string" where
  "shortenAppxName pkg =
     (let pkgName = strings_TrimSpace pkg in
      if pkgName = [] then []
      else
        let parts = strings_Split pkgName (CHR ''.''); tailStart = numeric_tail parts (length parts) in
        if tailStart = length parts
        then let l = strings_TrimSpace (last parts) in if l = [] then pkgName else l
        else
          let suffix = strings_Join (drop tailStart parts) ''.'';
              base = (if tailStart > 0 then strings_TrimSpace (parts ! (tailStart - 1)) else []);
              base = (if (strings_EqualFold base ''main'' \<or> strings_EqualFold base ''manager'') \<and> tailStart \<ge> 2
                      then strings_TrimSpace (parts ! (tailStart - 2)) else base)
          in if base = [] \<or> suffix = [] then pkgName else base @ '' '' @ suffix)"

definition char_hex :: "char \<Rightarrow> bool" where
  "char_hex c \<longleftrightarrow> char_digit c \<or> char_lower c \<in> set ''abcdef''"

definition guidLike :: "string \<Rightarrow> bool" where
  "guidLike s \<longleftrightarrow> map length (strings_Split s (CHR ''-'')) = [8, 4, 4, 4, 12] \<and>
     list_all (\<lambda>c. char_hex c \<or> c = CHR ''-'') s"

definition hexLike :: "string \<Rightarrow> bool" where
  "hexLike s \<longleftrightarrow> 12 \<le> length s \<and> length s \<le> 40 \<and> list_all char_hex s"

record appxPkg =
  apx_Name :: string
  apx_Version :: string
  apx_Publisher :: string
  apx_Architecture :: string

definition set_appx_field :: "string \<Rightarrow> json \<Rightarrow> appxPkg \<Rightarrow> appxPkg option" where
  "set_appx_field f v p =
     (if f = ''Name'' then map_option (\<lambda>s. p\<lparr>apx_Name := s\<rparr>) (decode_string (apx_Name p) v)
      else if f = ''Version'' then map_option (\<lambda>s. p\<lparr>apx_Version := s\<rparr>) (decode_string (apx_Version p) v)
      else if f = ''Publisher'' then map_option (\<lambda>s. p\<lparr>apx_Publisher := s\<rparr>) (decode_string (apx_Publisher p) v)
      else if f = ''Architecture'' then map_option (\<lambda>s. p\<lparr>apx_Architecture := s\<rparr>) (decode_string (apx_Architecture p) v)
      else Some p)"

definition decode_appx :: "json \<Rightarrow> appxPkg option" where
  "decode_appx v = decode_struct [''Name'', ''Version'', ''Publisher'', ''Architecture''] set_appx_field
     \<lparr>apx_Name = [], apx_Version = [], apx_Publisher = [], apx_Architecture = []\<rparr> v"

definition appx_items :: "appxPkg list \<Rightarrow> SoftwareItem list" where
  "appx_items pkgs =
     List.map_filter (\<lambda>p.
       let rawName = strings_TrimSpace (apx_Name p) in
       if rawName = [] \<or> guidLike rawName \<or> hexLike rawName then None
       else
         let display = shortenAppxName rawName in
         if display = [] \<or> guidLike display \<or> hexLike display then None
         else Some \<lparr>sw_Name = display, sw_Version = strings_TrimSpace (apx_Version p),
           sw_Publisher = strings_TrimSpace (apx_Publisher p), sw_InstallDate = [], sw_EstimatedSizeKB = 0,
           sw_Architecture = strings_TrimSpace (apx_Architecture p)\<rparr>) pkgs"

text \<open>
  The cache of the last successful package query: in memory, and in a file that outlives the
  process. The file is what reading and decoding it gives: the time stamp text and the items. The
  parameters \<open>parseTime\<close> and \<open>fmtTime\<close> are \<open>time.Parse\<close> and \<open>Format\<close> with the RFC 3339 layout; a write that
  breaks off leaves a text that does not decode.
\<close>

type_synonym appx_file = "(string \<times> SoftwareItem list) option"

record appx_cache =
  apc_items :: "SoftwareItem list"
  apc_updatedAt :: gotime
  apc_file :: appx_file

definition getAppxCache ::
    "(string \<Rightarrow> gotime option) \<Rightarrow> gotime \<Rightarrow> appx_cache \<Rightarrow> SoftwareItem list option \<times> appx_cache" where
  "getAppxCache parseTime now c =
     (if apc_items c = []
      then (case apc_file c of
              None \<Rightarrow> (None, c)
            | Some (updatedAt, items) \<Rightarrow>
                if items = [] then (None, c)
                else (case (if updatedAt = [] then None else parseTime updatedAt) of
                        Some ts \<Rightarrow>
                          if time_Sub now ts > 12 * dur_hour then (None, c)
                          else (Some items, c\<lparr>apc_items := items, apc_updatedAt := ts\<rparr>)
                      | None \<Rightarrow> (Some items, c\<lparr>apc_items := items, apc_updatedAt := now\<rparr>)))
      else if time_Sub now (apc_updatedAt c) > 12 * dur_hour then (None, c)
      else (Some (apc_items c), c))"

definition setAppxCache :: "(gotime \<Rightarrow> string) \<Rightarrow> io_fault \<Rightarrow> gotime \<Rightarrow> SoftwareItem list \<Rightarrow> appx_cache \<Rightarrow> appx_cache" where
  "setAppxCache fmtTime fault now items c =
     \<lparr>apc_items = items, apc_updatedAt = now,
      apc_file = (case fault of NoFault \<Rightarrow> Some (fmtTime now, items) | Fault \<Rightarrow> apc_file c | FaultAfter n \<Rightarrow> None)\<rparr>"

text \<open>\<open>scanAppxPackagesAllUsers\<close>: \<open>output\<close> is what PowerShell printed, parsed, or an error.\<close>

definition scanAppxPackagesAllUsers ::
    "(string \<Rightarrow> gotime option) \<Rightarrow> (gotime \<Rightarrow> string) \<Rightarrow> io_fault \<Rightarrow> gotime \<Rightarrow> goerr + json \<Rightarrow> appx_cache \<Rightarrow>
     SoftwareItem list \<times> appx_cache" where
  "scanAppxPackagesAllUsers parseTime fmtTime fault now output c =
     (let cached = (case getAppxCache parseTime now c of
                      (Some items, c') \<Rightarrow> (items, c') | (None, c') \<Rightarrow> ([], c'))
      in case output of
           Inl err \<Rightarrow> cached
         | Inr j \<Rightarrow>
             (case (case decode_slice decode_appx j of Some many \<Rightarrow> Some many
                    | None \<Rightarrow> map_option (\<lambda>one. [one]) (decode_appx j)) of
                None \<Rightarrow> cached
              | Some many \<Rightarrow>
                  let items = appx_items many
                  in if items = [] then cached else (items, setAppxCache fmtTime fault now items c)))"

subsection \<open>Case-insensitive search\<close>

lemma prefixCI_iff:
  "prefixCI s t \<longleftrightarrow> length t \<le> length s \<and> strings_ToLower (take (length t) s) = strings_ToLower t"
  by (induction s t rule: prefixCI.induct) (auto simp: strings_ToLower_def)

text \<open>\<open>containsCI\<close> is searching in lower case.\<close>

lemma containsCI_Contains: "containsCI s t \<longleftrightarrow> strings_Contains (strings_ToLower s) (strings_ToLower t)"
proof
  assume "containsCI s t"
  then obtain i where i: "i + length t \<le> length s" "strings_ToLower (take (length t) (drop i s)) = strings_ToLower t"
  proof -
    from \<open>containsCI s t\<close> have "length t \<le> length s"
      and "\<exists>i. i < length s - length t + 1 \<and> prefixCI (drop i s) t"
      by (auto simp add: containsCI_def list_ex_iff simp del: upt_Suc split: if_splits)
    then obtain i where "i < length s - length t + 1" and "length t \<le> length s" and "prefixCI (drop i s) t" by blast
    then show thesis using that [of i] by (simp add: prefixCI_iff)
  qed
  have "s = take i s @ take (length t) (drop i s) @ drop (length t) (drop i s)"
    by (metis append_take_drop_id)
  then have "strings_ToLower s = strings_ToLower (take i s) @ strings_ToLower t @ strings_ToLower (drop (length t) (drop i s))"
    using i(2) by (metis map_append strings_ToLower_def)
  then show "strings_Contains (strings_ToLower s) (strings_ToLower t)" unfolding strings_Contains_iff by blast
next
  assume "strings_Contains (strings_ToLower s) (strings_ToLower t)"
  then obtain a b where ab: "map char_lower s = a @ map char_lower t @ b"
    by (auto simp: strings_Contains_iff strings_ToLower_def)
  then have len: "length s = length a + length t + length b" by (metis add.assoc length_append length_map)
  have "map char_lower (take (length t) (drop (length a) s)) = map char_lower t"
    using ab by (simp add: drop_map [symmetric] take_map [symmetric])
  then have "prefixCI (drop (length a) s) t" using len by (simp add: prefixCI_iff strings_ToLower_def)
  with len show "containsCI s t"
    by (auto simp: containsCI_def list_ex_iff intro!: bexI [of _ "length a"])
qed

subsection \<open>The scan\<close>

text \<open>
  What is installed, told by the contents of the registry and the store: a subkey that could be opened,
  under a root that could be listed, that is not marked as a system component (a \<open>SystemComponent\<close> number
  of 1) and has a non-empty text as \<open>DisplayName\<close>; or a named package of the store.
\<close>

definition visible_key :: "(goerr + reg_key option list) list \<Rightarrow> reg_key \<Rightarrow> bool" where
  "visible_key roots k \<longleftrightarrow>
     (\<exists>subs. Inr subs \<in> set roots \<and> Some k \<in> set subs) \<and> k ''SystemComponent'' \<noteq> Some (RegInt 1)"

definition text_value :: "reg_key \<Rightarrow> string \<Rightarrow> string" where
  "text_value k n = (case k n of Some (RegString s) \<Rightarrow> s | _ \<Rightarrow> [])"

definition installed :: "(goerr + reg_key option list) list \<Rightarrow> SoftwareItem list \<Rightarrow> string \<Rightarrow> string \<Rightarrow> bool" where
  "installed roots appx name version \<longleftrightarrow> name \<noteq> [] \<and>
     ((\<exists>k. visible_key roots k \<and> text_value k ''DisplayName'' = name \<and> text_value k ''DisplayVersion'' = version) \<or>
      (\<exists>item \<in> set appx. sw_Name item = name \<and> sw_Version item = version))"

lemma string_or_empty_text: "string_or_empty k n = text_value k n"
  by (simp add: string_or_empty_def GetStringValue_def text_value_def split: option.split reg_value.split)

lemma readSoftwareItem_text:
  "sw_Name (readSoftwareItem k) = text_value k ''DisplayName''"
  "sw_Version (readSoftwareItem k) = text_value k ''DisplayVersion''"
  by (simp_all add: readSoftwareItem_def Let_def string_or_empty_text)

lemma set_registry_items:
  "set (registry_items roots) = {readSoftwareItem k |k. visible_key roots k \<and> text_value k ''DisplayName'' \<noteq> []}"
proof -
  have num: "GetIntegerValue k n \<noteq> Some 1 \<longleftrightarrow> k n \<noteq> Some (RegInt 1)" for k n
    by (simp add: GetIntegerValue_def split: option.split reg_value.split)
  have opened: "set (List.map_filter id subs) = {k. Some k \<in> set subs}" for subs :: "reg_key option list"
    by (force simp: List.map_filter_def)
  have "set (case root of Inl err \<Rightarrow> [] | Inr subs \<Rightarrow> filter (\<lambda>item. sw_Name item \<noteq> []) (map readSoftwareItem
         (filter (\<lambda>k. GetIntegerValue k ''SystemComponent'' \<noteq> Some 1) (List.map_filter id subs)))) =
      {readSoftwareItem k |k. (\<exists>subs. root = Inr subs \<and> Some k \<in> set subs) \<and>
         k ''SystemComponent'' \<noteq> Some (RegInt 1) \<and> text_value k ''DisplayName'' \<noteq> []}" for root :: "goerr + reg_key option list"
    by (cases root) (auto simp: opened num readSoftwareItem_text)
  then show ?thesis
    unfolding registry_items_def visible_key_def set_concat set_map image_image by auto
qed

lemma scan_dedup:
  "ScanInstalledSoftware roots appx =
     fst (dedup_loop dedup_key [] (registry_items roots @ filter (\<lambda>item. sw_Name item \<noteq> []) appx))"
  by (simp add: ScanInstalledSoftware_def dedup_loop_append Let_def split_beta)

lemma installed_found:
  "installed roots appx n v \<longleftrightarrow>
     (n, v) \<in> (\<lambda>item. (sw_Name item, sw_Version item)) `
       set (registry_items roots @ filter (\<lambda>item. sw_Name item \<noteq> []) appx)"
  unfolding set_append image_Un set_registry_items
  by (auto simp: installed_def readSoftwareItem_text image_iff)

lemma dedup_key_inj:
  assumes "dedup_key a = dedup_key b" and "CHR ''|'' \<notin> set (sw_Name a)" and "CHR ''|'' \<notin> set (sw_Name b)"
  shows "sw_Name a = sw_Name b \<and> sw_Version a = sw_Version b"
proof -
  have name: "takeWhile (\<lambda>c. c \<noteq> CHR ''|'') (dedup_key i) = sw_Name i" if "CHR ''|'' \<notin> set (sw_Name i)" for i
  proof -
    have "c \<noteq> CHR ''|''" if "c \<in> set (sw_Name i)" for c using that \<open>CHR ''|'' \<notin> set (sw_Name i)\<close> by auto
    then show ?thesis by (simp add: dedup_key_def takeWhile_append2)
  qed
  from name [OF assms(2)] name [OF assms(3)] assms(1) have "sw_Name a = sw_Name b" by simp
  with assms(1) show ?thesis by (simp add: dedup_key_def)
qed

lemma length_filter_distinct:
  "distinct (map f xs) \<Longrightarrow> length (filter (\<lambda>x. f x = a) xs) = (if a \<in> f ` set xs then 1 else 0)"
  by (induction xs) (auto simp: filter_empty_conv)


text \<open>Two keys of the same program, a system component, and a root that cannot be listed.\<close>

definition zip_key :: reg_key where
  "zip_key = [''DisplayName'' \<mapsto> RegString ''Zip'', ''DisplayVersion'' \<mapsto> RegString ''1'']"

definition driver_key :: reg_key where
  "driver_key = [''DisplayName'' \<mapsto> RegString ''Driver'', ''SystemComponent'' \<mapsto> RegInt 1]"

definition sample_roots :: "(goerr + reg_key option list) list" where
  "sample_roots = [Inr [Some zip_key, None], Inl (GoErr ''denied''), Inr [Some zip_key, Some driver_key]]"

lemma installed_sample: "installed sample_roots [] n v \<longleftrightarrow> n = ''Zip'' \<and> v = ''1''"
proof -
  have "(\<exists>subs. Inr subs \<in> set sample_roots \<and> Some k \<in> set subs) \<longleftrightarrow> k = zip_key \<or> k = driver_key" for k
    by (auto simp: sample_roots_def)
  then have "visible_key sample_roots k \<longleftrightarrow> k = zip_key" for k
    unfolding visible_key_def by (auto simp: zip_key_def driver_key_def)
  then show ?thesis by (auto simp: installed_def text_value_def zip_key_def)
qed


subsection \<open>The hash\<close>

definition names_separate :: "SoftwareItem list \<Rightarrow> bool" where
  "names_separate items \<longleftrightarrow> (\<forall>a \<in> set items. \<forall>b \<in> set items. sw_Name a = sw_Name b \<longrightarrow> a = b)"

lemma name_less_strict_weak: "strict_weak (\<lambda>a b. sw_Name a < sw_Name b)"
  unfolding strict_weak_def by (auto dest: less_le_trans simp: not_less)

text \<open>The hash does not depend on the order of the scan as long as the names tell the items apart,
  and then it identifies the inventory: with a digest that does not collide on non-empty lists,
  two inventories have the same hash exactly when they hold the same items.\<close>

theorem computeHash_order:
  assumes "names_separate xs" and "names_separate ys"
    and "inj_on sha {zs. mset zs = mset xs \<or> mset zs = mset ys}"
    and "sha (sort_Slice (\<lambda>a b. sw_Name a < sw_Name b) xs) \<noteq> ''empty''"
    and "sha (sort_Slice (\<lambda>a b. sw_Name a < sw_Name b) ys) \<noteq> ''empty''"
  shows "computeHash sha xs = computeHash sha ys \<longleftrightarrow> mset xs = mset ys"
proof
  let ?lt = "\<lambda>a b. sw_Name a < sw_Name b"
  assume "computeHash sha xs = computeHash sha ys"
  then have "xs = [] \<and> ys = [] \<or> sort_Slice ?lt xs = sort_Slice ?lt ys"
  proof (cases "xs = [] \<or> ys = []")
    case True
    with \<open>computeHash sha xs = computeHash sha ys\<close> assms(4,5) show ?thesis
      by (auto simp: computeHash_def split: if_splits)
  next
    case False
    with \<open>computeHash sha xs = computeHash sha ys\<close>
    have "sha (sort_Slice ?lt xs) = sha (sort_Slice ?lt ys)" by (simp add: computeHash_def)
    then have "sort_Slice ?lt xs = sort_Slice ?lt ys"
      by (rule inj_onD [OF assms(3)]) (simp_all add: gosort.srt_mset)
    then show ?thesis ..
  qed
  then show "mset xs = mset ys" using gosort.srt_mset by metis
next
  let ?lt = "\<lambda>a b. sw_Name a < sw_Name b"
  assume m: "mset xs = mset ys"
  have "sort_Slice ?lt ys = sort_Slice ?lt xs"
  proof (rule sort_Slice_perm [OF name_less_strict_weak m])
    show "\<forall>x \<in> set xs. \<forall>y \<in> set xs. \<not> sw_Name x < sw_Name y \<and> \<not> sw_Name y < sw_Name x \<longrightarrow> x = y"
      using assms(1) unfolding names_separate_def by (meson linorder_cases)
  qed
  moreover have "xs = [] \<longleftrightarrow> ys = []" using m by auto
  ultimately show "computeHash sha xs = computeHash sha ys" by (simp add: computeHash_def)
qed

definition sample_item :: "string \<Rightarrow> string \<Rightarrow> SoftwareItem" where
  "sample_item n v = \<lparr>sw_Name = n, sw_Version = v, sw_Publisher = [], sw_InstallDate = [], sw_EstimatedSizeKB = 0, sw_Architecture = []\<rparr>"

text \<open>Two versions of one program: the hash takes the order in which the registry listed them.\<close>

definition tie_order_matters :: bool where
  "tie_order_matters \<longleftrightarrow>
     sort_Slice (\<lambda>a b. sw_Name a < sw_Name b) [sample_item ''a'' ''1'', sample_item ''a'' ''2''] \<noteq>
     sort_Slice (\<lambda>a b. sw_Name a < sw_Name b) [sample_item ''a'' ''2'', sample_item ''a'' ''1'']"

lemma tie_order_matters: "tie_order_matters"
  by (simp add: tie_order_matters_def sort_Slice_def sample_item_def)

definition sample_sha :: "SoftwareItem list \<Rightarrow> string" where
  "sample_sha zs = concat (map sw_Name zs)"

lemma sample_perms:
  "mset zs = mset [sample_item ''a'' ''1'', sample_item ''b'' ''2''] \<Longrightarrow>
   zs = [sample_item ''a'' ''1'', sample_item ''b'' ''2''] \<or> zs = [sample_item ''b'' ''2'', sample_item ''a'' ''1'']"
proof -
  assume m: "mset zs = mset [sample_item ''a'' ''1'', sample_item ''b'' ''2'']"
  then have "length zs = 2" using mset_eq_length [OF m] by simp
  then obtain x y where zs: "zs = [x, y]" by (auto simp: numeral_2_eq_2 length_Suc_conv)
  with m have "{#x, y#} = {#sample_item ''a'' ''1'', sample_item ''b'' ''2''#}" by simp
  then show ?thesis unfolding zs by (auto simp: add_eq_conv_ex)
qed

lemma computeHash_order_witness:
  "computeHash sample_sha [sample_item ''a'' ''1'', sample_item ''b'' ''2''] =
     computeHash sample_sha [sample_item ''b'' ''2'', sample_item ''a'' ''1''] \<longleftrightarrow>
   mset [sample_item ''a'' ''1'', sample_item ''b'' ''2''] = mset [sample_item ''b'' ''2'', sample_item ''a'' ''1'']"
proof (rule computeHash_order)
  let ?x = "[sample_item ''a'' ''1'', sample_item ''b'' ''2'']" and ?y = "[sample_item ''b'' ''2'', sample_item ''a'' ''1'']"
  show "inj_on sample_sha {zs. mset zs = mset ?x \<or> mset zs = mset ?y}"
  proof (rule inj_onI)
    fix u v assume uv: "u \<in> {zs. mset zs = mset ?x \<or> mset zs = mset ?y}" "v \<in> {zs. mset zs = mset ?x \<or> mset zs = mset ?y}"
      and eq: "sample_sha u = sample_sha v"
    have "mset ?y = mset ?x" by simp
    with uv have "mset u = mset ?x" and "mset v = mset ?x" by auto
    from sample_perms [OF this(1)] sample_perms [OF this(2)] eq show "u = v"
      by (elim disjE) (simp_all add: sample_sha_def sample_item_def)
  qed
qed (simp_all add: names_separate_def sample_item_def sort_Slice_def sample_sha_def)

subsection \<open>Scanning\<close>

text \<open>With a digest of at least twelve characters, as SHA-256's is, a forced scan ends in a panic exactly when it finds no program
  at all: the placeholder hash \<open>empty\<close> is shorter than the part of it the log line prints.\<close>

theorem ForceScan_panics:
  assumes "\<forall>zs. 12 \<le> length (sha zs)"
  shows "ForceScan sha now (ScanInstalledSoftware roots appx) m = None \<longleftrightarrow> ScanInstalledSoftware roots appx = []"
  using assms by (simp add: ForceScan_def recordScan_def computeHash_def slice_to_def Let_def)

lemma ForceScan_panics_witness:
  "ForceScan (\<lambda>zs. ''0123456789abcdef'') 5 (ScanInstalledSoftware [Inl ErrNotExist] []) InventoryNewManager = None \<longleftrightarrow>
   ScanInstalledSoftware [Inl ErrNotExist] [] = []"
  by (rule ForceScan_panics) simp

text \<open>A scan is what the next submission sends, and no scan runs before the interval has passed.\<close>

lemma ScanIfNeeded_interval:
  assumes "ScanIfNeeded sha now scan m = Some (scanned, m')"
  shows "scanned \<longleftrightarrow> time_Sub now (im_lastScanTime m) \<ge> dur_mul (im_scanIntervalMin m) dur_minute"
    and "scanned \<Longrightarrow> sub_Items (GetSubmitPayload m') = scan \<and> im_lastScanTime m' = now"
    and "\<not> scanned \<Longrightarrow> m' = m"
  using assms
  by (auto simp: ScanIfNeeded_def recordScan_def GetSubmitPayload_def Let_def split: if_splits option.splits)

subsection \<open>The cache of store packages\<close>

definition process_restart :: "appx_cache \<Rightarrow> appx_cache" where
  "process_restart c = \<lparr>apc_items = [], apc_updatedAt = 0, apc_file = apc_file c\<rparr>"

text \<open>A query that fails does not make the store packages disappear from the inventory: for twelve
  hours after a successful query the scan answers a failing one with the packages of that query, in
  the same process, and in a later one when the snapshot file was written and its time stamp reads
  back as the time it was written.\<close>

theorem appx_snapshot_survives:
  assumes "scanAppxPackagesAllUsers parseTime fmtTime fault now (Inr j) c = (items, c1)"
    and "items \<noteq> []" and "apc_items c = []" and "apc_file c = None"
    and "later - now \<le> 12 * dur_hour" and "now \<le> later"
  shows "fst (scanAppxPackagesAllUsers parseTime fmtTime fault' later (Inl err) c1) = items \<and>
    (fault = NoFault \<and> parseTime (fmtTime now) = Some now \<longrightarrow>
     fst (scanAppxPackagesAllUsers parseTime fmtTime fault' later (Inl err) (process_restart c1)) = items)"
proof -
  have c1: "c1 = setAppxCache fmtTime fault now items c"
    using assms(1-4) by (auto simp: scanAppxPackagesAllUsers_def getAppxCache_def Let_def split: option.splits if_splits)
  have fresh: "time_Sub later now \<le> 12 * dur_hour"
    using assms(5,6) by (simp add: time_Sub_def saturate64_def dur_hour_def)
  then have "getAppxCache parseTime later c1 = (Some items, c1)"
    using assms(2) by (simp add: c1 getAppxCache_def setAppxCache_def)
  moreover have "fst (getAppxCache parseTime later (process_restart c1)) = Some items"
    if "fault = NoFault" "parseTime (fmtTime now) = Some now"
    using that assms(2) fresh by (simp add: c1 getAppxCache_def setAppxCache_def process_restart_def)
  ultimately show ?thesis
    by (auto simp: scanAppxPackagesAllUsers_def split_def split: option.splits)
qed

definition sample_query :: json where
  "sample_query = JArr [JObj [(''Name'', JStr ''Mo.Na''), (''Version'', JStr ''1'')]]"

definition sample_cache :: appx_cache where
  "sample_cache = \<lparr>apc_items = [], apc_updatedAt = 0, apc_file = None\<rparr>"

lemma sample_query_items:
  "fst (scanAppxPackagesAllUsers (\<lambda>s. Some 5) (\<lambda>t. ''t'') NoFault 5 (Inr sample_query) sample_cache) = [sample_item ''Na'' ''1'']"
  by code_simp

theorem appx_snapshot_survives_witness:
  "fst (scanAppxPackagesAllUsers (\<lambda>s. Some 5) (\<lambda>t. ''t'') NoFault 9 (Inl ErrNotExist)
     (process_restart (snd (scanAppxPackagesAllUsers (\<lambda>s. Some 5) (\<lambda>t. ''t'') NoFault 5 (Inr sample_query) sample_cache))))
   = [sample_item ''Na'' ''1'']"
proof -
  let ?scan = "scanAppxPackagesAllUsers (\<lambda>s. Some 5) (\<lambda>t. ''t'') NoFault 5 (Inr sample_query) sample_cache"
  have "?scan = ([sample_item ''Na'' ''1''], snd ?scan)" by (metis prod.collapse sample_query_items)
  from appx_snapshot_survives [OF this, of 9 NoFault ErrNotExist] show ?thesis
    by (simp add: sample_cache_def dur_hour_def)
qed

end
