(* ===== verification/RuntimeUpdate.thy ===== *)
theory RuntimeUpdate
  imports Hash Downloader Json Go_Containers
begin

section \<open>Runtime files (\<open>internal/runtimeupdate\<close>)\<close>

text \<open>
  The manager keeps the tray and helper executables beside the service at the hashes of a manifest:
  one round fetches the manifest and brings each of the two files up to date. The record \<open>rt_env\<close>
  is the world of a round: file system oracle, server, how bodies are read, digest, the JSON
  decoder of the standard library, the names of the running processes (\<open>None\<close> when the snapshot
  fails) and the random source.
\<close>

subsection \<open>Model\<close>

record RuntimeConfig =
  rtc_BaseURL :: string
  rtc_IntervalMin :: int
  rtc_JitterSec :: int

record ManifestFile =
  mf_SHA256 :: string
  mf_URL :: string

record Manifest =
  man_Version :: string
  man_Files :: "(string, ManifestFile) gomap"

record RuntimeManager =
  rm_cfg :: RuntimeConfig
  rm_exeDir :: string
  rm_wakeCh :: "unit list"

datatype rt_event = TrayStopped | TrayUpdated

record rt_env =
  rt_orc :: fs_oracle
  rt_server :: transport
  rt_reads :: "string \<Rightarrow> string list"
  rt_sha :: "string \<Rightarrow> string"
  rt_json_decode :: "string \<Rightarrow> goerr + json"
  rt_processes :: "string list option"
  rt_Intn :: "int \<Rightarrow> int"

definition NewManager :: "string \<Rightarrow> RuntimeManager" where
  "NewManager exeDir = \<lparr>rm_cfg = \<lparr>rtc_BaseURL = [], rtc_IntervalMin = 60, rtc_JitterSec = 300\<rparr>,
     rm_exeDir = exeDir, rm_wakeCh = []\<rparr>"

definition normalizeConfig :: "RuntimeConfig \<Rightarrow> RuntimeConfig" where
  "normalizeConfig cfg =
     \<lparr>rtc_BaseURL = strings_TrimRight (strings_TrimSpace (rtc_BaseURL cfg)) ''/'',
      rtc_IntervalMin = (if rtc_IntervalMin cfg \<le> 0 then 60 else rtc_IntervalMin cfg),
      rtc_JitterSec = (if rtc_JitterSec cfg < 0 then 0 else rtc_JitterSec cfg)\<rparr>"

definition rtUpdateConfig :: "RuntimeConfig \<Rightarrow> RuntimeManager \<Rightarrow> RuntimeManager" where
  "rtUpdateConfig cfg m = m\<lparr>rm_cfg := normalizeConfig cfg, rm_wakeCh := chan_kick (rm_wakeCh m)\<rparr>"

definition computeWait :: "(int \<Rightarrow> int) \<Rightarrow> RuntimeConfig \<Rightarrow> duration" where
  "computeWait intn cfg =
     (let base = dur_mul (rtc_IntervalMin cfg) dur_minute
      in if rtc_JitterSec cfg \<le> 0 then base
         else wrap64 (base + dur_mul (intn (rtc_JitterSec cfg + 1)) dur_second))"

definition manifest_file_fields :: "string list" where
  "manifest_file_fields = [''sha256'', ''url'']"

definition set_manifest_file_field :: "string \<Rightarrow> json \<Rightarrow> ManifestFile \<Rightarrow> ManifestFile option" where
  "set_manifest_file_field f v r =
     (if f = ''sha256'' then map_option (\<lambda>s. r\<lparr>mf_SHA256 := s\<rparr>) (decode_string (mf_SHA256 r) v)
      else if f = ''url'' then map_option (\<lambda>s. r\<lparr>mf_URL := s\<rparr>) (decode_string (mf_URL r) v)
      else Some r)"

fun decode_files :: "payload \<Rightarrow> (string, ManifestFile) gomap \<Rightarrow> (string, ManifestFile) gomap option" where
  "decode_files [] m = Some m"
| "decode_files ((k, v) # kvs) m =
     (case decode_struct manifest_file_fields set_manifest_file_field \<lparr>mf_SHA256 = [], mf_URL = []\<rparr> v of
        None \<Rightarrow> None
      | Some e \<Rightarrow> decode_files kvs (gm_put k e m))"

definition set_manifest_field :: "string \<Rightarrow> json \<Rightarrow> Manifest \<Rightarrow> Manifest option" where
  "set_manifest_field f v r =
     (if f = ''version'' then map_option (\<lambda>s. r\<lparr>man_Version := s\<rparr>) (decode_string (man_Version r) v)
      else if f = ''files'' then
        (case v of
           JNull \<Rightarrow> Some (r\<lparr>man_Files := []\<rparr>)
         | JObj kvs \<Rightarrow> map_option (\<lambda>m. r\<lparr>man_Files := m\<rparr>) (decode_files kvs (man_Files r))
         | _ \<Rightarrow> None)
      else Some r)"

definition decode_Manifest :: "json \<Rightarrow> Manifest option" where
  "decode_Manifest v = decode_struct [''version'', ''files''] set_manifest_field \<lparr>man_Version = [], man_Files = []\<rparr> v"

definition plain_get :: "string \<Rightarrow> http_request" where
  "plain_get url = \<lparr>rq_Method = ''GET'', rq_URL = url, rq_Header = [], rq_Body = []\<rparr>"

definition fetchManifest :: "rt_env \<Rightarrow> string \<Rightarrow> goerr + Manifest" where
  "fetchManifest env manifestURL =
     (case rt_server env (plain_get manifestURL) of
        Inl err \<Rightarrow> Inl err
      | Inr resp \<Rightarrow>
          if rs_StatusCode resp \<noteq> 200
          then Inl (GoErr (''manifest download failed: status='' @ strconv_Itoa (rs_StatusCode resp)))
          else case rt_json_decode env (rs_Body resp) of
            Inl err \<Rightarrow> Inl (GoWrap ''manifest decode failed'' err)
          | Inr j \<Rightarrow> (case decode_Manifest j of
              None \<Rightarrow> Inl (GoWrap ''manifest decode failed'' (GoErr ''json: cannot unmarshal''))
            | Some m \<Rightarrow> Inr m))"

definition downloadToFile :: "rt_env \<Rightarrow> string \<Rightarrow> string \<Rightarrow> fs \<Rightarrow> goerr option \<times> fs" where
  "downloadToFile env url path s =
     (case rt_server env (plain_get url) of
        Inl err \<Rightarrow> (Some err, s)
      | Inr resp \<Rightarrow>
          if rs_StatusCode resp \<noteq> 200 then (Some (GoErr (''status='' @ strconv_Itoa (rs_StatusCode resp))), s)
          else case os_MkdirAll (rt_orc env) (filepath_Dir path) of
            Some err \<Rightarrow> (Some err, s)
          | None \<Rightarrow>
              if rt_orc env (FOpen path) \<noteq> NoFault then (Some io_error, s)
              else case io_Copy (\<lambda>i c. Inr c) (disk_room (rt_orc env (FWrite path))) (rs_BodyErr resp) 0
                          (rt_reads env (rs_Body resp)) of
                (w, e) \<Rightarrow> (e, s(path \<mapsto> w)))"

text \<open>\<open>replaceFile\<close>: keep the old file as a backup, and put it back when the new one cannot be moved in.\<close>

definition set_aside :: "fs_oracle \<Rightarrow> string \<Rightarrow> string \<Rightarrow> fs \<Rightarrow> fs" where
  "set_aside orc dstPath backupPath s =
     (if os_Stat orc dstPath s = None
      then (case os_Rename orc dstPath backupPath s of
              (None, s2) \<Rightarrow> s2
            | (Some err, s2) \<Rightarrow> snd (os_Remove orc dstPath s2))
      else s)"

definition replaceFile :: "fs_oracle \<Rightarrow> string \<Rightarrow> string \<Rightarrow> fs \<Rightarrow> goerr option \<times> fs" where
  "replaceFile orc dstPath tempPath s =
     (let backupPath = dstPath @ ''.bak'';
          s1 = snd (os_Remove orc backupPath s);
          s2 = set_aside orc dstPath backupPath s1
      in case os_Rename orc tempPath dstPath s2 of
           (None, s3) \<Rightarrow> (None, s3)
         | (Some err, s3) \<Rightarrow>
             (Some err, if os_Stat orc backupPath s3 = None then snd (os_Rename orc backupPath dstPath s3) else s3))"

definition isProcessRunningByImage :: "string list option \<Rightarrow> string \<Rightarrow> bool" where
  "isProcessRunningByImage processes imageName =
     (case processes of None \<Rightarrow> False | Some names \<Rightarrow> list_ex (\<lambda>name. strings_EqualFold name imageName) names)"

text \<open>The part of \<open>ensureFile\<close> after the download; \<open>ensureFile\<close> then removes the temporary file.\<close>

definition installVerified ::
    "rt_env \<Rightarrow> string \<Rightarrow> string \<Rightarrow> string \<Rightarrow> string \<Rightarrow> fs \<Rightarrow> goerr option \<times> rt_event list \<times> fs" where
  "installVerified env name expected dstPath tempPath s =
     (case VerifyFileHash (rt_sha env) (rt_orc env) tempPath expected s of
        Inl err \<Rightarrow> (Some (GoWrap (name @ '' downloaded hash check failed'') err), [], s)
      | Inr okHash \<Rightarrow>
          if \<not> okHash then (Some (GoErr (name @ '' hash mismatch after download'')), [], s)
          else
            let ev = (if strings_EqualFold name ''appcenter-tray.exe'' then [TrayStopped] else [])
            in if strings_EqualFold name ''rshelper.exe'' \<and> isProcessRunningByImage (rt_processes env) ''rshelper.exe''
               then (None, ev, s)
               else case replaceFile (rt_orc env) dstPath tempPath s of
                 (Some err, s') \<Rightarrow> (Some (GoWrap (name @ '' replace failed'') err), ev, s')
               | (None, s') \<Rightarrow>
                   (None, ev @ (if strings_EqualFold name ''appcenter-tray.exe'' then [TrayUpdated] else []), s'))"

definition ensureFile ::
    "rt_env \<Rightarrow> string \<Rightarrow> RuntimeConfig \<Rightarrow> Manifest \<Rightarrow> string \<Rightarrow> fs \<Rightarrow> goerr option \<times> rt_event list \<times> fs" where
  "ensureFile env exeDir cfg manifest name s =
     (case gm_get (man_Files manifest) name of
        None \<Rightarrow> (None, [], s)
      | Some entry \<Rightarrow>
          let expected = strings_TrimSpace (mf_SHA256 entry); dstPath = filepath_Join exeDir name in
          if expected = [] then (None, [], s)
          else if VerifyFileHash (rt_sha env) (rt_orc env) dstPath expected s = Inr True then (None, [], s)
          else
            let url = strings_TrimSpace (mf_URL entry);
                fileURL = (if url = [] then rtc_BaseURL cfg @ ''/'' @ name else url);
                tempPath = dstPath @ ''.download''
            in case downloadToFile env fileURL tempPath s of
                 (Some err, s1) \<Rightarrow> (Some (GoWrap (name @ '' download failed'') err), [], s1)
               | (None, s1) \<Rightarrow>
                   (case installVerified env name expected dstPath tempPath s1 of
                      (err, ev, s2) \<Rightarrow> (err, ev, snd (os_Remove (rt_orc env) tempPath s2))))"

definition syncOnce :: "rt_env \<Rightarrow> string \<Rightarrow> RuntimeConfig \<Rightarrow> fs \<Rightarrow> goerr option \<times> rt_event list \<times> fs" where
  "syncOnce env exeDir cfg s =
     (case fetchManifest env (rtc_BaseURL cfg @ ''/manifest.json'') of
        Inl err \<Rightarrow> (Some err, [], s)
      | Inr manifest \<Rightarrow>
          (case ensureFile env exeDir cfg manifest ''appcenter-tray.exe'' s of
             (Some err, ev, s1) \<Rightarrow> (Some err, ev, s1)
           | (None, ev, s1) \<Rightarrow>
               (case ensureFile env exeDir cfg manifest ''rshelper.exe'' s1 of
                  (err, ev', s2) \<Rightarrow> (err, ev @ ev', s2))))"

text \<open>
  One turn of the loop in \<open>Start\<close>, up to the wait: whether it synchronises and how long it waits
  unless it is woken or stopped before.
\<close>

definition loopTurn ::
    "rt_env \<Rightarrow> RuntimeManager \<Rightarrow> fs \<Rightarrow> (goerr option \<times> rt_event list) option \<times> duration \<times> fs" where
  "loopTurn env m s =
     (let cfg = rm_cfg m in
      if rtc_BaseURL cfg = [] then (None, dur_minute, s)
      else case syncOnce env (rm_exeDir m) cfg s of
        (err, ev, s') \<Rightarrow> (Some (err, ev), computeWait (rt_Intn env) cfg, s'))"

subsection \<open>Replacing a file\<close>

lemma path_suffixes [simp]:
  "p @ ''.bak'' \<noteq> p" "p @ ''.download'' \<noteq> p" "p \<noteq> p @ ''.bak''" "p \<noteq> p @ ''.download''"
  by simp_all

lemma set_aside_frame: "q \<noteq> d \<Longrightarrow> q \<noteq> b \<Longrightarrow> set_aside orc d b s q = s q"
  using osfs.rename_frame [of q d b orc s] osfs.remove_frame [of q d orc "snd (os_Rename orc d b s)"]
  by (auto simp: set_aside_def split: prod.split option.split)

text \<open>With the renames to and from the backup working, the old content is in the backup, or there was none.\<close>

definition backup_works :: "fs_oracle \<Rightarrow> string \<Rightarrow> bool" where
  "backup_works orc p \<longleftrightarrow> orc (FStat p) = NoFault \<and> orc (FRename p (p @ ''.bak'')) = NoFault \<and>
     orc (FRemove (p @ ''.bak'')) = NoFault \<and> orc (FStat (p @ ''.bak'')) = NoFault \<and>
     orc (FRename (p @ ''.bak'') p) = NoFault"

lemma replaceFile_frame:
  assumes "q \<noteq> d" and "q \<noteq> d @ ''.bak''" and "q \<noteq> t"
  shows "snd (replaceFile orc d t s) q = s q"
proof -
  let ?b = "d @ ''.bak''" and ?s1 = "snd (os_Remove orc (d @ ''.bak'') s)"
  let ?s2 = "set_aside orc d ?b ?s1"
  have "?s2 q = s q" using assms set_aside_frame osfs.remove_frame by metis
  moreover have "snd (os_Rename orc t d ?s2) q = ?s2 q" using assms by (simp add: osfs.rename_frame)
  moreover have "snd (os_Rename orc ?b d s3) q = s3 q" for s3 using assms by (simp add: osfs.rename_frame)
  ultimately show ?thesis
    by (auto simp: replaceFile_def Let_def split: prod.split option.split)
qed

lemma replaceFile_ok:
  assumes "replaceFile orc d t s = (None, s')" and "t \<noteq> d" and "t \<noteq> d @ ''.bak''"
  shows "s' d = s t"
proof -
  let ?b = "d @ ''.bak''"
  let ?s2 = "set_aside orc d ?b (snd (os_Remove orc ?b s))"
  have r: "fst (os_Rename orc t d ?s2) = None \<and> s' = snd (os_Rename orc t d ?s2)"
    using assms(1) by (auto simp: replaceFile_def Let_def split: prod.splits option.splits)
  then have "s' d = ?s2 t" using osfs.rename_dst [of orc t d ?s2] by simp
  also have "\<dots> = s t" using assms(2,3) set_aside_frame osfs.remove_frame by metis
  finally show ?thesis .
qed

lemma replaceFile_failed:
  assumes "replaceFile orc d t s = (Some err, s')" and "t \<noteq> d" and "t \<noteq> d @ ''.bak''"
  shows "s' d = s d \<or> s' d = None \<or> s' d = s (d @ ''.bak'')"
    and "backup_works orc d \<Longrightarrow> s' d = s d"
proof -
  let ?b = "d @ ''.bak''"
  let ?s1 = "snd (os_Remove orc ?b s)"
  let ?s2 = "set_aside orc d ?b ?s1"
  have s': "s' = (if os_Stat orc ?b ?s2 = None then snd (os_Rename orc ?b d ?s2) else ?s2)"
    using assms(1) osfs.rename_fail [of orc t d ?s2]
    by (auto simp: replaceFile_def Let_def split: prod.splits option.splits)
  have s1: "?s1 d = s d" "?s1 ?b = s ?b \<or> ?s1 ?b = None"
    using osfs.remove_frame [of d ?b orc s] osfs.remove_at [of orc ?b s] by auto
  have s2: "?s2 d = s d \<and> ?s2 ?b = ?s1 ?b \<or> ?s2 d = None \<and> (?s2 ?b = s d \<or> ?s2 ?b = ?s1 ?b)"
    using s1 osfs.rename_ok [of orc d ?b ?s1] osfs.rename_fail [of orc d ?b ?s1]
      osfs.remove_frame [of ?b d orc ?s1] osfs.remove_at [of orc d ?s1]
    by (cases "os_Rename orc d ?b ?s1") (auto simp: set_aside_def split: option.split)
  have s'd: "s' d = ?s2 d \<or> s' d = ?s2 ?b"
    using s' osfs.rename_dst [of orc ?b d ?s2] by auto
  with s1 s2 show "s' d = s d \<or> s' d = None \<or> s' d = s ?b" by metis
  assume ok: "backup_works orc d"
  then have b1: "?s1 ?b = None"
    using osfs.remove_at [of orc ?b s] by (auto simp: backup_works_def os_defs split: if_splits)
  show "s' d = s d"
  proof (cases "s d = None")
    case True
    then have "?s2 = ?s1" using s1(1) by (auto simp: set_aside_def os_defs)
    then have "s' = ?s1" using s' b1 by (auto simp: os_defs)
    with s1(1) show ?thesis by simp
  next
    case False
    then have st: "os_Stat orc d ?s1 = None" and rn: "fst (os_Rename orc d ?b ?s1) = None"
      using ok s1(1) by (auto simp: backup_works_def os_defs split: option.splits)
    then have "?s2 = snd (os_Rename orc d ?b ?s1)"
      by (cases "os_Rename orc d ?b ?s1") (simp add: set_aside_def)
    with rn have "?s2 ?b = s d" using s1(1) osfs.rename_dst [of orc d ?b ?s1] by simp
    with False ok have "os_Stat orc ?b ?s2 = None" "fst (os_Rename orc ?b d ?s2) = None"
      by (auto simp: backup_works_def os_defs split: option.splits)
    with s' \<open>?s2 ?b = s d\<close> show ?thesis using osfs.rename_dst [of orc ?b d ?s2] by simp
  qed
qed

lemma downloadToFile_frame: "q \<noteq> p \<Longrightarrow> snd (downloadToFile env url p s) q = s q"
  by (auto simp: downloadToFile_def split: sum.split option.split prod.split)

subsection \<open>Bringing a file up to date\<close>

definition rt_path :: "string \<Rightarrow> string \<Rightarrow> string" where
  "rt_path exeDir name = filepath_Join exeDir name"

text \<open>The file has the manifest's hash, or the manifest asks nothing of it.\<close>

definition up_to_date :: "rt_env \<Rightarrow> string \<Rightarrow> Manifest \<Rightarrow> string \<Rightarrow> fs \<Rightarrow> bool" where
  "up_to_date env exeDir manifest name s \<longleftrightarrow>
     (case gm_get (man_Files manifest) name of
        None \<Rightarrow> True
      | Some e \<Rightarrow> strings_TrimSpace (mf_SHA256 e) = [] \<or>
          (case s (filepath_Join exeDir name) of
             None \<Rightarrow> False | Some d \<Rightarrow> hash_matches (rt_sha env) (strings_TrimSpace (mf_SHA256 e)) d))"

definition deferred :: "rt_env \<Rightarrow> string \<Rightarrow> bool" where
  "deferred env name \<longleftrightarrow> strings_EqualFold name ''rshelper.exe'' \<and>
     isProcessRunningByImage (rt_processes env) ''rshelper.exe''"

lemma up_to_date_cong:
  "s (filepath_Join exeDir name) = s2 (filepath_Join exeDir name) \<Longrightarrow>
     up_to_date env exeDir manifest name s = up_to_date env exeDir manifest name s2"
  by (simp add: up_to_date_def cong: option.case_cong)

lemma installVerified_cases:
  assumes "installVerified env name expected d t s = (err, ev, s')"
  obtains (untouched) "s' = s" "err \<noteq> None \<or> deferred env name"
  | (replaced) x where "replaceFile (rt_orc env) d t s = (None, s')" "err = None"
      "s t = Some x" "hash_matches (rt_sha env) expected x"
  | (failed) e where "replaceFile (rt_orc env) d t s = (Some e, s')" "err \<noteq> None"
proof (cases "VerifyFileHash (rt_sha env) (rt_orc env) t expected s")
  case (Inl e)
  with assms show thesis by (intro untouched) (auto simp: installVerified_def)
next
  case (Inr okHash)
  show thesis
  proof (cases "\<not> okHash \<or> deferred env name")
    case True
    with assms Inr show thesis
      by (intro untouched) (auto simp: installVerified_def deferred_def split: if_splits)
  next
    case False
    obtain e s2 where r: "replaceFile (rt_orc env) d t s = (e, s2)" by fastforce
    from False Inr have "VerifyFileHash (rt_sha env) (rt_orc env) t expected s = Inr True" by simp
    then obtain x where "s t = Some x" "hash_matches (rt_sha env) expected x"
      by (blast dest: VerifyFileHash_True)
    with assms Inr False r replaced failed show thesis
      by (cases e) (auto simp: installVerified_def deferred_def Let_def)
  qed
qed

lemma ensureFile_cases:
  assumes "ensureFile env exeDir cfg manifest name s = (err, ev, s')"
  defines "d \<equiv> filepath_Join exeDir name"
  obtains (current) "s' = s" "err = None" "ev = []" "up_to_date env exeDir manifest name s"
  | (nodownload) s1 where "s' = s1" "\<And>q. q \<noteq> d @ ''.download'' \<Longrightarrow> s1 q = s q" "err \<noteq> None"
  | (downloaded) entry s1 s2 where "gm_get (man_Files manifest) name = Some entry"
      "\<And>q. q \<noteq> d @ ''.download'' \<Longrightarrow> s1 q = s q"
      "installVerified env name (strings_TrimSpace (mf_SHA256 entry)) d (d @ ''.download'') s1 = (err, ev, s2)"
      "s' = snd (os_Remove (rt_orc env) (d @ ''.download'') s2)"
proof (cases "gm_get (man_Files manifest) name")
  case None
  with assms show thesis by (intro current) (auto simp: ensureFile_def up_to_date_def)
next
  case (Some entry)
  let ?h = "strings_TrimSpace (mf_SHA256 entry)" and ?t = "d @ ''.download''"
  show thesis
  proof (cases "?h = [] \<or> VerifyFileHash (rt_sha env) (rt_orc env) d ?h s = Inr True")
    case True
    with assms Some have "s' = s" "err = None" "ev = []"
      by (auto simp: ensureFile_def Let_def split: if_splits)
    moreover have "up_to_date env exeDir manifest name s"
      using True Some VerifyFileHash_True [of "rt_sha env" "rt_orc env" d ?h s] by (auto simp: up_to_date_def d_def)
    ultimately show thesis by (rule current)
  next
    case False
    let ?u = "if strings_TrimSpace (mf_URL entry) = [] then rtc_BaseURL cfg @ ''/'' @ name else strings_TrimSpace (mf_URL entry)"
    obtain e s1 where dl: "downloadToFile env ?u ?t s = (e, s1)" by fastforce
    have frame: "s1 q = s q" if "q \<noteq> ?t" for q
      using downloadToFile_frame [OF that, of env ?u s] dl by simp
    obtain e2 ev2 s2 where iv: "installVerified env name ?h d ?t s1 = (e2, ev2, s2)" by (metis prod_cases3)
    show thesis
    proof (cases e)
      case None
      with assms Some False dl iv have "err = e2" "ev = ev2" "s' = snd (os_Remove (rt_orc env) ?t s2)"
        by (auto simp: ensureFile_def Let_def)
      with iv frame Some show thesis by (intro downloaded) auto
    next
      case (Some x)
      with assms \<open>gm_get _ _ = _\<close> False dl have "s' = s1" "err \<noteq> None"
        by (auto simp: ensureFile_def Let_def)
      show thesis by (rule nodownload [OF \<open>s' = s1\<close> frame \<open>err \<noteq> None\<close>])
    qed
  qed
qed

text \<open>C28. Files are replaced atomically: one round for a file changes no other file than it, its backup
  and its download; whatever fails, the file is afterwards unchanged or has the manifest's hash, except
  that on an error it may be gone or be an older backup; and not even that when moving the old file
  to the backup and back works: then an error leaves the file as it was.\<close>

theorem ensureFile_atomic:
  assumes "ensureFile env exeDir cfg manifest name s = (err, ev, s')"
    and d: "d = filepath_Join exeDir name"
  shows "(\<forall>q. q \<notin> {d, d @ ''.bak'', d @ ''.download''} \<longrightarrow> s' q = s q) \<and>
    (s' d = s d \<or> up_to_date env exeDir manifest name s' \<or>
      err \<noteq> None \<and> (s' d = None \<or> s' d = s (d @ ''.bak''))) \<and>
    (err \<noteq> None \<and> backup_works (rt_orc env) d \<longrightarrow> s' d = s d)"
  using assms(1)
proof (cases rule: ensureFile_cases)
  case current
  then show ?thesis by simp
next
  case (nodownload s1)
  with d show ?thesis by simp
next
  case (downloaded entry s1 s2)
  note downloaded = downloaded [folded d]
  let ?t = "d @ ''.download''" and ?b = "d @ ''.bak''"
  have rm: "s' q = s2 q" if "q \<noteq> ?t" for q
    using osfs.remove_frame [OF that] downloaded(4) by simp
  have s1: "s1 d = s d" "s1 ?b = s ?b" using downloaded(2) by simp_all
  have fr: "s' q = s q" if "snd (replaceFile (rt_orc env) d ?t s1) = s2" "q \<notin> {d, ?b, ?t}" for q
    using replaceFile_frame [of q d ?t "rt_orc env" s1] downloaded(2) [of q] rm [of q] that by simp
  from downloaded(3) show ?thesis
  proof (cases rule: installVerified_cases)
    case untouched
    with rm s1 downloaded(2) show ?thesis by simp
  next
    case (replaced x)
    have "s2 d = Some x" using replaceFile_ok [OF replaced(1)] replaced(3) by simp
    then have "up_to_date env exeDir manifest name s'"
      using rm downloaded(1) replaced(4) d by (simp add: up_to_date_def)
    with fr replaced(1,2) show ?thesis by simp
  next
    case (failed e)
    have "s2 d = s d \<or> s2 d = None \<or> s2 d = s ?b" "backup_works (rt_orc env) d \<Longrightarrow> s2 d = s d"
      using replaceFile_failed [OF failed(1)] s1 by simp_all
    with fr failed rm show ?thesis by auto
  qed
qed

lemma ensureFile_ok:
  assumes "ensureFile env exeDir cfg manifest name s = (None, ev, s')"
  shows "up_to_date env exeDir manifest name s' \<or> deferred env name"
  using assms
proof (cases rule: ensureFile_cases)
  case (downloaded entry s1 s2)
  let ?d = "filepath_Join exeDir name"
  from downloaded(3) show ?thesis
  proof (cases rule: installVerified_cases)
    case (replaced x)
    have "s2 ?d = Some x" using replaceFile_ok [OF replaced(1)] replaced(3) by simp
    then have "s' ?d = Some x" using osfs.remove_frame [of ?d "?d @ ''.download''"] downloaded(4) by simp
    with downloaded(1) replaced(4) show ?thesis by (simp add: up_to_date_def)
  qed simp_all
qed simp_all

lemma ensureFile_frame:
  assumes "ensureFile env exeDir cfg manifest name s = (err, ev, s')"
    and "q \<notin> {filepath_Join exeDir name, filepath_Join exeDir name @ ''.bak'', filepath_Join exeDir name @ ''.download''}"
  shows "s' q = s q"
  using assms(1)
proof (cases rule: ensureFile_cases)
  case (downloaded entry s1 s2)
  let ?d = "filepath_Join exeDir name"
  have "s2 q = s1 q"
    using downloaded(3)
    by (cases rule: installVerified_cases)
      (use replaceFile_frame [of q ?d "?d @ ''.download''" "rt_orc env" s1] assms(2) in auto)
  then show ?thesis
    using downloaded(2,4) assms(2) osfs.remove_frame [of q "?d @ ''.download''" "rt_orc env" s2] by simp
qed (use assms(2) in simp_all)

lemma ensureFile_current:
  assumes "up_to_date env exeDir manifest name s" and "rt_orc env = no_faults"
  shows "ensureFile env exeDir cfg manifest name s = (None, [], s)"
  using assms VerifyFileHash_no_faults
  by (auto simp: ensureFile_def up_to_date_def Let_def split: option.splits)

lemma filepath_Join_append: "filepath_Join d n @ x = filepath_Join d (n @ x)"
  by (simp add: filepath_Join_def)

text \<open>A round without an error ends up to date: after \<open>syncOnce\<close> reports success, the manifest that was
  fetched holds of both files on disk, except for a helper that is running, whose replacement waits.
  When both were current already, nothing is changed, stopped or announced.\<close>

theorem syncOnce_up_to_date:
  assumes "syncOnce env exeDir cfg s = (None, ev, s')"
    and "fetchManifest env (rtc_BaseURL cfg @ ''/manifest.json'') = Inr manifest"
  shows "up_to_date env exeDir manifest ''appcenter-tray.exe'' s' \<and>
    (up_to_date env exeDir manifest ''rshelper.exe'' s' \<or> deferred env ''rshelper.exe'') \<and>
    (rt_orc env = no_faults \<and> up_to_date env exeDir manifest ''appcenter-tray.exe'' s \<and>
       up_to_date env exeDir manifest ''rshelper.exe'' s \<longrightarrow> s' = s \<and> ev = [])"
proof -
  let ?tray = "''appcenter-tray.exe''" and ?rs = "''rshelper.exe''"
  obtain ev1 s1 ev2 where tray: "ensureFile env exeDir cfg manifest ?tray s = (None, ev1, s1)"
    and rs: "ensureFile env exeDir cfg manifest ?rs s1 = (None, ev2, s')" and ev: "ev = ev1 @ ev2"
    using assms by (auto simp: syncOnce_def split: prod.splits option.splits)
  have "\<not> deferred env ?tray"
    by (simp add: deferred_def strings_EqualFold_def strings_ToLower_def char_lower_def char_upper_def)
  with ensureFile_ok [OF tray] have "up_to_date env exeDir manifest ?tray s1" by blast
  moreover have "s' (filepath_Join exeDir ?tray) = s1 (filepath_Join exeDir ?tray)"
    by (rule ensureFile_frame [OF rs]) (simp add: filepath_Join_append filepath_Join_inj)
  ultimately have "up_to_date env exeDir manifest ?tray s'"
    by (simp add: up_to_date_cong [of s'])
  moreover have "s' = s \<and> ev = []"
    if "rt_orc env = no_faults" "up_to_date env exeDir manifest ?tray s" "up_to_date env exeDir manifest ?rs s"
    using ensureFile_current [OF that(2,1), of cfg] ensureFile_current [OF that(3,1), of cfg] tray rs ev by simp
  ultimately show ?thesis using ensureFile_ok [OF rs] by blast
qed

subsection \<open>Waiting\<close>

text \<open>The loop never spins and never sleeps too long: with a configuration that went through
  \<open>normalizeConfig\<close> and an interval and jitter of at most ten million minutes and seconds, the wait
  after a round is at least the interval, hence at least a minute, and at most interval plus jitter.\<close>

theorem computeWait_bounds:
  assumes "\<And>n. 0 < n \<Longrightarrow> 0 \<le> intn n \<and> intn n < n"
    and "rtc_IntervalMin cfg \<le> 10000000" and "rtc_JitterSec cfg \<le> 10000000"
  shows "dur_minute \<le> rtc_IntervalMin (normalizeConfig cfg) * dur_minute \<and>
    rtc_IntervalMin (normalizeConfig cfg) * dur_minute \<le> computeWait intn (normalizeConfig cfg) \<and>
    computeWait intn (normalizeConfig cfg) \<le>
      rtc_IntervalMin (normalizeConfig cfg) * dur_minute + rtc_JitterSec (normalizeConfig cfg) * dur_second"
proof -
  let ?c = "normalizeConfig cfg"
  let ?i = "rtc_IntervalMin ?c" and ?j = "rtc_JitterSec ?c"
  have i: "1 \<le> ?i" "?i \<le> 10000000" and j: "0 \<le> ?j" "?j \<le> 10000000"
    using assms(2,3) by (auto simp: normalizeConfig_def)
  then have base: "dur_mul ?i dur_minute = ?i * dur_minute"
    by (simp add: dur_mul_def wrap64_id int64_range_def dur_minute_def)
  show ?thesis
  proof (cases "?j \<le> 0")
    case True
    with base i j show ?thesis by (simp add: computeWait_def Let_def dur_minute_def dur_second_def)
  next
    case False
    let ?r = "intn (?j + 1)"
    have r: "0 \<le> ?r" "?r \<le> ?j" using assms(1) [of "?j + 1"] j by auto
    then have "dur_mul ?r dur_second = ?r * dur_second"
      using j by (simp add: dur_mul_def wrap64_id int64_range_def dur_second_def)
    moreover have "wrap64 (?i * dur_minute + ?r * dur_second) = ?i * dur_minute + ?r * dur_second"
      using i j r by (intro wrap64_id) (simp add: int64_range_def dur_minute_def dur_second_def)
    ultimately show ?thesis
      using False base i r by (simp add: computeWait_def Let_def dur_minute_def dur_second_def)
  qed
qed

theorem computeWait_bounds_witness:
  "dur_minute \<le> computeWait (\<lambda>n. n - 1) (normalizeConfig \<lparr>rtc_BaseURL = [], rtc_IntervalMin = 0, rtc_JitterSec = -3\<rparr>)"
proof -
  let ?c = "\<lparr>rtc_BaseURL = [], rtc_IntervalMin = 0, rtc_JitterSec = -3\<rparr>"
  have "0 < n \<Longrightarrow> 0 \<le> n - 1 \<and> n - 1 < n" for n :: int by simp
  from computeWait_bounds [of "\<lambda>n. n - 1" ?c, OF this] show ?thesis by simp
qed

subsection \<open>An example\<close>

definition sample_manifest :: json where
  "sample_manifest = JObj [(''version'', JStr ''2''),
     (''files'', JObj [(''appcenter-tray.exe'', JObj [(''sha256'', JStr ''new'')])])]"

definition sample_rt :: rt_env where
  "sample_rt = \<lparr>rt_orc = no_faults,
     rt_server = (\<lambda>req. Inr \<lparr>rs_StatusCode = 200, rs_Status = [], rs_Header = [], rs_Body = ''NEW'', rs_BodyErr = None\<rparr>),
     rt_reads = sample_reads, rt_sha = strings_ToLower, rt_json_decode = (\<lambda>_. Inr sample_manifest),
     rt_processes = Some [''RSHELPER.EXE''], rt_Intn = (\<lambda>n. 0)\<rparr>"

definition sample_rt_config :: RuntimeConfig where
  "sample_rt_config = \<lparr>rtc_BaseURL = ''http://s'', rtc_IntervalMin = 60, rtc_JitterSec = 0\<rparr>"

definition sample_tray_entry :: ManifestFile where
  "sample_tray_entry = \<lparr>mf_SHA256 = ''new'', mf_URL = []\<rparr>"

lemma sample_fetch:
  "fetchManifest sample_rt url = Inr \<lparr>man_Version = ''2'', man_Files = [(''appcenter-tray.exe'', sample_tray_entry)]\<rparr>"
  by (simp add: fetchManifest_def sample_rt_def sample_manifest_def decode_Manifest_def decode_struct_def
      set_manifest_field_def set_manifest_file_field_def manifest_file_fields_def gm_put_def gm_defs sample_tray_entry_def)

lemma sample_hash: "hash_matches strings_ToLower ''new'' d \<longleftrightarrow> strings_ToLower d = ''new''"
  by (simp add: hash_matches_def strings_ToLower_def strings_TrimPrefix_def char_lower_def char_upper_def)

lemma sample_ensure:
  assumes "man_Files manifest = [(''appcenter-tray.exe'', sample_tray_entry)]"
  shows "ensureFile sample_rt dir sample_rt_config manifest ''appcenter-tray.exe'' [filepath_Join dir ''appcenter-tray.exe'' \<mapsto> ''OLD''] =
    (None, [TrayStopped, TrayUpdated],
      [filepath_Join dir ''appcenter-tray.exe'' \<mapsto> ''NEW'', filepath_Join dir ''appcenter-tray.exe'' @ ''.bak'' \<mapsto> ''OLD''])"
proof -
  let ?d = "filepath_Join dir ''appcenter-tray.exe''"
  have old: "VerifyFileHash (rt_sha sample_rt) (rt_orc sample_rt) ?d ''new'' [?d \<mapsto> ''OLD''] \<noteq> Inr True"
    by (simp add: sample_rt_def VerifyFileHash_no_faults sample_hash)
      (simp add: strings_ToLower_def char_lower_def char_upper_def)
  have dl: "downloadToFile sample_rt u (?d @ ''.download'') [?d \<mapsto> ''OLD''] = (None, [?d \<mapsto> ''OLD'', ?d @ ''.download'' \<mapsto> ''NEW''])" for u
    by (simp add: downloadToFile_def sample_rt_def os_defs sample_reads_single disk_room_def)
  have new: "VerifyFileHash (rt_sha sample_rt) (rt_orc sample_rt) (?d @ ''.download'') ''new'' [?d \<mapsto> ''OLD'', ?d @ ''.download'' \<mapsto> ''NEW''] = Inr True"
    by (simp add: sample_rt_def VerifyFileHash_no_faults sample_hash)
      (simp add: strings_ToLower_def char_lower_def char_upper_def)
  have tray: "strings_EqualFold ''appcenter-tray.exe'' ''appcenter-tray.exe''" by simp
  have norun: "\<not> strings_EqualFold ''appcenter-tray.exe'' ''rshelper.exe''"
    by (simp add: strings_EqualFold_def strings_ToLower_def char_lower_def char_upper_def)
  have rep: "replaceFile (rt_orc sample_rt) ?d (?d @ ''.download'') [?d \<mapsto> ''OLD'', ?d @ ''.download'' \<mapsto> ''NEW''] =
      (None, [?d \<mapsto> ''NEW'', ?d @ ''.bak'' \<mapsto> ''OLD''])"
    by (auto simp: replaceFile_def set_aside_def Let_def os_defs sample_rt_def fun_eq_iff)
  have iv: "installVerified sample_rt ''appcenter-tray.exe'' ''new'' ?d (?d @ ''.download'') [?d \<mapsto> ''OLD'', ?d @ ''.download'' \<mapsto> ''NEW''] =
      (None, [TrayStopped, TrayUpdated], [?d \<mapsto> ''NEW'', ?d @ ''.bak'' \<mapsto> ''OLD''])"
    by (simp add: installVerified_def new norun rep del: fun_upd_apply)
  have trim: "strings_TrimSpace ''new'' = ''new''" "strings_TrimSpace [] = []"
    by (simp_all add: strings_TrimSpace_def char_space_def)
  have rm: "snd (os_Remove (rt_orc sample_rt) (?d @ ''.download'') [?d \<mapsto> ''NEW'', ?d @ ''.bak'' \<mapsto> ''OLD'']) =
      [?d \<mapsto> ''NEW'', ?d @ ''.bak'' \<mapsto> ''OLD'']"
    by (simp add: os_defs sample_rt_def)
  have get: "gm_get (man_Files manifest) ''appcenter-tray.exe'' = Some sample_tray_entry"
    by (simp add: assms gm_defs)
  show ?thesis
    unfolding ensureFile_def get option.case Let_def sample_tray_entry_def ManifestFile.simps trim
    using old by (simp add: dl iv rm del: fun_upd_apply)
qed

theorem ensureFile_atomic_witness:
  "\<exists>s'. ensureFile sample_rt ''d'' sample_rt_config
       \<lparr>man_Version = ''2'', man_Files = [(''appcenter-tray.exe'', sample_tray_entry)]\<rparr> ''appcenter-tray.exe''
       [filepath_Join ''d'' ''appcenter-tray.exe'' \<mapsto> ''OLD''] = (None, [TrayStopped, TrayUpdated], s') \<and>
     s' ''other'' = None"
proof -
  let ?d = "filepath_Join ''d'' ''appcenter-tray.exe''"
  let ?man = "\<lparr>man_Version = ''2'', man_Files = [(''appcenter-tray.exe'', sample_tray_entry)]\<rparr>"
  note e = sample_ensure [of ?man "''d''", simplified]
  have o: "''other'' \<notin> {?d, ?d @ ''.bak'', ?d @ ''.download''}"
    by (simp add: filepath_Join_def path_sep_def)
  then have "([?d \<mapsto> ''OLD''] :: fs) ''other'' = None" by simp
  with ensureFile_atomic [OF e refl] o e show ?thesis by metis
qed

theorem syncOnce_up_to_date_witness:
  "\<exists>s'. syncOnce sample_rt ''d'' sample_rt_config [filepath_Join ''d'' ''appcenter-tray.exe'' \<mapsto> ''OLD''] =
       (None, [TrayStopped, TrayUpdated], s') \<and>
     up_to_date sample_rt ''d'' \<lparr>man_Version = ''2'', man_Files = [(''appcenter-tray.exe'', sample_tray_entry)]\<rparr>
       ''appcenter-tray.exe'' s'"
proof -
  let ?man = "\<lparr>man_Version = ''2'', man_Files = [(''appcenter-tray.exe'', sample_tray_entry)]\<rparr>"
  note e = sample_ensure [of ?man "''d''", simplified]
  have rs: "ensureFile sample_rt ''d'' sample_rt_config ?man ''rshelper.exe'' s = (None, [], s)" for s
    by (simp add: ensureFile_def gm_defs)
  have "\<exists>s'. syncOnce sample_rt ''d'' sample_rt_config [filepath_Join ''d'' ''appcenter-tray.exe'' \<mapsto> ''OLD''] =
       (None, [TrayStopped, TrayUpdated], s')"
    by (simp add: syncOnce_def sample_fetch e rs)
  then obtain s' where s': "syncOnce sample_rt ''d'' sample_rt_config [filepath_Join ''d'' ''appcenter-tray.exe'' \<mapsto> ''OLD''] =
       (None, [TrayStopped, TrayUpdated], s')" by blast
  from syncOnce_up_to_date [OF s' sample_fetch] s' show ?thesis by blast
qed

end
