(* ===== verification/RemoteSession.thy ===== *)
theory RemoteSession
  imports Api "HOL-Library.Sublist"
begin

section \<open>Remote support sessions (\<open>internal/remotesupport/session.go\<close>)\<close>

text \<open>
  \<open>SessionManager\<close> is shared by goroutines: every request of the server, every end signal and every
  \<open>EndSession\<close> of the user runs in one of its own. The model is a state machine: the shared state
  under the mutex, and for each goroutine the place it has reached. A step of a goroutine is what
  happens between two points where others may run: a critical section, or a call to the helper, the
  dialog or the server, whose outcome comes from outside.
\<close>

subsection \<open>Shared state\<close>

datatype SessionState = StateIdle | StatePending | StateApproved | StateConnecting | StateActive

text \<open>What the manager tells the server, and the consent the session rests on, in order.\<close>

datatype rs_log =
    Consented int
  | ReportedApproval int bool
  | ReportedReady int
  | ReportedEnded int string

record VNCServer =
  vnc_process :: bool
  vnc_process2 :: bool

record SessionManager =
  sm_state :: SessionState
  sm_session :: int
  sm_vnc :: VNCServer
  sm_log :: "rs_log list"

definition NewSessionManager :: SessionManager where
  "NewSessionManager = \<lparr>sm_state = StateIdle, sm_session = 0,
     sm_vnc = \<lparr>vnc_process = False, vnc_process2 = False\<rparr>, sm_log = []\<rparr>"

text \<open>The outcome of the call a goroutine makes: whether it works, and what the user and the server say.\<close>

record outcome =
  oc_ok :: bool
  oc_available :: bool
  oc_listening :: bool
  oc_approved :: bool
  oc_monitors :: int
  oc_password :: string

text \<open>\<open>VNCServer.Start\<close> without the helper on disk fails before it stops anything.\<close>

definition vncStop :: "VNCServer \<Rightarrow> VNCServer" where
  "vncStop v = v\<lparr>vnc_process := False, vnc_process2 := False\<rparr>"

definition vncStart :: "bool \<Rightarrow> bool \<Rightarrow> VNCServer \<Rightarrow> bool \<times> VNCServer" where
  "vncStart available started v =
     (if \<not> available then (False, v)
      else if \<not> started then (False, vncStop v)
      else (True, (vncStop v)\<lparr>vnc_process := True\<rparr>))"

definition vncStartSecondary :: "bool \<Rightarrow> bool \<Rightarrow> VNCServer \<Rightarrow> bool \<times> VNCServer" where
  "vncStartSecondary available started v =
     (if \<not> available \<or> \<not> started then (False, v) else (True, v\<lparr>vnc_process2 := True\<rparr>))"

subsection \<open>Goroutines\<close>

text \<open>Where a goroutine is: the next thing it does.\<close>

datatype rs_pc =
    ReqEnter RemoteSupportRequest
  | ReqPrestart RemoteSupportRequest
  | ReqPreListen RemoteSupportRequest
  | ReqDialog RemoteSupportRequest
  | ReqCheck RemoteSupportRequest bool int
  | ReqApprove RemoteSupportRequest bool int
  | ReqSetApproved RemoteSupportRequest int string
  | ReqRestart RemoteSupportRequest int string
  | ReqListen RemoteSupportRequest int string
  | ReqSecondary RemoteSupportRequest int string
  | ReqSetConnecting RemoteSupportRequest
  | ReqReady RemoteSupportRequest
  | ReqSetActive RemoteSupportRequest
  | EndSignal int
  | EndRead string
  | EndReport int string
  | ResetStop
  | ResetState
  | Finished

text \<open>
  One step. \<open>HandleRequest\<close> is \<open>ReqEnter\<close> to \<open>ReqSetActive\<close>, each early return a jump to
  \<open>ResetStop\<close> or \<open>Finished\<close>; \<open>HandleEndSignal\<close> is \<open>EndSignal\<close>, \<open>EndSession\<close> is \<open>EndRead\<close> and
  \<open>EndReport\<close>, \<open>reset\<close> is \<open>ResetStop\<close> and \<open>ResetState\<close>.
\<close>

fun rs_step :: "outcome \<Rightarrow> rs_pc \<Rightarrow> SessionManager \<Rightarrow> rs_pc \<times> SessionManager" where
  "rs_step oc (ReqEnter req) sm =
     (if sm_state sm \<noteq> StateIdle then (Finished, sm)
      else (ReqPrestart req, sm\<lparr>sm_state := StatePending, sm_session := rq_SessionID req\<rparr>))"
| "rs_step oc (ReqPrestart req) sm =
     (case vncStart (oc_available oc) (oc_ok oc) (sm_vnc sm) of
        (True, v) \<Rightarrow> (ReqPreListen req, sm\<lparr>sm_vnc := v\<rparr>)
      | (False, v) \<Rightarrow> (ResetStop, sm\<lparr>sm_vnc := v\<rparr>))"
| "rs_step oc (ReqPreListen req) sm = (if oc_listening oc then (ReqDialog req, sm) else (ResetStop, sm))"
| "rs_step oc (ReqDialog req) sm =
     (if \<not> rq_RequiresApproval req
      then (ReqCheck req True 1, sm\<lparr>sm_log := sm_log sm @ [Consented (rq_SessionID req)]\<rparr>)
      else if \<not> oc_ok oc then (ResetStop, sm)
      else if oc_approved oc
      then (ReqCheck req True (oc_monitors oc), sm\<lparr>sm_log := sm_log sm @ [Consented (rq_SessionID req)]\<rparr>)
      else (ReqCheck req False (oc_monitors oc), sm))"
| "rs_step oc (ReqCheck req approved mon) sm =
     (if sm_state sm = StatePending \<and> sm_session sm = rq_SessionID req
      then (ReqApprove req approved mon, sm) else (Finished, sm))"
| "rs_step oc (ReqApprove req approved mon) sm =
     (let sm' = sm\<lparr>sm_log := sm_log sm @ [ReportedApproval (rq_SessionID req) approved]\<rparr>
      in if \<not> oc_ok oc \<or> \<not> approved then (ResetStop, sm')
         else (ReqSetApproved req mon (oc_password oc), sm'))"
| "rs_step oc (ReqSetApproved req mon password) sm =
     (let vncPassword = strings_TrimSpace password; sm' = sm\<lparr>sm_state := StateApproved\<rparr>
      in if vncPassword = [] then (ResetStop, sm') else (ReqRestart req mon vncPassword, sm'))"
| "rs_step oc (ReqRestart req mon password) sm =
     (case vncStart (oc_available oc) (oc_ok oc) (sm_vnc sm) of
        (True, v) \<Rightarrow> (ReqListen req mon password, sm\<lparr>sm_vnc := v\<rparr>)
      | (False, v) \<Rightarrow> (ResetStop, sm\<lparr>sm_vnc := v\<rparr>))"
| "rs_step oc (ReqListen req mon password) sm =
     (if \<not> oc_listening oc then (ResetStop, sm)
      else if mon \<ge> 2 then (ReqSecondary req mon password, sm) else (ReqSetConnecting req, sm))"
| "rs_step oc (ReqSecondary req mon password) sm =
     (ReqSetConnecting req, sm\<lparr>sm_vnc := snd (vncStartSecondary (oc_available oc) (oc_ok oc) (sm_vnc sm))\<rparr>)"
| "rs_step oc (ReqSetConnecting req) sm = (ReqReady req, sm\<lparr>sm_state := StateConnecting\<rparr>)"
| "rs_step oc (ReqReady req) sm =
     (let sm' = sm\<lparr>sm_log := sm_log sm @ [ReportedReady (rq_SessionID req)]\<rparr>
      in if oc_ok oc then (ReqSetActive req, sm') else (ResetStop, sm'))"
| "rs_step oc (ReqSetActive req) sm = (Finished, sm\<lparr>sm_state := StateActive\<rparr>)"
| "rs_step oc (EndSignal sid) sm = (if sm_session sm \<noteq> sid then (Finished, sm) else (EndRead ''admin'', sm))"
| "rs_step oc (EndRead endedBy) sm = (if sm_session sm = 0 then (Finished, sm) else (EndReport (sm_session sm) endedBy, sm))"
| "rs_step oc (EndReport sid endedBy) sm =
     (ResetStop, sm\<lparr>sm_log := sm_log sm @ [ReportedEnded sid endedBy]\<rparr>)"
| "rs_step oc ResetStop sm = (ResetState, sm\<lparr>sm_vnc := vncStop (sm_vnc sm)\<rparr>)"
| "rs_step oc ResetState sm = (Finished, sm\<lparr>sm_state := StateIdle, sm_session := 0\<rparr>)"
| "rs_step oc Finished sm = (Finished, sm)"

text \<open>A goroutine that is started: a request, an end signal, or the user's \<open>EndSession\<close>.\<close>

fun rs_entry :: "rs_pc \<Rightarrow> bool" where
  "rs_entry (ReqEnter req) = True"
| "rs_entry (EndSignal sid) = True"
| "rs_entry (EndRead endedBy) = True"
| "rs_entry _ = False"

record rs_world =
  rw_sm :: SessionManager
  rw_threads :: "rs_pc list"

inductive rs_move :: "rs_world \<Rightarrow> rs_world \<Rightarrow> bool" where
  spawn: "rs_entry pc \<Longrightarrow> rs_move w (w\<lparr>rw_threads := rw_threads w @ [pc]\<rparr>)"
| step: "i < length (rw_threads w) \<Longrightarrow> rs_step oc (rw_threads w ! i) (rw_sm w) = (pc', sm') \<Longrightarrow>
    rs_move w \<lparr>rw_sm = sm', rw_threads = (rw_threads w)[i := pc']\<rparr>"

inductive_cases rs_moveE: "rs_move w w'"

inductive rs_reachable :: "rs_world \<Rightarrow> bool" where
  init: "rs_reachable \<lparr>rw_sm = NewSessionManager, rw_threads = []\<rparr>"
| move: "rs_reachable w \<Longrightarrow> rs_move w w' \<Longrightarrow> rs_reachable w'"

text \<open>Executions as lists of events; an event that is not possible does nothing.\<close>

datatype rs_event = Spawn rs_pc | Run nat outcome

fun rs_apply :: "rs_event \<Rightarrow> rs_world \<Rightarrow> rs_world" where
  "rs_apply (Spawn pc) w = (if rs_entry pc then w\<lparr>rw_threads := rw_threads w @ [pc]\<rparr> else w)"
| "rs_apply (Run i oc) w =
     (if i < length (rw_threads w)
      then case rs_step oc (rw_threads w ! i) (rw_sm w) of
             (pc', sm') \<Rightarrow> \<lparr>rw_sm = sm', rw_threads = (rw_threads w)[i := pc']\<rparr>
      else w)"

definition rs_init :: rs_world where
  "rs_init = \<lparr>rw_sm = NewSessionManager, rw_threads = []\<rparr>"

definition rs_run :: "rs_event list \<Rightarrow> rs_world \<Rightarrow> rs_world" where
  "rs_run evs w = fold rs_apply evs w"

lemma rs_apply_move: "rs_apply e w = w \<or> rs_move w (rs_apply e w)"
  by (cases e) (auto intro: rs_move.intros split: prod.split)

lemma rs_reachable_run: "rs_reachable w \<Longrightarrow> rs_reachable (rs_run evs w)"
proof (induction evs arbitrary: w)
  case (Cons e evs)
  have "rs_reachable (rs_apply e w)"
    using rs_apply_move [of e w] Cons.prems by (metis rs_reachable.move)
  with Cons.IH show ?case by (simp add: rs_run_def)
qed (simp add: rs_run_def)

lemma rs_reachable_init [simp]: "rs_reachable rs_init"
  unfolding rs_init_def by (rule rs_reachable.init)

text \<open>An invariant of the shared state and of every goroutine, kept by every step, holds always.\<close>

lemma rs_invariant:
  assumes "rs_reachable w"
    and "I NewSessionManager"
    and "\<And>pc sm. I sm \<Longrightarrow> rs_entry pc \<Longrightarrow> J sm pc"
    and "\<And>oc pc sm pc' sm'. I sm \<Longrightarrow> J sm pc \<Longrightarrow> rs_step oc pc sm = (pc', sm') \<Longrightarrow> I sm' \<and> J sm' pc'"
    and "\<And>oc pc sm pc' sm' q. I sm \<Longrightarrow> J sm q \<Longrightarrow> rs_step oc pc sm = (pc', sm') \<Longrightarrow> J sm' q"
  shows "I (rw_sm w) \<and> (\<forall>pc \<in> set (rw_threads w). J (rw_sm w) pc)"
  using assms(1)
proof (induction rule: rs_reachable.induct)
  case init
  with assms(2) show ?case by simp
next
  case (move w w')
  from move.hyps(2) show ?case
  proof (cases rule: rs_move.cases)
    case (spawn pc)
    with move.IH assms(3) show ?thesis by auto
  next
    case (step i oc pc' sm')
    let ?pc = "rw_threads w ! i"
    have "?pc \<in> set (rw_threads w)" using step(2) by simp
    with move.IH have I: "I (rw_sm w)" and J: "J (rw_sm w) ?pc" by auto
    from assms(4) [OF I J step(3)] have "I sm'" "J sm' pc'" by simp_all
    moreover have "J sm' q" if "q \<in> set (rw_threads w)" for q
      using assms(5) [OF I _ step(3)] move.IH that by blast
    ultimately show ?thesis using step(1) set_update_subset_insert [of "rw_threads w" i pc'] by auto
  qed
qed

subsection \<open>Consent\<close>

text \<open>What has to come before an entry of the log.\<close>

fun entry_ok :: "rs_log list \<Rightarrow> rs_log \<Rightarrow> bool" where
  "entry_ok before (ReportedApproval sid approved) = (\<not> approved \<or> Consented sid \<in> set before)"
| "entry_ok before (ReportedReady sid) =
     (Consented sid \<in> set before \<and> ReportedApproval sid True \<in> set before)"
| "entry_ok before _ = True"

definition log_ok :: "rs_log list \<Rightarrow> bool" where
  "log_ok log \<longleftrightarrow> (\<forall>i < length log. entry_ok (take i log) (log ! i))"

lemma log_ok_snoc [simp]: "log_ok (log @ [e]) \<longleftrightarrow> log_ok log \<and> entry_ok log e"
  by (auto simp: log_ok_def nth_append less_Suc_eq)

fun consent_at :: "rs_log list \<Rightarrow> rs_pc \<Rightarrow> bool" where
  "consent_at log (ReqCheck req approved mon) = (\<not> approved \<or> Consented (rq_SessionID req) \<in> set log)"
| "consent_at log (ReqApprove req approved mon) = (\<not> approved \<or> Consented (rq_SessionID req) \<in> set log)"
| "consent_at log (ReqSetApproved req mon pw) = (entry_ok log (ReportedReady (rq_SessionID req)))"
| "consent_at log (ReqRestart req mon pw) = (entry_ok log (ReportedReady (rq_SessionID req)))"
| "consent_at log (ReqListen req mon pw) = (entry_ok log (ReportedReady (rq_SessionID req)))"
| "consent_at log (ReqSecondary req mon pw) = (entry_ok log (ReportedReady (rq_SessionID req)))"
| "consent_at log (ReqSetConnecting req) = (entry_ok log (ReportedReady (rq_SessionID req)))"
| "consent_at log (ReqReady req) = (entry_ok log (ReportedReady (rq_SessionID req)))"
| "consent_at log (ReqSetActive req) = (entry_ok log (ReportedReady (rq_SessionID req)))"
| "consent_at log _ = True"

lemma rs_step_log: "rs_step oc pc sm = (pc', sm') \<Longrightarrow> \<exists>es. sm_log sm' = sm_log sm @ es"
  by (cases pc) (auto simp: Let_def split: if_splits prod.splits bool.splits)

lemma consent_at_mono: "consent_at log pc \<Longrightarrow> consent_at (log @ es) pc"
  by (cases pc) auto

lemma rs_step_consent:
  assumes "log_ok (sm_log sm)" and "consent_at (sm_log sm) pc" and "rs_step oc pc sm = (pc', sm')"
  shows "log_ok (sm_log sm') \<and> consent_at (sm_log sm') pc'"
  using assms by (cases pc) (auto simp: Let_def split: if_splits prod.splits bool.splits)

text \<open>C18. No session without consent: in every execution, however requests, end signals and the user's
  closing interleave and whatever fails, an approval reported to the server for a session was preceded
  by consent for that session (the user's answer in the dialog, or the policy that needs none), and
  readiness is reported only after consent and a reported approval for the same session.\<close>

theorem remote_session_consent:
  assumes "rs_reachable w"
  shows "log_ok (sm_log (rw_sm w))"
proof -
  have "log_ok (sm_log (rw_sm w)) \<and> (\<forall>pc \<in> set (rw_threads w). consent_at (sm_log (rw_sm w)) pc)"
    using assms
  proof (rule rs_invariant)
    show "log_ok (sm_log NewSessionManager)" by (simp add: log_ok_def NewSessionManager_def)
    show "consent_at (sm_log sm) pc" if "rs_entry pc" for sm pc using that by (cases pc) simp_all
    show "log_ok (sm_log sm') \<and> consent_at (sm_log sm') pc'"
      if "log_ok (sm_log sm)" "consent_at (sm_log sm) pc" "rs_step oc pc sm = (pc', sm')" for oc pc sm pc' sm'
      using that by (rule rs_step_consent)
    show "consent_at (sm_log sm') q"
      if "log_ok (sm_log sm)" "consent_at (sm_log sm) q" "rs_step oc pc sm = (pc', sm')" for oc pc sm pc' sm' q
      using rs_step_log [OF that(3)] that(2) consent_at_mono by fastforce
  qed
  then show ?thesis ..
qed

subsection \<open>Executions\<close>

definition good :: outcome where
  "good = \<lparr>oc_ok = True, oc_available = True, oc_listening = True, oc_approved = True, oc_monitors = 1, oc_password = ''pw''\<rparr>"

definition sample_rs_request :: "int \<Rightarrow> RemoteSupportRequest" where
  "sample_rs_request sid = zero_RemoteSupportRequest\<lparr>rq_SessionID := sid, rq_RequiresApproval := True\<rparr>"

definition request_run :: "rs_event list" where
  "request_run = Spawn (ReqEnter (sample_rs_request 7)) # replicate 12 (Run 0 good)"

lemma trim_pw: "strings_TrimSpace ''pw'' = ''pw''"
  by (simp add: strings_TrimSpace_def char_space_def)

lemma rs_run_simps [simp]:
  "rs_run [] w = w"
  "rs_run (e # es) w = rs_run es (rs_apply e w)"
  by (simp_all add: rs_run_def)

lemma rs_run_append: "rs_run (es @ fs) w = rs_run fs (rs_run es w)"
  by (simp add: rs_run_def)

lemma request_run_active:
  "sm_state (rw_sm (rs_run request_run rs_init)) = StateActive"
  "sm_session (rw_sm (rs_run request_run rs_init)) = 7"
  "sm_log (rw_sm (rs_run request_run rs_init)) = [Consented 7, ReportedApproval 7 True, ReportedReady 7]"
  by (simp_all add: request_run_def rs_init_def NewSessionManager_def good_def sample_rs_request_def
      zero_RemoteSupportRequest_def numeral_eq_Suc vncStart_def vncStop_def trim_pw)

theorem remote_session_consent_witness:
  "log_ok [Consented 7, ReportedApproval 7 True, ReportedReady 7] \<and> \<not> log_ok [ReportedApproval 7 True, Consented 7]"
proof -
  have "log_ok (sm_log (rw_sm (rs_run request_run rs_init)))"
    by (rule remote_session_consent) (simp add: rs_reachable_run)
  moreover have "\<not> log_ok ([] @ [ReportedApproval 7 True] @ [Consented 7])"
    unfolding append_assoc [symmetric] log_ok_snoc by simp
  ultimately show ?thesis by (simp add: request_run_active)
qed

subsection \<open>One request at a time\<close>

text \<open>
  As long as an end signal or \<open>EndSession\<close> starts only on an active session that nothing else works on,
  the state tells exactly which goroutine is at work: a request that is past its entry holds the
  manager until it resets it or the session is active, and then the end of the session holds it.
\<close>

fun idle_pc :: "rs_pc \<Rightarrow> bool" where
  "idle_pc (ReqEnter req) = True"
| "idle_pc Finished = True"
| "idle_pc _ = False"

definition active :: "SessionManager \<Rightarrow> bool" where
  "active sm \<longleftrightarrow> sm_state sm = StateActive \<and> ReportedReady (sm_session sm) \<in> set (sm_log sm)"

fun holds :: "SessionManager \<Rightarrow> rs_pc \<Rightarrow> bool" where
  "holds sm (ReqPrestart req) = (sm_state sm = StatePending \<and> sm_session sm = rq_SessionID req)"
| "holds sm (ReqPreListen req) = (sm_state sm = StatePending \<and> sm_session sm = rq_SessionID req)"
| "holds sm (ReqDialog req) = (sm_state sm = StatePending \<and> sm_session sm = rq_SessionID req)"
| "holds sm (ReqCheck req a m) = (sm_state sm = StatePending \<and> sm_session sm = rq_SessionID req)"
| "holds sm (ReqApprove req a m) = (sm_state sm = StatePending \<and> sm_session sm = rq_SessionID req)"
| "holds sm (ReqSetApproved req m p) = (sm_state sm = StatePending \<and> sm_session sm = rq_SessionID req)"
| "holds sm (ReqRestart req m p) = (sm_state sm = StateApproved \<and> sm_session sm = rq_SessionID req)"
| "holds sm (ReqListen req m p) = (sm_state sm = StateApproved \<and> sm_session sm = rq_SessionID req)"
| "holds sm (ReqSecondary req m p) = (sm_state sm = StateApproved \<and> sm_session sm = rq_SessionID req)"
| "holds sm (ReqSetConnecting req) = (sm_state sm = StateApproved \<and> sm_session sm = rq_SessionID req)"
| "holds sm (ReqReady req) = (sm_state sm = StateConnecting \<and> sm_session sm = rq_SessionID req)"
| "holds sm (ReqSetActive req) = (sm_state sm = StateConnecting \<and> sm_session sm = rq_SessionID req \<and>
     ReportedReady (rq_SessionID req) \<in> set (sm_log sm))"
| "holds sm (EndSignal sid) = active sm"
| "holds sm (EndRead endedBy) = active sm"
| "holds sm (EndReport sid endedBy) = active sm"
| "holds sm ResetStop = (sm_state sm \<noteq> StateIdle)"
| "holds sm ResetState = (sm_state sm \<noteq> StateIdle)"
| "holds sm _ = False"

definition at_rest :: "SessionManager \<Rightarrow> bool" where
  "at_rest sm \<longleftrightarrow> sm_state sm = StateIdle \<and> sm_session sm = 0 \<or> active sm"

fun busy_ok :: "SessionManager \<Rightarrow> rs_pc list \<Rightarrow> bool" where
  "busy_ok sm [] = at_rest sm"
| "busy_ok sm [pc] = holds sm pc"
| "busy_ok sm (pc # pc' # pcs) = False"

definition exclusive :: "rs_world \<Rightarrow> bool" where
  "exclusive w \<longleftrightarrow> busy_ok (rw_sm w) (filter (\<lambda>pc. \<not> idle_pc pc) (rw_threads w))"

lemma busy_ok_iff:
  "busy_ok sm pcs \<longleftrightarrow> pcs = [] \<and> at_rest sm \<or> (\<exists>pc. pcs = [pc] \<and> holds sm pc)"
  by (cases "(sm, pcs)" rule: busy_ok.cases) auto

fun orderly_event :: "rs_event \<Rightarrow> rs_world \<Rightarrow> bool" where
  "orderly_event (Spawn (ReqEnter req)) w = True"
| "orderly_event (Spawn pc) w = (sm_state (rw_sm w) = StateActive \<and> (\<forall>q \<in> set (rw_threads w). idle_pc q))"
| "orderly_event (Run i oc) w = True"

fun orderly :: "rs_event list \<Rightarrow> rs_world \<Rightarrow> bool" where
  "orderly [] w = True"
| "orderly (e # es) w = (orderly_event e w \<and> orderly es (rs_apply e w))"

lemma holds_step:
  assumes "holds sm pc" and "\<not> idle_pc pc" and "rs_step oc pc sm = (pc', sm')"
  shows "(\<not> idle_pc pc' \<and> holds sm' pc') \<or> (idle_pc pc' \<and> at_rest sm')"
  using assms by (cases pc) (auto simp: Let_def at_rest_def active_def split: if_splits prod.splits bool.splits)

lemma idle_step:
  assumes "idle_pc pc" and "rs_step oc pc sm = (pc', sm')"
  shows "idle_pc pc' \<and> sm' = sm \<or> (sm_state sm = StateIdle \<and> \<not> idle_pc pc' \<and> holds sm' pc')"
  using assms by (cases pc) (auto split: if_splits)

lemma holds_busy: "holds sm pc \<Longrightarrow> sm_state sm \<noteq> StateIdle"
  by (cases pc) (auto simp: active_def)

lemma filter_update:
  assumes "i < length xs"
  shows "filter P (xs[i := y]) = filter P (take i xs) @ (if P y then [y] else []) @ filter P (drop (Suc i) xs)"
    and "filter P xs = filter P (take i xs) @ (if P (xs ! i) then [xs ! i] else []) @ filter P (drop (Suc i) xs)"
proof -
  show "filter P (xs[i := y]) = filter P (take i xs) @ (if P y then [y] else []) @ filter P (drop (Suc i) xs)"
    using assms by (simp add: upd_conv_take_nth_drop)
  have "xs = take i xs @ xs ! i # drop (Suc i) xs" using assms by (simp add: id_take_nth_drop)
  then have "filter P xs = filter P (take i xs @ xs ! i # drop (Suc i) xs)" by simp
  then show "filter P xs = filter P (take i xs) @ (if P (xs ! i) then [xs ! i] else []) @ filter P (drop (Suc i) xs)"
    by (simp only: filter_append filter.simps) simp
qed

lemma exclusive_apply:
  assumes "exclusive w" and "orderly_event e w"
  shows "exclusive (rs_apply e w)"
proof (cases e)
  case (Spawn pc)
  show ?thesis
  proof (cases "\<exists>req. pc = ReqEnter req")
    case True
    with Spawn assms(1) show ?thesis by (auto simp: exclusive_def)
  next
    case False
    with Spawn assms(2) have rest: "sm_state (rw_sm w) = StateActive" "\<forall>q \<in> set (rw_threads w). idle_pc q"
      by (cases pc; simp)+
    then have "filter (\<lambda>q. \<not> idle_pc q) (rw_threads w) = []" by simp
    with assms(1) rest(1) have "active (rw_sm w)" by (simp add: exclusive_def at_rest_def)
    with Spawn False \<open>filter _ _ = []\<close> assms(1) show ?thesis by (cases pc) (auto simp: exclusive_def)
  qed
next
  case (Run i oc)
  show ?thesis
  proof (cases "i < length (rw_threads w)")
    case True
    let ?P = "\<lambda>pc. \<not> idle_pc pc" and ?pc = "rw_threads w ! i"
    obtain pc' sm' where st: "rs_step oc ?pc (rw_sm w) = (pc', sm')" by fastforce
    then have w': "rs_apply e w = \<lparr>rw_sm = sm', rw_threads = (rw_threads w)[i := pc']\<rparr>"
      using Run True by simp
    note f = filter_update [OF True, of ?P]
    let ?a = "filter ?P (take i (rw_threads w))" and ?b = "filter ?P (drop (Suc i) (rw_threads w))"
    show ?thesis
    proof (cases "idle_pc ?pc")
      case False
      with assms(1) f(2) have ab: "?a = []" "?b = []" and h: "holds (rw_sm w) ?pc"
        by (auto simp: exclusive_def busy_ok_iff append_eq_Cons_conv)
      from holds_step [OF h False st] ab show ?thesis
        by (auto simp: w' exclusive_def f(1))
    next
      case True
      from idle_step [OF True st] show ?thesis
      proof
        assume "idle_pc pc' \<and> sm' = rw_sm w"
        with assms(1) True f show ?thesis by (simp add: w' exclusive_def)
      next
        assume r: "sm_state (rw_sm w) = StateIdle \<and> \<not> idle_pc pc' \<and> holds sm' pc'"
        have "filter ?P (rw_threads w) = []"
          using assms(1) r holds_busy by (auto simp: exclusive_def busy_ok_iff)
        with True f(2) have "?a = []" "?b = []" by simp_all
        with r show ?thesis by (simp add: w' exclusive_def f(1))
      qed
    qed
  qed (use assms Run in simp)
qed

text \<open>C20. One session at a time: as long as end signals and the user's \<open>EndSession\<close> start only while a session
  is active and no other goroutine is past its entry, at any moment at most one goroutine is past its
  entry, however requests interleave and whatever fails; and when none is, the manager is idle, or
  active for a session whose readiness was reported: it is never left pending, approved or connecting.
  (An end that starts at another moment can break this; see the race below.)\<close>

theorem remote_session_exclusive:
  assumes "orderly evs rs_init"
  shows "let w = rs_run evs rs_init; busy = filter (\<lambda>pc. \<not> idle_pc pc) (rw_threads w)
    in length busy \<le> 1 \<and> (busy = [] \<longrightarrow> at_rest (rw_sm w)) \<and> (\<forall>pc \<in> set busy. holds (rw_sm w) pc)"
proof -
  have "exclusive (rs_run evs w)" if "exclusive w" and "orderly evs w" for w
    using that
  proof (induction evs arbitrary: w)
    case (Cons e evs)
    then show ?case using exclusive_apply by simp
  qed simp
  moreover have "exclusive rs_init" by (simp add: exclusive_def rs_init_def at_rest_def NewSessionManager_def)
  ultimately have "exclusive (rs_run evs rs_init)" using assms by blast
  then have "busy_ok (rw_sm (rs_run evs rs_init)) (filter (\<lambda>pc. \<not> idle_pc pc) (rw_threads (rs_run evs rs_init)))"
    unfolding exclusive_def .
  then show ?thesis unfolding busy_ok_iff Let_def
    by (elim disjE conjE exE) (simp_all only: list.size list.set, simp_all)
qed

text \<open>A session from its request to its end by the server, with a second request meanwhile.\<close>

definition orderly_run :: "rs_event list" where
  "orderly_run = request_run @ Spawn (EndSignal 7) # Run 1 good # Spawn (ReqEnter (sample_rs_request 8)) #
     Run 2 good # replicate 4 (Run 1 good)"

lemma orderly_run_ok: "orderly orderly_run rs_init" "rw_threads (rs_run orderly_run rs_init) = [Finished, Finished, Finished]"
  by (simp_all add: orderly_run_def request_run_def rs_init_def NewSessionManager_def good_def sample_rs_request_def
      zero_RemoteSupportRequest_def numeral_eq_Suc vncStart_def vncStop_def trim_pw)

theorem remote_session_exclusive_witness: "at_rest (rw_sm (rs_run orderly_run rs_init))"
  using remote_session_exclusive [OF orderly_run_ok(1)] by (simp add: Let_def orderly_run_ok(2) del: rs_run_simps)

text \<open>Two handlers past their entry: an end of session 7 that starts while it is still connecting.\<close>

definition unorderly_run :: "rs_event list" where
  "unorderly_run = Spawn (ReqEnter (sample_rs_request 7)) # Run 0 good # Spawn (EndRead ''user'') #
     replicate 4 (Run 1 good) @ [Spawn (ReqEnter (sample_rs_request 8)), Run 2 good]"

lemma ends_break_exclusion:
  "length (filter (\<lambda>pc. \<not> idle_pc pc) (rw_threads (rs_run unorderly_run rs_init))) = 2"
  by (simp add: unorderly_run_def rs_init_def NewSessionManager_def good_def sample_rs_request_def
      zero_RemoteSupportRequest_def numeral_eq_Suc vncStart_def vncStop_def trim_pw)

subsection \<open>Ending a session, and an interleaving that never ends\<close>

text \<open>Every goroutine comes to its end after at most 15 of its own steps.\<close>

fun rs_rank :: "rs_pc \<Rightarrow> nat" where
  "rs_rank (ReqEnter _) = 15"
| "rs_rank (ReqPrestart _) = 14"
| "rs_rank (ReqPreListen _) = 13"
| "rs_rank (ReqDialog _) = 12"
| "rs_rank (ReqCheck _ _ _) = 11"
| "rs_rank (ReqApprove _ _ _) = 10"
| "rs_rank (ReqSetApproved _ _ _) = 9"
| "rs_rank (ReqRestart _ _ _) = 8"
| "rs_rank (ReqListen _ _ _) = 7"
| "rs_rank (ReqSecondary _ _ _) = 6"
| "rs_rank (ReqSetConnecting _) = 5"
| "rs_rank (ReqReady _) = 4"
| "rs_rank (ReqSetActive _) = 1"
| "rs_rank (EndSignal _) = 5"
| "rs_rank (EndRead _) = 4"
| "rs_rank (EndReport _ _) = 3"
| "rs_rank ResetStop = 2"
| "rs_rank ResetState = 1"
| "rs_rank Finished = 0"

lemma rs_step_rank: "pc \<noteq> Finished \<Longrightarrow> rs_rank (fst (rs_step oc pc sm)) < rs_rank pc"
  by (cases pc) (auto simp: Let_def split: if_splits prod.splits bool.splits)

text \<open>A manager that is not idle and has no session: nothing that only starts from here changes that.\<close>

definition stuck :: "SessionManager \<Rightarrow> bool" where
  "stuck sm \<longleftrightarrow> sm_state sm \<noteq> StateIdle \<and> sm_session sm = 0"

fun harmless :: "rs_pc \<Rightarrow> bool" where
  "harmless (ReqEnter req) = True"
| "harmless (EndSignal sid) = True"
| "harmless (EndRead endedBy) = True"
| "harmless Finished = True"
| "harmless _ = False"

lemma stuck_step:
  assumes "stuck sm" and "harmless pc" and "rs_step oc pc sm = (pc', sm')"
  shows "sm' = sm \<and> harmless pc'"
  using assms by (cases pc) (auto simp: stuck_def split: if_splits)

lemma stuck_apply:
  assumes "stuck (rw_sm w)" and "\<forall>pc \<in> set (rw_threads w). harmless pc"
  shows "rw_sm (rs_apply e w) = rw_sm w \<and> (\<forall>pc \<in> set (rw_threads (rs_apply e w)). harmless pc)"
proof (cases e)
  case (Spawn pc)
  have "rs_entry pc \<Longrightarrow> harmless pc" by (cases pc) simp_all
  with Spawn assms show ?thesis by auto
next
  case (Run i oc)
  show ?thesis
  proof (cases "i < length (rw_threads w)")
    case True
    obtain pc' sm' where st: "rs_step oc (rw_threads w ! i) (rw_sm w) = (pc', sm')" by fastforce
    have "harmless (rw_threads w ! i)" using True assms(2) by simp
    from stuck_step [OF assms(1) this st] st True Run assms(2) show ?thesis
      using set_update_subset_insert [of "rw_threads w" i pc'] by auto
  qed (use Run assms in simp)
qed

text \<open>
  The race that leads there: while the approval of session 7 is being reported to the server, an end
  signal for it resets the manager; the request then goes on and marks the manager active.
\<close>

definition race_run :: "rs_event list" where
  "race_run = Spawn (ReqEnter (sample_rs_request 7)) # replicate 5 (Run 0 good) @
     Spawn (EndSignal 7) # replicate 5 (Run 1 good) @ replicate 7 (Run 0 good)"

lemma race_run_stuck:
  "stuck (rw_sm (rs_run race_run rs_init))"
  "sm_state (rw_sm (rs_run race_run rs_init)) = StateActive"
  "rw_threads (rs_run race_run rs_init) = [Finished, Finished]"
  by (simp_all add: race_run_def stuck_def rs_init_def NewSessionManager_def good_def sample_rs_request_def
      zero_RemoteSupportRequest_def numeral_eq_Suc vncStart_def vncStop_def trim_pw)

text \<open>C22. Once stuck, always stuck: from a state in which the manager is not idle, has no session, and no
  goroutine is past its entry, no later request, end signal or \<open>EndSession\<close>, in any interleaving and with
  any outcomes, changes the manager. And there is a run of one request and one end signal, every call of
  which works, after which both are finished and the manager is in such a state.\<close>

theorem remote_session_stuck:
  "(stuck (rw_sm w) \<and> (\<forall>pc \<in> set (rw_threads w). harmless pc) \<longrightarrow> rw_sm (rs_run evs w) = rw_sm w) \<and>
   (\<exists>req outcomes. let race = rs_run (Spawn (ReqEnter req) # Spawn (EndSignal (rq_SessionID req)) # outcomes) rs_init
      in (\<forall>i oc. Run i oc \<in> set outcomes \<longrightarrow> oc_ok oc) \<and> rw_threads race = [Finished, Finished] \<and> stuck (rw_sm race))"
proof (intro conjI impI)
  assume "stuck (rw_sm w) \<and> (\<forall>pc \<in> set (rw_threads w). harmless pc)"
  then have "rw_sm (rs_run evs w) = rw_sm w \<and> (\<forall>pc \<in> set (rw_threads (rs_run evs w)). harmless pc)"
  proof (induction evs arbitrary: w)
    case (Cons e evs)
    then have a: "rw_sm (rs_apply e w) = rw_sm w" "\<forall>pc \<in> set (rw_threads (rs_apply e w)). harmless pc"
      using stuck_apply [of w e] by blast+
    have "stuck (rw_sm (rs_apply e w)) \<and> (\<forall>pc \<in> set (rw_threads (rs_apply e w)). harmless pc)"
      unfolding a(1) using Cons.prems a(2) by blast
    from Cons.IH [OF this] show ?case unfolding a(1) rs_run_simps .
  qed simp
  then show "rw_sm (rs_run evs w) = rw_sm w" ..
next
  let ?os = "replicate 5 (Run 0 good) @ replicate 5 (Run 1 good) @ replicate 7 (Run 0 good)"
  have "\<forall>i oc. Run i oc \<in> set ?os \<longrightarrow> oc_ok oc" by (auto simp: good_def)
  moreover have "rw_threads (rs_run (Spawn (ReqEnter (sample_rs_request 7)) # Spawn (EndSignal 7) # ?os) rs_init) =
      [Finished, Finished] \<and> stuck (rw_sm (rs_run (Spawn (ReqEnter (sample_rs_request 7)) # Spawn (EndSignal 7) # ?os) rs_init))"
    by (simp add: stuck_def rs_init_def NewSessionManager_def good_def sample_rs_request_def
        zero_RemoteSupportRequest_def numeral_eq_Suc vncStart_def vncStop_def trim_pw)
  ultimately show "\<exists>req outcomes.
      let race = rs_run (Spawn (ReqEnter req) # Spawn (EndSignal (rq_SessionID req)) # outcomes) rs_init
      in (\<forall>i oc. Run i oc \<in> set outcomes \<longrightarrow> oc_ok oc) \<and> rw_threads race = [Finished, Finished] \<and> stuck (rw_sm race)"
    by (intro exI [of _ "sample_rs_request 7"] exI [of _ ?os]) (simp add: sample_rs_request_def del: rs_run_simps)
qed

theorem remote_session_stuck_witness:
  "rs_reachable (rs_run race_run rs_init) \<and>
   (\<forall>evs. sm_state (rw_sm (rs_run evs (rs_run race_run rs_init))) = StateActive \<and>
      sm_session (rw_sm (rs_run evs (rs_run race_run rs_init))) = 0)"
proof -
  have h: "\<forall>pc \<in> set (rw_threads (rs_run race_run rs_init)). harmless pc"
    unfolding race_run_stuck(3) by simp
  have "rs_reachable (rs_run race_run rs_init)" by (simp add: rs_reachable_run)
  moreover have "sm_session (rw_sm (rs_run race_run rs_init)) = 0"
    using race_run_stuck(1) by (simp add: stuck_def)
  ultimately show ?thesis
    using conjunct1 [OF remote_session_stuck] race_run_stuck(1,2) h by metis
qed

text \<open>Ending works when it does not race with a request: from a state with a session and no goroutine
  at work, \<open>EndSession\<close> reports the end of exactly that session, stops the helper and leaves the
  manager idle, whatever its calls return.\<close>

theorem EndSession_idle:
  assumes "sm_session (rw_sm w) = sid" and "sid \<noteq> 0"
    and "w' = rs_run (Spawn (EndRead endedBy) # map (Run (length (rw_threads w))) [a, b, c, d]) w"
  shows "sm_state (rw_sm w') = StateIdle \<and> sm_session (rw_sm w') = 0 \<and>
    sm_vnc (rw_sm w') = \<lparr>vnc_process = False, vnc_process2 = False\<rparr> \<and>
    sm_log (rw_sm w') = sm_log (rw_sm w) @ [ReportedEnded sid endedBy] \<and>
    rw_threads w' = rw_threads w @ [Finished]"
proof -
  obtain v where "sm_vnc (rw_sm w) = v" by simp
  then show ?thesis using assms by (cases v) (simp add: vncStop_def)
qed

theorem EndSession_idle_witness:
  "sm_state (rw_sm (rs_run (Spawn (EndRead ''user'') # map (Run 1) [good, good, good, good])
     (rs_run request_run rs_init))) = StateIdle"
proof -
  have "length (rw_threads (rs_run request_run rs_init)) = 1"
    by (simp add: request_run_def rs_init_def NewSessionManager_def good_def sample_rs_request_def
      zero_RemoteSupportRequest_def numeral_eq_Suc vncStart_def vncStop_def trim_pw)
  with EndSession_idle [OF request_run_active(2) _ refl, of "''user''" good good good good] show ?thesis by simp
qed

end
