(* ===== verification/Go_Float.thy ===== *)
theory Go_Float
  imports Go_Prelude "HOL-Library.Log_Nat"
begin

section \<open>The results of \<open>float64\<close> arithmetic\<close>

text \<open>
  An operation on \<open>float64\<close> values gives the exact result rounded to 53 significant bits, to the even
  neighbour when two are as near. \<open>float64_round\<close> is that rounding for the magnitudes the code computes with:
  at least 1/2 and below \<open>2^53\<close>, where \<open>k\<close> of the 53 bits are behind the point.
\<close>

definition round_half_even :: "rat \<Rightarrow> int" where
  "round_half_even x =
     (let n = \<lfloor>x\<rfloor>; d = x - of_int n
      in if d < 1 / 2 then n else if d > 1 / 2 then n + 1 else if even n then n else n + 1)"

definition float64_round :: "rat \<Rightarrow> rat" where
  "float64_round x = (let k = 54 - floorlog 2 (nat \<lfloor>2 * x\<rfloor>) in of_int (round_half_even (x * 2 ^ k)) / 2 ^ k)"

lemma round_half_even_ge:
  assumes "of_int n \<le> x"
  shows "n \<le> round_half_even x"
proof -
  have "n \<le> \<lfloor>x\<rfloor>" using assms by (simp add: le_floor_iff)
  then show ?thesis by (simp add: round_half_even_def Let_def)
qed

lemma round_half_even_le:
  assumes "x \<le> of_int n"
  shows "round_half_even x \<le> n"
proof (cases "x = of_int n")
  case True
  then show ?thesis by (simp add: round_half_even_def)
next
  case False
  with assms have "\<lfloor>x\<rfloor> < n" by (simp add: floor_less_iff)
  then show ?thesis by (simp add: round_half_even_def Let_def)
qed

text \<open>Below \<open>2^51\<close> a quarter of an integer is a \<open>float64\<close>, and rounding does not pass it.\<close>

lemma float64_round_quarters:
  assumes "x < 2 ^ 51"
  shows "of_int m / 4 \<le> x \<Longrightarrow> of_int m / 4 \<le> float64_round x" and "x \<le> of_int m / 4 \<Longrightarrow> float64_round x \<le> of_int m / 4"
proof -
  define k where "k = 54 - floorlog 2 (nat \<lfloor>2 * x\<rfloor>)"
  have "\<lfloor>2 * x\<rfloor> < 2 ^ 52" using assms by (simp add: floor_less_iff)
  then have "nat \<lfloor>2 * x\<rfloor> < 2 ^ 52" by (simp only: nat_less_numeral_power_cancel_iff)
  then have "floorlog 2 (nat \<lfloor>2 * x\<rfloor>) \<le> 52" by (simp add: floorlog_leI)
  then have "2 \<le> k" by (simp add: k_def)
  then obtain j where k: "k = j + 2" by (metis add.commute le_Suc_ex)
  have f: "float64_round x = of_int (round_half_even (x * 2 ^ k)) / 2 ^ k" by (simp add: float64_round_def k_def Let_def)
  have q: "of_int m / 4 = (of_int (m * 2 ^ j) :: rat) / 2 ^ k" by (simp add: k)
  show "of_int m / 4 \<le> float64_round x" if "of_int m / 4 \<le> x"
  proof -
    have "of_int (m * 2 ^ j) \<le> x * 2 ^ k" using that unfolding q by (simp add: divide_le_eq)
    from round_half_even_ge [OF this] show ?thesis unfolding f q
      by (intro divide_right_mono) (simp_all only: of_int_le_iff, simp)
  qed
  show "float64_round x \<le> of_int m / 4" if "x \<le> of_int m / 4"
  proof -
    have "x * 2 ^ k \<le> of_int (m * 2 ^ j)" using that unfolding q by (simp add: le_divide_eq)
    from round_half_even_le [OF this] show ?thesis unfolding f q
      by (intro divide_right_mono) (simp_all only: of_int_le_iff, simp)
  qed
qed

end
