(* ===== verification/WsConn.thy ===== *)
theory WsConn
  imports Complex_Main Backoff Json Go_Float
begin

section \<open>The WebSocket client (\<open>internal/wsconn\<close>)\<close>

text \<open>
  One connection is a handshake followed by a loop that answers pings and hands the other messages
  to callbacks; \<open>Run\<close> connects again and again with a back-off. A connection is given by what its
  reads deliver, in order, and by which of its writes fail; what the client does is the list of its
  actions. When the context is cancelled, the pending read fails; \<open>wc_cancelled\<close> tells whether that
  was the reason. The network library is outside of the model.
\<close>

subsection \<open>Data\<close>

record WsMessage =
  wm_ID :: string
  wm_Type :: string
  wm_TS :: string
  wm_Payload :: payload
  wm_Ack :: bool

datatype callback =
    OnServerHello | OnSignal | OnServerCommand | OnRSRequest | OnRSEnd | OnConfigPatch
  | OnInventorySyncRequired | OnBroadcastRestart | OnBroadcastSelfUpdate | OnAnnouncementPush

text \<open>A message sent has a fresh identifier and a time stamp, which are left out of the action.\<close>

datatype ws_action = Sent string payload | Called callback payload | CalledOnConnected | CalledOnDisconnected

record WsClient =
  wc_URL :: string
  wc_agentUUID :: string
  wc_secretKey :: string
  wc_version :: string
  wc_platform :: string
  wc_arch :: string
  wc_hostname :: string
  wc_osVersion :: string
  wc_ipAddress :: string
  wc_fullIP :: "string list"
  wc_reconnectMin :: duration
  wc_reconnectMax :: duration
  wc_has :: "callback \<Rightarrow> bool"
  wc_hasConnected :: bool
  wc_hasDisconnected :: bool

record WsConfig =
  wf_ServerURL :: string
  wf_WSURL :: string
  wf_AgentUUID :: string
  wf_SecretKey :: string
  wf_Version :: string
  wf_Platform :: string
  wf_Arch :: string
  wf_Hostname :: string
  wf_OSVersion :: string
  wf_IPAddress :: string
  wf_FullIP :: "string list"
  wf_ReconnectMinSec :: int
  wf_ReconnectMaxSec :: int
  wf_has :: "callback \<Rightarrow> bool"
  wf_hasConnected :: bool
  wf_hasDisconnected :: bool

record ws_conn =
  wn_dial :: "goerr option"
  wn_reads :: "(goerr + string) list"
  wn_write :: "nat \<Rightarrow> goerr option"
  wn_parse :: "string \<Rightarrow> goerr + json"
  wn_cancelled :: bool

definition deriveWSURL :: "string \<Rightarrow> string \<Rightarrow> string" where
  "deriveWSURL serverURL wsURL =
     (if wsURL \<noteq> [] then wsURL
      else
        let base = strings_TrimRight serverURL ''/'';
            base = (if strings_HasPrefix base ''https://'' then ''wss://'' @ strings_TrimPrefix base ''https://''
                    else ''ws://'' @ strings_TrimPrefix base ''http://'')
        in base @ ''/api/v1/agent/ws'')"

definition WsNewClient :: "WsConfig \<Rightarrow> WsClient" where
  "WsNewClient cfg =
     (let minSec = (if wf_ReconnectMinSec cfg \<le> 0 then 2 else wf_ReconnectMinSec cfg);
          maxSec = (if wf_ReconnectMaxSec cfg \<le> 0 then 60 else wf_ReconnectMaxSec cfg)
      in \<lparr>wc_URL = deriveWSURL (wf_ServerURL cfg) (wf_WSURL cfg), wc_agentUUID = wf_AgentUUID cfg,
          wc_secretKey = wf_SecretKey cfg, wc_version = wf_Version cfg, wc_platform = wf_Platform cfg,
          wc_arch = wf_Arch cfg, wc_hostname = wf_Hostname cfg, wc_osVersion = wf_OSVersion cfg,
          wc_ipAddress = wf_IPAddress cfg, wc_fullIP = wf_FullIP cfg,
          wc_reconnectMin = dur_mul minSec dur_second, wc_reconnectMax = dur_mul maxSec dur_second,
          wc_has = wf_has cfg, wc_hasConnected = wf_hasConnected cfg, wc_hasDisconnected = wf_hasDisconnected cfg\<rparr>)"

subsection \<open>Messages\<close>

definition message_fields :: "string list" where
  "message_fields = [''id'', ''type'', ''ts'', ''payload'', ''ack'']"

fun decode_map :: "payload \<Rightarrow> json \<Rightarrow> payload option" where
  "decode_map old JNull = Some []"
| "decode_map old (JObj m) = Some (m @ old)"
| "decode_map old _ = None"

definition set_message_field :: "string \<Rightarrow> json \<Rightarrow> WsMessage \<Rightarrow> WsMessage option" where
  "set_message_field f v m =
     (if f = ''id'' then map_option (\<lambda>s. m\<lparr>wm_ID := s\<rparr>) (decode_string (wm_ID m) v)
      else if f = ''type'' then map_option (\<lambda>s. m\<lparr>wm_Type := s\<rparr>) (decode_string (wm_Type m) v)
      else if f = ''ts'' then map_option (\<lambda>s. m\<lparr>wm_TS := s\<rparr>) (decode_string (wm_TS m) v)
      else if f = ''payload'' then map_option (\<lambda>p. m\<lparr>wm_Payload := p\<rparr>) (decode_map (wm_Payload m) v)
      else if f = ''ack'' then map_option (\<lambda>b. m\<lparr>wm_Ack := b\<rparr>) (decode_bool (wm_Ack m) v)
      else Some m)"

definition decode_WsMessage :: "json \<Rightarrow> WsMessage option" where
  "decode_WsMessage v = decode_struct message_fields set_message_field
     \<lparr>wm_ID = [], wm_Type = [], wm_TS = [], wm_Payload = [], wm_Ack = False\<rparr> v"

text \<open>
  What the client sends: the envelope with a fresh identifier, made of 4 random bytes, and the time as
  text. A payload is written as an object.
\<close>

definition hex_char :: "nat \<Rightarrow> char" where
  "hex_char d = ''0123456789abcdef'' ! d"

definition hex_EncodeToString :: "nat list \<Rightarrow> string" where
  "hex_EncodeToString bs = concat (map (\<lambda>b. [hex_char (b div 16), hex_char (b mod 16)]) bs)"

definition msgID :: "nat list \<Rightarrow> string" where
  "msgID random = ''msg_'' @ hex_EncodeToString random"

definition newMessage :: "nat list \<Rightarrow> string \<Rightarrow> string \<Rightarrow> payload \<Rightarrow> WsMessage" where
  "newMessage random now msgType p =
     \<lparr>wm_ID = msgID random, wm_Type = msgType, wm_TS = now, wm_Payload = p, wm_Ack = False\<rparr>"

definition encode_WsMessage :: "WsMessage \<Rightarrow> json" where
  "encode_WsMessage m = JObj [(''id'', JStr (wm_ID m)), (''type'', JStr (wm_Type m)), (''ts'', JStr (wm_TS m)),
     (''payload'', JObj (wm_Payload m)), (''ack'', JBool (wm_Ack m))]"

interpretation ws_codec: message_codec encode_WsMessage decode_WsMessage "\<lambda>m. True"
proof
  fix m :: WsMessage
  show "decode_WsMessage (encode_WsMessage m) = Some m"
    by (cases m) (simp add: decode_WsMessage_def encode_WsMessage_def decode_struct_def message_fields_def
      set_message_field_def field_of_def)
qed

text \<open>
  \<open>SendMessage\<close> on the connection of the moment, if there is one: the text that was written, and whether
  that worked. A connection is there from the dial on, before the client has authenticated.
\<close>

definition SendMessage :: "wire \<Rightarrow> (string \<Rightarrow> goerr option) option \<Rightarrow> WsMessage \<Rightarrow> bool \<times> string list" where
  "SendMessage w conn msg =
     (case conn of
        None \<Rightarrow> (False, [])
      | Some write \<Rightarrow>
          (let text = wire_send w encode_WsMessage msg
           in case write text of Some err \<Rightarrow> (False, []) | None \<Rightarrow> (True, [text])))"

definition SendEvent ::
    "wire \<Rightarrow> (string \<Rightarrow> goerr option) option \<Rightarrow> nat list \<Rightarrow> string \<Rightarrow> string \<Rightarrow> payload \<Rightarrow> bool \<times> string list" where
  "SendEvent w conn random now msgType p = SendMessage w conn (newMessage random now msgType p)"

definition IsConnected :: "(string \<Rightarrow> goerr option) option \<Rightarrow> bool" where
  "IsConnected conn \<longleftrightarrow> conn \<noteq> None"

text \<open>An event that was sent is read by the other end as it was meant; without a connection nothing is.\<close>

lemma SendEvent_received:
  assumes "SendEvent w conn random now msgType p = (True, texts)"
    and "wire_ok w (encode_WsMessage (newMessage random now msgType p))"
  shows "IsConnected conn \<and> map (wire_receive w decode_WsMessage) texts = [Inr (newMessage random now msgType p)]"
  using assms ws_codec.received [OF TrueI assms(2)]
  by (auto simp: SendEvent_def SendMessage_def IsConnected_def Let_def split: option.splits)

definition readMessage :: "(string \<Rightarrow> goerr + json) \<Rightarrow> goerr + string \<Rightarrow> goerr + WsMessage" where
  "readMessage parse r =
     (case r of
        Inl err \<Rightarrow> Inl err
      | Inr data \<Rightarrow> (case parse data of
          Inl err \<Rightarrow> Inl (GoWrap ''unmarshal'' err)
        | Inr j \<Rightarrow> (case decode_WsMessage j of
            None \<Rightarrow> Inl (GoWrap ''unmarshal'' (GoErr ''json: cannot unmarshal''))
          | Some m \<Rightarrow> Inr m)))"

text \<open>A read past the end of what the connection delivers finds it closed.\<close>

definition closed :: goerr where "closed = GoErr ''connection closed''"

subsection \<open>The message loop\<close>

text \<open>The cases of the \<open>switch\<close> that hand the payload to a callback.\<close>

definition callback_of :: "string \<Rightarrow> callback option" where
  "callback_of type =
     (if type = ''server.signal'' then Some OnSignal
      else if type = ''server.hello'' then Some OnServerHello
      else if type = ''server.command.dispatch'' then Some OnServerCommand
      else if type = ''server.rs.request'' then Some OnRSRequest
      else if type = ''server.rs.end'' then Some OnRSEnd
      else if type = ''server.config.patch'' then Some OnConfigPatch
      else if type = ''server.inventory.sync_required'' then Some OnInventorySyncRequired
      else if type = ''server.broadcast.restart'' then Some OnBroadcastRestart
      else if type = ''server.broadcast.self_update'' then Some OnBroadcastSelfUpdate
      else if type = ''server.announcement.push'' then Some OnAnnouncementPush
      else None)"

definition call :: "WsClient \<Rightarrow> callback \<Rightarrow> payload \<Rightarrow> ws_action list" where
  "call c cb p = (if wc_has c cb then [Called cb (if cb = OnSignal then [] else p)] else [])"

fun messageLoop :: "WsClient \<Rightarrow> (string \<Rightarrow> goerr + json) \<Rightarrow> (nat \<Rightarrow> goerr option) \<Rightarrow> nat \<Rightarrow> (goerr + string) list \<Rightarrow>
    ws_action list \<times> goerr" where
  "messageLoop c parse wr n [] = ([], closed)"
| "messageLoop c parse wr n (r # rs) =
     (case readMessage parse r of
        Inl err \<Rightarrow> ([], err)
      | Inr msg \<Rightarrow>
          if wm_Type msg = ''server.ping''
          then case wr n of
                 Some err \<Rightarrow> ([], GoWrap ''send pong'' err)
               | None \<Rightarrow>
                   (case messageLoop c parse wr (n + 1) rs of
                      (as, e) \<Rightarrow> (Sent ''agent.pong'' [(''ref'', JStr (wm_ID msg))] # as, e))
          else case messageLoop c parse wr n rs of
                 (as, e) \<Rightarrow> ((case callback_of (wm_Type msg) of None \<Rightarrow> [] | Some cb \<Rightarrow> call c cb (wm_Payload msg)) @ as, e))"

subsection \<open>One connection\<close>

definition auth_payload :: "WsClient \<Rightarrow> payload" where
  "auth_payload c = [(''uuid'', JStr (wc_agentUUID c)), (''secret'', JStr (wc_secretKey c))]"

definition hello_payload :: "WsClient \<Rightarrow> payload" where
  "hello_payload c = [(''hostname'', JStr (wc_hostname c)), (''os_version'', JStr (wc_osVersion c)),
     (''version'', JStr (wc_version c)), (''platform'', JStr (wc_platform c)), (''arch'', JStr (wc_arch c)),
     (''ip_address'', JStr (wc_ipAddress c)), (''full_ip'', JArr (map JStr (wc_fullIP c)))]"

definition authError :: "WsMessage \<Rightarrow> goerr option" where
  "authError m =
     (if wm_Type m = ''server.auth.result''
      then (if as_bool (jget_any (wm_Payload m) ''ok'') = Some True then None
            else Some (GoErr (''auth rejected: '' @ jstring (wm_Payload m) ''error'')))
      else if wm_Type m \<noteq> ''server.auth.ok'' then Some (GoErr (''unexpected auth response type: '' @ wm_Type m))
      else None)"

definition next_read :: "(string \<Rightarrow> goerr + json) \<Rightarrow> (goerr + string) list \<Rightarrow> goerr + (WsMessage \<times> (goerr + string) list)" where
  "next_read parse rs =
     (case rs of
        [] \<Rightarrow> Inl closed
      | r # rest \<Rightarrow> (case readMessage parse r of Inl err \<Rightarrow> Inl err | Inr m \<Rightarrow> Inr (m, rest)))"

text \<open>After the handshake; a lost connection is not an error unless the context was cancelled.\<close>

definition serve :: "WsClient \<Rightarrow> ws_conn \<Rightarrow> WsMessage \<Rightarrow> (goerr + string) list \<Rightarrow> ws_action list \<times> goerr option" where
  "serve c conn helloResp rs =
     (case messageLoop c (wn_parse conn) (wn_write conn) 2 rs of
        (as, err) \<Rightarrow>
          ((if wm_Type helloResp = ''server.hello'' then call c OnServerHello (wm_Payload helloResp) else []) @
           (if wc_hasConnected c then [CalledOnConnected] else []) @ as,
           if wn_cancelled conn then Some err else None))"

definition connectAndServe :: "WsClient \<Rightarrow> ws_conn \<Rightarrow> ws_action list \<times> goerr option" where
  "connectAndServe c conn =
     (case wn_dial conn of
        Some err \<Rightarrow> ([], Some (GoWrap ''dial'' err))
      | None \<Rightarrow>
        (case wn_write conn 0 of
           Some err \<Rightarrow> ([], Some (GoWrap ''send auth'' err))
         | None \<Rightarrow>
           let sentAuth = [Sent ''agent.auth'' (auth_payload c)] in
           (case next_read (wn_parse conn) (wn_reads conn) of
              Inl err \<Rightarrow> (sentAuth, Some (GoWrap ''read auth response'' err))
            | Inr (authResp, rs1) \<Rightarrow>
              (case authError authResp of
                 Some err \<Rightarrow> (sentAuth, Some err)
               | None \<Rightarrow>
                 (case wn_write conn 1 of
                    Some err \<Rightarrow> (sentAuth, Some (GoWrap ''send hello'' err))
                  | None \<Rightarrow>
                    let sentHello = sentAuth @ [Sent ''agent.hello'' (hello_payload c)] in
                    (case next_read (wn_parse conn) rs1 of
                       Inl err \<Rightarrow> (sentHello, Some (GoWrap ''read hello response'' err))
                     | Inr (helloResp, rs2) \<Rightarrow>
                       (case serve c conn helloResp rs2 of (as, e) \<Rightarrow> (sentHello @ as, e))))))))"

subsection \<open>Reconnecting\<close>

text \<open>
  The wait after a connection and the back-off for the next one. Durations below \<open>2^53\<close> are exact as
  \<open>float64\<close>, and so are their doubles and the half of the random factor \<open>u\<close>, a number in \<open>[0, 1)\<close>; the sum and
  the product are rounded, and the conversion to a duration cuts the fraction off.
\<close>

definition ws_jitter :: "rat \<Rightarrow> duration \<Rightarrow> duration" where
  "ws_jitter u backoff = \<lfloor>float64_round (of_int backoff * float64_round (3 / 4 + u / 2))\<rfloor>"

definition ws_next :: "WsClient \<Rightarrow> duration \<Rightarrow> duration" where
  "ws_next c backoff = min (backoff * 2) (wc_reconnectMax c)"

text \<open>
  \<open>Run\<close> over a sequence of connections, none of them cancelled: for each, its actions, then
  \<open>OnDisconnected\<close>, then the wait. The randomness is one number per turn.
\<close>

fun ws_Run :: "WsClient \<Rightarrow> duration \<Rightarrow> (ws_conn \<times> rat) list \<Rightarrow> (ws_action list \<times> duration) list" where
  "ws_Run c backoff [] = []"
| "ws_Run c backoff ((conn, u) # rest) =
     (case connectAndServe c conn of
        (as, err) \<Rightarrow>
          let backoff' = (if err = None then wc_reconnectMin c else backoff);
              backoff'' = (if err = None then backoff' else ws_next c backoff')
          in (as @ (if wc_hasDisconnected c then [CalledOnDisconnected] else []), ws_jitter u backoff') #
             ws_Run c backoff'' rest)"

subsection \<open>The address\<close>

lemma strings_TrimRight_id: "s \<noteq> [] \<Longrightarrow> last s \<notin> set cutset \<Longrightarrow> strings_TrimRight s cutset = s"
  by (cases s rule: rev_cases) (simp_all add: strings_TrimRight_def)

lemma deriveWSURL_https:
  assumes "host \<noteq> []" and "last host \<noteq> CHR ''/''"
  shows "deriveWSURL (''https://'' @ host) [] = ''wss://'' @ host @ ''/api/v1/agent/ws''"
    and "deriveWSURL (''http://'' @ host) [] = ''ws://'' @ host @ ''/api/v1/agent/ws''"
proof -
  have t: "strings_TrimRight (p @ host) ''/'' = p @ host" for p
    using assms by (intro strings_TrimRight_id) simp_all
  show "deriveWSURL (''https://'' @ host) [] = ''wss://'' @ host @ ''/api/v1/agent/ws''"
    unfolding deriveWSURL_def t Let_def strings_TrimPrefix_append by simp
  have "\<not> strings_HasPrefix (''http://'' @ host) ''https://''" by simp
  then show "deriveWSURL (''http://'' @ host) [] = ''ws://'' @ host @ ''/api/v1/agent/ws''"
    unfolding deriveWSURL_def t Let_def strings_TrimPrefix_append by simp
qed

subsection \<open>The handshake\<close>

text \<open>The two forms of acceptance: the message \<open>server.auth.ok\<close>, or a result whose field \<open>ok\<close> is true.\<close>

definition accepts :: "WsMessage \<Rightarrow> bool" where
  "accepts m \<longleftrightarrow> wm_Type m = ''server.auth.ok'' \<or>
     wm_Type m = ''server.auth.result'' \<and> jget_any (wm_Payload m) ''ok'' = JBool True"

lemma authError_accepts: "authError m = None \<longleftrightarrow> accepts m"
  by (cases "jget_any (wm_Payload m) ''ok''") (auto simp: authError_def accepts_def)

text \<open>The server was reached, was sent the credentials, and its first message accepted them.\<close>

definition authenticated :: "ws_conn \<Rightarrow> bool" where
  "authenticated conn \<longleftrightarrow> wn_dial conn = None \<and> wn_write conn 0 = None \<and>
     (case next_read (wn_parse conn) (wn_reads conn) of Inl err \<Rightarrow> False | Inr (m, rs) \<Rightarrow> accepts m)"

text \<open>The callbacks that tell of the server; \<open>OnDisconnected\<close> is called after every connection, failed ones too.\<close>

fun callback_action :: "ws_action \<Rightarrow> bool" where
  "callback_action (Called cb p) = True"
| "callback_action CalledOnConnected = True"
| "callback_action _ = False"

lemma unauthenticated_actions:
  assumes "connectAndServe c conn = (as, err)" and "\<not> authenticated conn"
  shows "as \<in> {[], [Sent ''agent.auth'' (auth_payload c)]} \<and> err \<noteq> None"
  using assms unfolding connectAndServe_def authenticated_def authError_accepts [symmetric]
  by (auto split: option.splits sum.splits prod.splits dest: sym)

lemma authenticated_actions:
  assumes "connectAndServe c conn = (as, err)" and "authenticated conn" and "a \<in> set as" and "callback_action a"
  obtains hello loop where "as = [Sent ''agent.auth'' (auth_payload c), Sent ''agent.hello'' (hello_payload c)] @
      hello @ (if wc_hasConnected c then [CalledOnConnected] else []) @ loop"
    and "\<And>b. b \<in> set hello \<Longrightarrow> \<exists>p. b = Called OnServerHello p"
proof -
  obtain m rs where dial: "wn_dial conn = None" "wn_write conn 0 = None" "authError m = None"
    and rd: "next_read (wn_parse conn) (wn_reads conn) = Inr (m, rs)"
    using assms(2) unfolding authenticated_def authError_accepts [symmetric] by (auto split: sum.splits)
  let ?auth = "Sent ''agent.auth'' (auth_payload c)" and ?hello = "Sent ''agent.hello'' (hello_payload c)"
  have "as = [?auth] \<or> as = [?auth, ?hello] \<or>
      (\<exists>hr rs2. as = [?auth, ?hello] @ fst (serve c conn hr rs2))"
    using assms(1) dial rd unfolding connectAndServe_def Let_def
    by (auto split: option.splits sum.splits prod.splits) (metis fst_conv)
  then obtain hr rs2 where as: "as = [?auth, ?hello] @ fst (serve c conn hr rs2)" using assms(3,4) by auto
  let ?h = "if wm_Type hr = ''server.hello'' then call c OnServerHello (wm_Payload hr) else []"
  have "fst (serve c conn hr rs2) = ?h @ (if wc_hasConnected c then [CalledOnConnected] else []) @
      fst (messageLoop c (wn_parse conn) (wn_write conn) 2 rs2)"
    by (simp add: serve_def split_def)
  with as show thesis by (intro that [of ?h]) (auto simp: call_def split: if_splits)
qed

lemma messageLoop_no_disconnect: "CalledOnDisconnected \<notin> set (fst (messageLoop c parse wr n rs))"
  by (induction c parse wr n rs rule: messageLoop.induct)
    (auto simp: call_def split: sum.splits option.splits prod.splits)

lemma connectAndServe_no_disconnect:
  assumes "connectAndServe c conn = (as, err)"
  shows "CalledOnDisconnected \<notin> set as"
proof -
  have "CalledOnDisconnected \<notin> set (fst (serve c conn hr rs))" for hr rs
    using messageLoop_no_disconnect [of c "wn_parse conn" "wn_write conn" 2 rs] by (auto simp: serve_def call_def split_def)
  then show ?thesis using assms unfolding connectAndServe_def Let_def
    by (auto split: option.splits sum.splits prod.splits) (metis fst_conv)+
qed

text \<open>
  What one turn of \<open>Run\<close> does on the network and to the service, with the messages that other goroutines
  get through by \<open>SendEvent\<close> meanwhile. They find the connection from the dial on, so their messages fall
  anywhere between the client's own actions; \<open>OnDisconnected\<close> comes when the connection is gone.
\<close>

definition event_action :: "string \<times> payload \<Rightarrow> ws_action" where
  "event_action e = Sent (fst e) (snd e)"

definition ws_traffic :: "WsClient \<Rightarrow> ws_conn \<Rightarrow> (string \<times> payload) list \<Rightarrow> ws_action list set" where
  "ws_traffic c conn events =
     (\<lambda>tr. tr @ (if wc_hasDisconnected c then [CalledOnDisconnected] else [])) `
       (if wn_dial conn = None then shuffles (fst (connectAndServe c conn)) (map event_action events)
        else {fst (connectAndServe c conn)})"

lemma ws_Run_turn:
  obtains b' where "ws_Run c b (t # turns) =
    (fst (connectAndServe c (fst t)) @ (if wc_hasDisconnected c then [CalledOnDisconnected] else []),
     ws_jitter (snd t) (if snd (connectAndServe c (fst t)) = None then wc_reconnectMin c else b)) # ws_Run c b' turns"
  by (cases t; cases "connectAndServe c (fst t)") (auto simp: Let_def)

lemma ws_Run_traffic:
  "i < length turns \<Longrightarrow> fst (ws_Run c b turns ! i) \<in> ws_traffic c (fst (turns ! i)) []"
proof (induction turns arbitrary: b i)
  case (Cons t turns)
  obtain b' where "ws_Run c b (t # turns) =
    (fst (connectAndServe c (fst t)) @ (if wc_hasDisconnected c then [CalledOnDisconnected] else []),
     ws_jitter (snd t) (if snd (connectAndServe c (fst t)) = None then wc_reconnectMin c else b)) # ws_Run c b' turns"
    by (rule ws_Run_turn)
  with Cons show ?case by (cases i) (simp_all add: ws_traffic_def)
qed simp

text \<open>What an interleaving has before an element of a kind that only the second part of one list has.\<close>

lemma shuffles_before:
  assumes "zs \<in> shuffles (ps @ xs) ys" and "\<And>z. z \<in> set ps \<union> set ys \<Longrightarrow> \<not> P z" and "i < length zs" and "P (zs ! i)"
  shows "set ps \<subseteq> set (take i zs)"
  using assms
proof (induction zs arbitrary: ps ys i)
  case (Cons z zs)
  show ?case
  proof (cases ps)
    case ps: (Cons p ps')
    from Cons.prems(1) consider "p = z" "zs \<in> shuffles (ps' @ xs) ys"
      | "ys \<noteq> []" "hd ys = z" "zs \<in> shuffles (ps @ xs) (tl ys)"
      by (auto simp: Cons_in_shuffles_iff ps)
    then show ?thesis
    proof cases
      case 1
      with Cons.prems(2) [of p] Cons.prems(4) ps obtain j where i: "i = Suc j" by (cases i) auto
      have "set ps' \<subseteq> set (take j zs)"
        using Cons.IH [OF 1(2), of j] Cons.prems(2,3,4) i ps by simp
      with 1(1) i ps show ?thesis by auto
    next
      case 2
      then have y: "z \<in> set ys" by (cases ys) auto
      with Cons.prems(2) [of z] Cons.prems(4) obtain j where i: "i = Suc j" by (cases i) auto
      have "set (tl ys) \<subseteq> set ys" by (cases ys) auto
      then have "set ps \<subseteq> set (take j zs)"
        using Cons.IH [OF 2(3), of j] Cons.prems(2,3,4) i by auto
      with i show ?thesis by auto
    qed
  qed simp
qed simp


subsection \<open>The loop\<close>

text \<open>
  What the fields of \<open>Callbacks\<close> are documented to be called for, and what a message brings about: a pong
  that names the ping, or the callback of its type, if the client has it, with the payload (\<open>OnSignal\<close> takes
  none), or nothing.
\<close>

definition documented_callbacks :: "(string \<times> callback) list" where
  "documented_callbacks =
     [(''server.hello'', OnServerHello),
      (''server.signal'', OnSignal),
      (''server.command.dispatch'', OnServerCommand),
      (''server.rs.request'', OnRSRequest),
      (''server.rs.end'', OnRSEnd),
      (''server.config.patch'', OnConfigPatch),
      (''server.inventory.sync_required'', OnInventorySyncRequired),
      (''server.broadcast.restart'', OnBroadcastRestart),
      (''server.broadcast.self_update'', OnBroadcastSelfUpdate),
      (''server.announcement.push'', OnAnnouncementPush)]"

definition documented_reaction :: "WsClient \<Rightarrow> WsMessage \<Rightarrow> ws_action list" where
  "documented_reaction c m =
     (if wm_Type m = ''server.ping'' then [Sent ''agent.pong'' [(''ref'', JStr (wm_ID m))]]
      else case map_of documented_callbacks (wm_Type m) of
        None \<Rightarrow> []
      | Some cb \<Rightarrow> if \<not> wc_has c cb then []
          else if cb = OnSignal then [Called OnSignal []] else [Called cb (wm_Payload m)])"

lemma callback_of_documented: "callback_of t = map_of documented_callbacks t"
  by (simp add: callback_of_def documented_callbacks_def)

lemma messageLoop_reactions:
  assumes "list_all2 (\<lambda>r m. readMessage parse r = Inr m) rs ms" and "\<forall>n. wr n = None"
  shows "messageLoop c parse wr n (rs @ Inl e # rest) = (concat (map (documented_reaction c) ms), e)"
  using assms(1)
proof (induction rs ms arbitrary: n rule: list_all2_induct)
  case Nil
  show ?case by (simp add: readMessage_def)
next
  case (Cons r rs m ms)
  with assms(2) show ?case
    by (simp add: documented_reaction_def callback_of_documented call_def split: option.split)
qed

text \<open>C35. Every message of the loop is handled once, in order: over a connection whose writes work and whose
  reads deliver an acceptance, a second message \<open>hello\<close>, the messages \<open>ms\<close> and then an error, the client
  authenticates, introduces itself, takes the second message for the hello (it calls \<open>OnServerHello\<close> if its
  type is \<open>server.hello\<close>, and discards it if not), reports the connection, and then does for each of \<open>ms\<close>
  what its type is documented for. The connection ends without an error unless it was cancelled.\<close>

theorem ws_dispatch:
  assumes "wn_dial conn = None" and "\<forall>n. wn_write conn n = None"
    and "wn_reads conn = r1 # r2 # rs @ Inl e # rest"
    and "readMessage (wn_parse conn) r1 = Inr auth" and "accepts auth"
    and "readMessage (wn_parse conn) r2 = Inr hello"
    and "list_all2 (\<lambda>r m. readMessage (wn_parse conn) r = Inr m) rs ms"
  shows "connectAndServe c conn =
    ([Sent ''agent.auth'' (auth_payload c), Sent ''agent.hello'' (hello_payload c)] @
     (if wm_Type hello = ''server.hello'' \<and> wc_has c OnServerHello then [Called OnServerHello (wm_Payload hello)] else []) @
     (if wc_hasConnected c then [CalledOnConnected] else []) @ concat (map (documented_reaction c) ms),
     if wn_cancelled conn then Some e else None)"
proof -
  have "authError auth = None" using assms(5) by (simp add: authError_accepts)
  note loop = messageLoop_reactions [OF assms(7,2), where c = c and n = 2 and e = e and rest = rest]
  from \<open>authError auth = None\<close> assms(1-4,6) show ?thesis
    by (simp add: connectAndServe_def next_read_def serve_def call_def Let_def loop)
qed

subsection \<open>Waiting\<close>

interpretation ws_backoff: backoff_policy "ws_next c" "wc_reconnectMax c" for c
  by unfold_locales (simp add: ws_next_def mult.commute)

lemma ws_jitter_bounds:
  assumes "0 \<le> u" and "u < 1" and "0 < b" and "b \<le> 2 ^ 50"
  shows "3 * b div 4 \<le> ws_jitter u b" and "4 * ws_jitter u b \<le> 5 * b"
proof -
  let ?f = "float64_round (3 / 4 + u / 2)"
  have f: "3 / 4 \<le> ?f" "?f \<le> 5 / 4"
    using float64_round_quarters [of "3 / 4 + u / 2" 3] float64_round_quarters [of "3 / 4 + u / 2" 5] assms(1,2)
    by simp_all
  have b: "0 < (of_int b :: rat)" "(of_int b :: rat) \<le> 2 ^ 50"
    using assms(3,4) by (simp_all add: of_int_le_iff [where 'a = rat, of b "2 ^ 50", simplified])
  have p: "of_int (3 * b) / 4 \<le> of_int b * ?f" "of_int b * ?f \<le> of_int (5 * b) / 4"
    using mult_left_mono [OF f(1), of "of_int b"] mult_left_mono [OF f(2), of "of_int b"] b by simp_all
  have "of_int (5 * b) / 4 < (2 ^ 51 :: rat)" using b by simp
  with p(2) have lim: "of_int b * ?f < 2 ^ 51" by (rule le_less_trans)
  note q = float64_round_quarters [OF lim]
  show "3 * b div 4 \<le> ws_jitter u b"
  proof -
    have "4 * (3 * b div 4) \<le> 3 * b" by simp
    then have "(of_int (4 * (3 * b div 4)) :: rat) \<le> of_int (3 * b)" by (simp only: of_int_le_iff)
    then have "of_int (3 * b div 4) \<le> (of_int (3 * b) :: rat) / 4" by simp
    with q(1) [OF p(1)] show ?thesis unfolding ws_jitter_def le_floor_iff by linarith
  qed
  have "of_int (ws_jitter u b) \<le> (of_int (5 * b) :: rat) / 4"
    unfolding ws_jitter_def using of_int_floor_le q(2) [OF p(2)] by (rule order_trans)
  then have "(of_int (4 * ws_jitter u b) :: rat) \<le> of_int (5 * b)" by simp
  then show "4 * ws_jitter u b \<le> 5 * b" by (simp only: of_int_le_iff)
qed

lemma ws_Run_failures:
  assumes "\<forall>(conn, u) \<in> set turns. snd (connectAndServe c conn) \<noteq> None" and "i < length turns"
  shows "snd (ws_Run c b turns ! i) = ws_jitter (snd (turns ! i)) ((ws_next c ^^ i) b)"
  using assms
proof (induction turns arbitrary: b i)
  case (Cons t turns)
  obtain conn u where t: "t = (conn, u)" by fastforce
  obtain as err where cs: "connectAndServe c conn = (as, err)" by fastforce
  with Cons.prems t have "err \<noteq> None" by auto
  then show ?case
    using Cons.IH [of "i - 1" "ws_next c b"] Cons.prems t cs
    by (cases i) (auto simp: Let_def funpow_swap1)
qed simp

lemma ws_Run_length [simp]: "length (ws_Run c b turns) = length turns"
  by (induction c b turns rule: ws_Run.induct) (auto simp: Let_def split: prod.split)

lemma ws_Run_bounds:
  assumes "0 < lo" and "hi \<le> 2 ^ 50" and "lo \<le> wc_reconnectMin c" and "wc_reconnectMin c \<le> hi"
    and "lo \<le> wc_reconnectMax c" and "wc_reconnectMax c \<le> hi"
    and "\<forall>(conn, u) \<in> set turns. 0 \<le> u \<and> u < 1"
    and "lo \<le> b" and "b \<le> hi" and "i < length turns"
  shows "3 * lo div 4 \<le> snd (ws_Run c b turns ! i) \<and> 4 * snd (ws_Run c b turns ! i) \<le> 5 * hi"
  using assms(7-10)
proof (induction turns arbitrary: b i)
  case (Cons t turns)
  obtain conn u where t: "t = (conn, u)" by fastforce
  obtain as err where cs: "connectAndServe c conn = (as, err)" by fastforce
  let ?b1 = "if err = None then wc_reconnectMin c else b"
  let ?b2 = "if err = None then ?b1 else ws_next c ?b1"
  have b1: "lo \<le> ?b1" "?b1 \<le> hi" using Cons.prems assms(3,4) by auto
  have b2: "lo \<le> ?b2" "?b2 \<le> hi" using b1 assms(1,5,6) by (auto simp: ws_next_def)
  have u: "0 \<le> u" "u < 1" using Cons.prems(1) t by auto
  have "0 < ?b1" "?b1 \<le> 2 ^ 50" using b1 assms(1,2) by linarith+
  note j = ws_jitter_bounds [OF u this]
  have "3 * lo div 4 \<le> 3 * ?b1 div 4" using b1(1) by (intro zdiv_mono1) simp_all
  then have j: "3 * lo div 4 \<le> ws_jitter u ?b1" "4 * ws_jitter u ?b1 \<le> 5 * hi"
    using j b1(2) by linarith+
  show ?case
  proof (cases i)
    case 0
    with j t cs show ?thesis by (simp add: Let_def)
  next
    case (Suc k)
    have "\<forall>(conn, u) \<in> set turns. 0 \<le> u \<and> u < 1" and "k < length turns" using Cons.prems Suc by auto
    from Cons.IH [OF this(1) b2 this(2)] Suc t cs show ?thesis by (simp add: Let_def)
  qed
qed simp

text \<open>A connection that was served resets the wait, whatever came before.\<close>

lemma ws_Run_reset:
  assumes "i < length turns" and "snd (connectAndServe c (fst (turns ! i))) = None"
  shows "snd (ws_Run c b turns ! i) = ws_jitter (snd (turns ! i)) (wc_reconnectMin c)"
  using assms
proof (induction turns arbitrary: b i)
  case (Cons t turns)
  obtain b' where "ws_Run c b (t # turns) =
    (fst (connectAndServe c (fst t)) @ (if wc_hasDisconnected c then [CalledOnDisconnected] else []),
     ws_jitter (snd t) (if snd (connectAndServe c (fst t)) = None then wc_reconnectMin c else b)) # ws_Run c b' turns"
    by (rule ws_Run_turn)
  with Cons show ?case by (cases i) simp_all
qed simp

lemma WsNewClient_limits:
  assumes "wf_ReconnectMinSec cfg \<le> 1000000" and "wf_ReconnectMaxSec cfg \<le> 1000000"
  shows "wc_reconnectMin (WsNewClient cfg) = (if wf_ReconnectMinSec cfg \<le> 0 then 2 else wf_ReconnectMinSec cfg) * dur_second"
    and "wc_reconnectMax (WsNewClient cfg) = (if wf_ReconnectMaxSec cfg \<le> 0 then 60 else wf_ReconnectMaxSec cfg) * dur_second"
  using assms by (auto simp: WsNewClient_def Let_def dur_mul_def dur_second_def wrap64_id int64_range_def)

text \<open>C37. Reconnecting backs off: for a client with configured limits of at most \<open>10^6\<close> seconds, where a limit
  that is not positive stands for 2 and 60 seconds, every wait lies between 3/4 of the smaller limit and
  5/4 of the larger one, whichever of them is the minimum; while connecting keeps failing, the \<open>i\<close>-th wait
  is the jittered minimum doubled \<open>i\<close> times, cut at the maximum from the second wait on; and after a
  connection that was served it is the jittered minimum again.\<close>

theorem ws_Run_backoff:
  assumes "wf_ReconnectMinSec cfg \<le> 1000000" and "wf_ReconnectMaxSec cfg \<le> 1000000"
    and "lo = (if wf_ReconnectMinSec cfg \<le> 0 then 2 else wf_ReconnectMinSec cfg) * dur_second"
    and "hi = (if wf_ReconnectMaxSec cfg \<le> 0 then 60 else wf_ReconnectMaxSec cfg) * dur_second"
    and "\<forall>(conn, u) \<in> set turns. 0 \<le> u \<and> u < 1" and "i < length turns"
    and "c = WsNewClient cfg" and "wait = snd (ws_Run c (wc_reconnectMin c) turns ! i)"
  shows "3 * min lo hi div 4 \<le> wait \<and> 4 * wait \<le> 5 * max lo hi \<and>
    ((\<forall>(conn, u) \<in> set turns. snd (connectAndServe c conn) \<noteq> None) \<longrightarrow>
      wait = ws_jitter (snd (turns ! i)) (if i = 0 then lo else min (lo * 2 ^ i) hi)) \<and>
    (snd (connectAndServe c (fst (turns ! i))) = None \<longrightarrow> wait = ws_jitter (snd (turns ! i)) lo)"
proof -
  have c: "wc_reconnectMin c = lo" "wc_reconnectMax c = hi"
    using WsNewClient_limits [OF assms(1,2)] assms(3,4,7) by simp_all
  have pos: "0 < lo" "0 < hi" and small: "lo \<le> 2 ^ 50" "hi \<le> 2 ^ 50"
    using assms(1-4) by (auto simp: dur_second_def)
  have "3 * min lo hi div 4 \<le> wait \<and> 4 * wait \<le> 5 * max lo hi"
    unfolding assms(8) using pos small c assms(5,6) by (intro ws_Run_bounds) auto
  moreover have "wait = ws_jitter (snd (turns ! i)) (if i = 0 then lo else min (lo * 2 ^ i) hi)"
    if "\<forall>(conn, u) \<in> set turns. snd (connectAndServe c conn) \<noteq> None"
    using ws_Run_failures [OF that assms(6), of "wc_reconnectMin c"] ws_backoff.nxt_iterate [of lo c i] pos small
    unfolding assms(8) c by simp
  moreover have "wait = ws_jitter (snd (turns ! i)) lo" if "snd (connectAndServe c (fst (turns ! i))) = None"
    unfolding assms(8) ws_Run_reset [OF assms(6) that] c by simp
  ultimately show ?thesis by blast
qed

subsection \<open>Examples\<close>

definition sample_ws :: WsClient where
  "sample_ws = WsNewClient \<lparr>wf_ServerURL = ''http://s'', wf_WSURL = [], wf_AgentUUID = ''u'', wf_SecretKey = ''k'',
     wf_Version = ''1'', wf_Platform = ''windows'', wf_Arch = ''amd64'', wf_Hostname = ''h'', wf_OSVersion = ''o'',
     wf_IPAddress = ''i'', wf_FullIP = [], wf_ReconnectMinSec = 0, wf_ReconnectMaxSec = 0,
     wf_has = (\<lambda>_. True), wf_hasConnected = True, wf_hasDisconnected = True\<rparr>"

text \<open>A parser for three sample texts.\<close>

definition sample_parse :: "string \<Rightarrow> goerr + json" where
  "sample_parse s =
     (if s = ''ok'' then Inr (JObj [(''type'', JStr ''server.auth.ok'')])
      else if s = ''hello'' then Inr (JObj [(''type'', JStr ''server.hello''), (''payload'', JObj [(''a'', JNull)])])
      else if s = ''ping'' then Inr (JObj [(''id'', JStr ''7''), (''type'', JStr ''server.ping'')])
      else Inl (GoErr ''json''))"

definition sample_conn :: "string list \<Rightarrow> ws_conn" where
  "sample_conn texts = \<lparr>wn_dial = None, wn_reads = map Inr texts, wn_write = (\<lambda>_. None),
     wn_parse = sample_parse, wn_cancelled = False\<rparr>"

lemma sample_messages:
  "readMessage sample_parse (Inr ''ok'') = Inr \<lparr>wm_ID = [], wm_Type = ''server.auth.ok'', wm_TS = [], wm_Payload = [], wm_Ack = False\<rparr>"
  "readMessage sample_parse (Inr ''hello'') =
     Inr \<lparr>wm_ID = [], wm_Type = ''server.hello'', wm_TS = [], wm_Payload = [(''a'', JNull)], wm_Ack = False\<rparr>"
  "readMessage sample_parse (Inr ''ping'') = Inr \<lparr>wm_ID = ''7'', wm_Type = ''server.ping'', wm_TS = [], wm_Payload = [], wm_Ack = False\<rparr>"
  by (simp_all add: readMessage_def sample_parse_def decode_WsMessage_def decode_struct_def set_message_field_def
      message_fields_def)

lemma sample_accepts: "accepts \<lparr>wm_ID = [], wm_Type = ''server.auth.ok'', wm_TS = [], wm_Payload = [], wm_Ack = False\<rparr>"
  by (simp add: accepts_def)


theorem ws_dispatch_witness:
  "connectAndServe sample_ws ((sample_conn [])\<lparr>wn_reads :=
       [Inr ''ok'', Inr ''ping'', Inr ''hello'', Inr ''ping'', Inl closed]\<rparr>) =
     ([Sent ''agent.auth'' (auth_payload sample_ws), Sent ''agent.hello'' (hello_payload sample_ws), CalledOnConnected,
       Called OnServerHello [(''a'', JNull)], Sent ''agent.pong'' [(''ref'', JStr ''7'')]], None)"
proof -
  define conn where "conn = (sample_conn [])\<lparr>wn_reads :=
    [Inr ''ok'', Inr ''ping'', Inr ''hello'', Inr ''ping'', Inl closed]\<rparr>"
  let ?ping = "\<lparr>wm_ID = ''7'', wm_Type = ''server.ping'', wm_TS = [], wm_Payload = [], wm_Ack = False\<rparr>"
  let ?ms = "[\<lparr>wm_ID = [], wm_Type = ''server.hello'', wm_TS = [], wm_Payload = [(''a'', JNull)], wm_Ack = False\<rparr>, ?ping]"
  have f: "wn_dial conn = None" "\<forall>n. wn_write conn n = None" "wn_parse conn = sample_parse" "\<not> wn_cancelled conn"
    "wn_reads conn = Inr ''ok'' # Inr ''ping'' # [Inr ''hello'', Inr ''ping''] @ Inl closed # []"
    by (simp_all add: conn_def sample_conn_def)
  have "list_all2 (\<lambda>r m. readMessage (wn_parse conn) r = Inr m) [Inr ''hello'', Inr ''ping''] ?ms"
    by (simp add: f sample_messages)
  note d = ws_dispatch [OF f(1,2,5) _ sample_accepts _ this, of ?ping sample_ws]
  have "wc_has sample_ws cb" "wc_hasConnected sample_ws" for cb
    by (simp_all add: sample_ws_def WsNewClient_def Let_def)
  then show ?thesis using d f unfolding conn_def [symmetric]
    by (simp add: sample_messages documented_reaction_def documented_callbacks_def)
qed

theorem ws_Run_backoff_witness:
  "let turns = replicate 7 ((sample_conn [])\<lparr>wn_dial := Some closed\<rparr>, 1 / 2)
   in snd (ws_Run sample_ws (wc_reconnectMin sample_ws) turns ! 3) = ws_jitter (1 / 2) (16 * dur_second) \<and>
      snd (ws_Run sample_ws (wc_reconnectMin sample_ws) turns ! 6) = ws_jitter (1 / 2) (60 * dur_second)"
proof -
  define turns where "turns = replicate 7 ((sample_conn [])\<lparr>wn_dial := Some closed\<rparr>, 1 / 2 :: rat)"
  have u: "\<forall>(conn, u) \<in> set turns. 0 \<le> u \<and> u < 1" by (simp add: turns_def)
  have fail: "\<forall>(conn, u) \<in> set turns. snd (connectAndServe sample_ws conn) \<noteq> None"
    by (simp add: turns_def connectAndServe_def)
  have n: "snd (turns ! i) = 1 / 2" if "i < 7" for i using that by (simp add: turns_def nth_replicate)
  have "snd (ws_Run sample_ws (wc_reconnectMin sample_ws) turns ! i) =
      ws_jitter (1 / 2) (if i = 0 then 2 * dur_second else min (2 * dur_second * 2 ^ i) (60 * dur_second))" if "i < 7" for i
    using ws_Run_backoff [OF _ _ refl refl u _ sample_ws_def refl, of i] fail n [OF that] that
    by (simp add: turns_def)
  from this [of 3] this [of 6] show ?thesis
    unfolding turns_def by (simp add: Let_def dur_second_def)
qed

end
