(* ===== verification/Core.thy ===== *)
theory Core
  imports Execute Payloads Announcement Heartbeat Inventory RuntimeUpdate RemoteSession WsConn
begin

section \<open>The service loop (\<open>cmd/service/core.go\<close>)\<close>

text \<open>
  How the components work together: the state that \<open>runAgent\<close> sets up, the configuration of the
  server, the loop over poll results, kicks and ticks, and the callbacks of the WebSocket client.
  Each handler is a function of the agent's state; what it starts elsewhere (a goroutine of the
  session manager, the tray, the WebSocket client, a message box) is written to the log \<open>ag_out\<close>.
  The handlers of the loop and of the WebSocket client run in two goroutines; the model lets one
  finish before the next begins. A Go panic is the result \<open>None\<close>.
\<close>

subsection \<open>State\<close>

datatype agent_effect =
    TraySetEnabled bool
  | WSClientStarted
  | RSRequested RemoteSupportRequest
  | RSEndRequested RemoteSupportEnd
  | AnnouncementShown int string string string
  | HashSent string
  | EventSent string payload
  | HelperStarted string "string list"
  | InstallerStarted string "string option"
  | TaskReported int TaskStatusRequest
  | InventorySubmitted SubmitRequest

record Agent =
  ag_cfg :: Config
  ag_fs :: fs
  ag_queue :: TaskQueue
  ag_inv :: InventoryManager
  ag_storeTray :: bool
  ag_rsEnabled :: bool
  ag_runtime :: RuntimeManager
  ag_sender :: Sender
  ag_wsActive :: bool
  ag_wsStarted :: bool
  ag_kick :: "unit list"
  ag_restart :: "string list"
  ag_hashSent :: string
  ag_hashAt :: gotime
  ag_tracker :: Tracker
  ag_out :: "agent_effect list"

text \<open>
  What a handler meets outside: files and configuration text, the updater's world, the clock, what a
  scan of the installed software finds at each scan, and for each turn of the queue its own world
  and that of the execution.
\<close>

record agent_env =
  gx_orc :: fs_oracle
  gx_marshal :: "Config \<Rightarrow> goerr + string"
  gx_cfgPath :: string
  gx_serviceExe :: string
  gx_upd :: upd_env
  gx_now :: gotime
  gx_scan :: "SoftwareItem list"
  gx_sha :: "SoftwareItem list \<Rightarrow> string"
  gx_process :: "nat \<Rightarrow> process_env"
  gx_exec :: "nat \<Rightarrow> exec_env"

definition emit :: "agent_effect list \<Rightarrow> Agent \<Rightarrow> Agent" where
  "emit es ag = ag\<lparr>ag_out := ag_out ag @ es\<rparr>"

subsection \<open>Starting up\<close>

definition resolveConfigPath :: "(string \<Rightarrow> string) \<Rightarrow> string" where
  "resolveConfigPath getenv =
     (if getenv ''APPCENTER_CONFIG'' \<noteq> [] then getenv ''APPCENTER_CONFIG''
      else ''C:'' @ [CHR 0x5C] @ ''ProgramData'' @ [CHR 0x5C] @ ''AppCenter'' @ [CHR 0x5C] @ ''config.yaml'')"

definition resolveWritableConfigPath :: "(string \<Rightarrow> string) \<Rightarrow> string" where
  "resolveWritableConfigPath getenv =
     (if getenv ''APPCENTER_CONFIG'' \<noteq> [] then getenv ''APPCENTER_CONFIG''
      else ''C:'' @ [CHR 0x5C] @ ''ProgramData'' @ [CHR 0x5C] @ ''AppCenter'' @ [CHR 0x5C] @ ''config.yaml'')"

definition logPathOrFallback :: "string \<Rightarrow> string" where
  "logPathOrFallback path = (if path = [] then ''agent.log'' else path)"

text \<open>
  \<open>bootstrapAgent\<close>: the identifier, then the registration when there is no secret yet. \<open>uuid\<close> is what
  \<open>GetOrCreateUUID\<close> returns; a configuration that cannot be written is only logged.
\<close>

definition bootstrapAgent ::
    "api_env \<Rightarrow> fs_oracle \<Rightarrow> (Config \<Rightarrow> goerr + string) \<Rightarrow> string \<Rightarrow> ApiClient \<Rightarrow> goerr + string \<Rightarrow> host_world \<Rightarrow>
     Config \<times> fs \<Rightarrow> goerr option \<times> Config \<times> fs" where
  "bootstrapAgent api orc marshal path client uuid host = (\<lambda>(cfg, s).
     case (if agt_UUID (cfg_Agent cfg) = []
           then (case uuid of Inl err \<Rightarrow> Inl err | Inr u \<Rightarrow> Inr (cfg\<lparr>cfg_Agent := (cfg_Agent cfg)\<lparr>agt_UUID := u\<rparr>\<rparr>))
           else Inr cfg) of
       Inl err \<Rightarrow> (Some err, cfg, s)
     | Inr cfg1 \<Rightarrow>
         if agt_SecretKey (cfg_Agent cfg1) \<noteq> [] then (None, cfg1, s)
         else case Register api (hw_GOARCH host) client (agt_UUID (cfg_Agent cfg1)) (agt_Version (cfg_Agent cfg1))
                     (CollectHostInfo host) of
           Inl err \<Rightarrow> (Some err, cfg1, s)
         | Inr resp \<Rightarrow>
             if rgr_SecretKey resp = [] then (Some (GoErr ''empty secret_key in register response''), cfg1, s)
             else let cfg2 = cfg1\<lparr>cfg_Agent := (cfg_Agent cfg1)\<lparr>agt_SecretKey := rgr_SecretKey resp\<rparr>\<rparr>
                  in (None, cfg2, snd (Save orc marshal path (Some cfg2) s)))"

subsection \<open>Reporting\<close>

text \<open>
  \<open>reportFn\<close>: up to three attempts, one second more between them each time, given up when the context
  is cancelled during a wait. The result is the error and the number of posts.
\<close>

fun report_loop :: "nat \<Rightarrow> (nat \<Rightarrow> goerr option) \<Rightarrow> (nat \<Rightarrow> bool) \<Rightarrow> nat \<Rightarrow> goerr option \<Rightarrow> goerr option \<times> nat" where
  "report_loop 0 post cancelled attempt lastErr = (lastErr, 0)"
| "report_loop (Suc n) post cancelled attempt lastErr =
     (case post attempt of
        None \<Rightarrow> (None, 1)
      | Some err \<Rightarrow>
          if cancelled attempt then (Some (GoErr ''context canceled''), 1)
          else (case report_loop n post cancelled (attempt + 1) (Some err) of (e, k) \<Rightarrow> (e, k + 1)))"

definition reportFn :: "(nat \<Rightarrow> goerr option) \<Rightarrow> (nat \<Rightarrow> bool) \<Rightarrow> goerr option \<times> nat" where
  "reportFn post cancelled = report_loop 3 post cancelled 1 None"

subsection \<open>The server's configuration\<close>

definition requestRestart :: "string \<Rightarrow> Agent \<Rightarrow> Agent" where
  "requestRestart reason ag = ag\<lparr>ag_restart := snd (chan_try_send 1 reason (ag_restart ag))\<rparr>"

text \<open>\<open>sync.Once\<close>: only the first call starts the client.\<close>

definition startWSClient :: "Agent \<Rightarrow> Agent" where
  "startWSClient ag = (if ag_wsStarted ag then ag else emit [WSClientStarted] (ag\<lparr>ag_wsStarted := True\<rparr>))"

definition set_scan_interval :: "payload \<Rightarrow> Agent \<Rightarrow> Agent" where
  "set_scan_interval m ag =
     (case as_float (jget_any m ''inventory_scan_interval_min'') of
        None \<Rightarrow> ag | Some f \<Rightarrow> ag\<lparr>ag_inv := SetScanInterval (f64_to_int f) (ag_inv ag)\<rparr>)"

definition set_store_tray :: "payload \<Rightarrow> Agent \<Rightarrow> Agent" where
  "set_store_tray m ag =
     (case jbool m ''store_tray_enabled'' of
        None \<Rightarrow> ag
      | Some b \<Rightarrow>
          (if b then emit [TraySetEnabled True] ag
           else if ag_storeTray ag then emit [TraySetEnabled False] ag else ag)\<lparr>ag_storeTray := b\<rparr>)"

definition set_remote_support :: "payload \<Rightarrow> Agent \<Rightarrow> Agent" where
  "set_remote_support m ag =
     (case jbool m ''remote_support_enabled'' of None \<Rightarrow> ag | Some b \<Rightarrow> ag\<lparr>ag_rsEnabled := b\<rparr>)"

definition save_ws_enabled :: "agent_env \<Rightarrow> bool \<Rightarrow> Agent \<Rightarrow> Agent" where
  "save_ws_enabled env b ag =
     (let cfg = (ag_cfg ag)\<lparr>cfg_WebSocket := (cfg_WebSocket (ag_cfg ag))\<lparr>wsc_Enabled := b\<rparr>\<rparr>
      in ag\<lparr>ag_cfg := cfg, ag_fs := snd (Save (gx_orc env) (gx_marshal env) (gx_cfgPath env) (Some cfg) (ag_fs ag))\<rparr>)"

definition set_websocket :: "agent_env \<Rightarrow> payload \<Rightarrow> Agent \<Rightarrow> Agent" where
  "set_websocket env m ag =
     (case jbool m ''websocket_enabled'' of
        None \<Rightarrow> ag
      | Some b \<Rightarrow>
          if b \<and> \<not> wsc_Enabled (cfg_WebSocket (ag_cfg ag)) then startWSClient (save_ws_enabled env True ag)
          else if \<not> b \<and> wsc_Enabled (cfg_WebSocket (ag_cfg ag)) then save_ws_enabled env False ag
          else ag)"

definition set_runtime :: "payload \<Rightarrow> Agent \<Rightarrow> Agent" where
  "set_runtime m ag = ag\<lparr>ag_runtime := rtUpdateConfig
     \<lparr>rtc_BaseURL = runtimeUpdateBaseURL (srv_URL (cfg_Server (ag_cfg ag))),
      rtc_IntervalMin = configInt m ''runtime_update_interval_min'' 60,
      rtc_JitterSec = configInt m ''runtime_update_jitter_sec'' 300\<rparr> (ag_runtime ag)\<rparr>"

definition applyServerConfig :: "agent_env \<Rightarrow> payload option \<Rightarrow> Agent \<Rightarrow> Agent" where
  "applyServerConfig env serverConfig ag =
     (case serverConfig of
        None \<Rightarrow> ag
      | Some m \<Rightarrow>
          set_runtime m (set_websocket env m (set_remote_support m (set_store_tray m (set_scan_interval m ag)))))"

subsection \<open>Remote support\<close>

definition handleRSRequest :: "RemoteSupportRequest option \<Rightarrow> Agent \<Rightarrow> Agent" where
  "handleRSRequest req ag =
     (case req of None \<Rightarrow> ag | Some r \<Rightarrow> if ag_rsEnabled ag then emit [RSRequested r] ag else ag)"

definition handleRSEnd :: "RemoteSupportEnd option \<Rightarrow> Agent \<Rightarrow> Agent" where
  "handleRSEnd e ag = (case e of None \<Rightarrow> ag | Some r \<Rightarrow> emit [RSEndRequested r] ag)"

subsection \<open>Inventory\<close>

definition agent_ForceScan :: "agent_env \<Rightarrow> Agent \<Rightarrow> Agent option" where
  "agent_ForceScan env ag =
     map_option (\<lambda>m. ag\<lparr>ag_inv := m\<rparr>) (ForceScan (gx_sha env) (gx_now env) (gx_scan env) (ag_inv ag))"

definition kick_inventory :: "Agent \<Rightarrow> Agent" where
  "kick_inventory ag = ag\<lparr>ag_kick := chan_kick (ag_kick ag)\<rparr>"

text \<open>\<open>sent\<close> says whether \<open>SendEvent\<close> got the message out.\<close>

definition sendWSInventoryHash :: "agent_env \<Rightarrow> bool \<Rightarrow> bool \<Rightarrow> Agent \<Rightarrow> Agent" where
  "sendWSInventoryHash env sent force ag =
     (let hash = strings_TrimSpace (GetCurrentHash (ag_inv ag)) in
      if \<not> ag_wsActive ag \<or> \<not> ag_wsStarted ag then ag
      else if hash = [] then ag
      else if \<not> force \<and> strings_EqualFold hash (ag_hashSent ag) \<and>
              time_Sub (gx_now env) (ag_hashAt ag) < 15 * dur_minute then ag
      else if sent then emit [HashSent hash] (ag\<lparr>ag_hashSent := hash, ag_hashAt := gx_now env\<rparr>)
      else ag)"

subsection \<open>Commands\<close>

text \<open>
  One turn of the loop of \<open>processCommands\<close> in the service: the queue's \<open>ProcessOne\<close> with \<open>executeFn\<close>
  for the execution. The execution works on the agent's files; after one that succeeded the
  inventory is scanned again and, with the WebSocket connected, the hash is announced.
\<close>

definition turn_env :: "agent_env \<Rightarrow> nat \<Rightarrow> Agent \<Rightarrow> process_env" where
  "turn_env env i ag = (gx_process env i)\<lparr>pe_execute :=
     (\<lambda>c. fst (executeCommand (gx_exec env i) (ag_cfg ag) c (ag_fs ag)))\<rparr>"

definition executed :: "agent_env \<Rightarrow> nat \<Rightarrow> Command \<Rightarrow> Agent \<Rightarrow> Agent option" where
  "executed env i c ag =
     (case executeCommand (gx_exec env i) (ag_cfg ag) c (ag_fs ag) of
        ((res, err), calls, fs') \<Rightarrow>
          let ag1 = emit (map (\<lambda>(p, d). InstallerStarted p d) calls) (ag\<lparr>ag_fs := fs'\<rparr>) in
          if err \<noteq> None then Some ag1
          else map_option (\<lambda>ag2. if ag_wsActive ag2 then kick_inventory ag2 else ag2) (agent_ForceScan env ag1))"

definition agent_turn :: "agent_env \<Rightarrow> nat \<Rightarrow> Agent \<Rightarrow> (bool \<times> Agent) option" where
  "agent_turn env i ag =
     (case ProcessOne (turn_env env i ag) (ag_queue ag) of
        (processed, reports, q') \<Rightarrow>
          if \<not> processed then Some (False, ag\<lparr>ag_queue := q'\<rparr>)
          else case nextRunnable (pe_now (turn_env env i ag)) (ag_queue ag) of
            None \<Rightarrow> Some (False, ag\<lparr>ag_queue := q'\<rparr>)
          | Some c \<Rightarrow>
              map_option (\<lambda>ag1. (True, emit (map (\<lambda>(t, r). TaskReported t r) reports) (ag1\<lparr>ag_queue := q'\<rparr>)))
                (executed env i c ag))"

partial_function (option) agent_drain :: "agent_env \<Rightarrow> nat \<Rightarrow> Agent \<Rightarrow> Agent option" where
  "agent_drain env i ag =
     (case agent_turn env i ag of
        None \<Rightarrow> None
      | Some (processed, ag') \<Rightarrow> if processed then agent_drain env (Suc i) ag' else Some ag')"

definition agent_processCommands :: "agent_env \<Rightarrow> Command list \<Rightarrow> Agent \<Rightarrow> Agent option" where
  "agent_processCommands env commands ag =
     agent_drain env 0 (if commands \<noteq> [] then ag\<lparr>ag_queue := AddCommands commands (ag_queue ag)\<rparr> else ag)"

subsection \<open>Self-update\<close>

definition agent_apply :: "agent_env \<Rightarrow> Agent \<Rightarrow> goerr option \<times> Agent" where
  "agent_apply env ag =
     (if PendingCount (ag_queue ag) = 0
      then (case applyIfPending (gx_upd env) (ag_cfg ag) (gx_cfgPath env) (gx_serviceExe env) (ag_fs ag) of
              (err, started) \<Rightarrow> (err, emit (map (\<lambda>(p, as). HelperStarted p as) started) ag))
      else (None, ag))"

definition agent_stage :: "agent_env \<Rightarrow> payload \<Rightarrow> Agent \<Rightarrow> goerr option \<times> Agent" where
  "agent_stage env changes ag =
     (case StageIfNeeded (gx_upd env) (ag_cfg ag) changes (ag_fs ag) of (err, fs') \<Rightarrow> (err, ag\<lparr>ag_fs := fs'\<rparr>))"

definition is_restart :: "goerr option \<Rightarrow> bool" where
  "is_restart err \<longleftrightarrow> (case err of None \<Rightarrow> False | Some e \<Rightarrow> errors_Is e ErrUpdateRestart)"

definition applySelfUpdateChanges :: "agent_env \<Rightarrow> payload \<Rightarrow> Agent \<Rightarrow> Agent" where
  "applySelfUpdateChanges env changes ag =
     (if changes = [] then ag
      else case agent_apply env ag of
        (err1, ag1) \<Rightarrow>
          if is_restart err1 then requestRestart ''self-update apply'' ag1
          else case agent_stage env changes ag1 of
            (Some err2, ag2) \<Rightarrow> ag2
          | (None, ag2) \<Rightarrow>
              (case agent_apply env ag2 of
                 (err3, ag3) \<Rightarrow> if is_restart err3 then requestRestart ''self-update apply'' ag3 else ag3))"

subsection \<open>The loop\<close>

datatype loop_result = Continue | Return "goerr option"

text \<open>
  \<open>handleAnnouncementPush\<close> in the service: show it, and track it until the goroutine that shows it is
  through, which is \<open>close_announcement\<close>.
\<close>

definition push_announcement :: "agent_env \<Rightarrow> payload \<Rightarrow> Agent \<Rightarrow> Agent" where
  "push_announcement env p ag =
     (case handleAnnouncementPush (gx_now env) p (ag_tracker ag) of
        (shown, t) \<Rightarrow> emit (case shown of None \<Rightarrow> [] | Some (i, title, message, priority) \<Rightarrow> [AnnouncementShown i title message priority])
          (ag\<lparr>ag_tracker := t\<rparr>))"

definition close_announcement :: "int \<Rightarrow> Agent \<Rightarrow> Agent" where
  "close_announcement i ag =
     (case finishAnnouncement (ag_wsStarted ag) i (ag_tracker ag) of
        (events, t) \<Rightarrow> emit (map (\<lambda>(typ, p). EventSent typ p) events) (ag\<lparr>ag_tracker := t\<rparr>))"

definition agent_ScanIfNeeded :: "agent_env \<Rightarrow> Agent \<Rightarrow> (bool \<times> Agent) option" where
  "agent_ScanIfNeeded env ag =
     map_option (\<lambda>(changed, m). (changed, ag\<lparr>ag_inv := m\<rparr>)) (ScanIfNeeded (gx_sha env) (gx_now env) (gx_scan env) (ag_inv ag))"

definition submit_inventory :: "bool \<Rightarrow> Agent \<Rightarrow> Agent" where
  "submit_inventory required ag =
     (case SyncIfRequested required (ag_inv ag) of None \<Rightarrow> ag | Some p \<Rightarrow> emit [InventorySubmitted p] ag)"

definition config_map :: "payload option \<Rightarrow> payload" where
  "config_map c = (case c of None \<Rightarrow> [] | Some m \<Rightarrow> m)"

definition on_pollResult :: "agent_env \<Rightarrow> PollResult \<Rightarrow> Agent \<Rightarrow> (loop_result \<times> Agent) option" where
  "on_pollResult env r ag =
     (case agent_apply env ag of
        (err, ag1) \<Rightarrow>
          if is_restart err then Some (Return err, ag1)
          else
            let ag2 = snd (agent_stage env (config_map (pr_Config r)) ag1);
                ag3 = applyServerConfig env (pr_Config r) ag2;
                ag4 = handleRSEnd (pr_RemoteSupportEnd r) (handleRSRequest (pr_RemoteSupportRequest r) ag3);
                ag5 = fold (push_announcement env) (pr_PendingAnnouncements r) ag4
            in Option.bind (agent_ScanIfNeeded env ag5) (\<lambda>(changed, ag6).
               map_option (\<lambda>ag7. (Continue, ag7))
                 (agent_processCommands env (pr_Commands r) (submit_inventory (pr_InventorySyncRequired r) ag6))))"

definition on_restart :: "Agent \<Rightarrow> (loop_result \<times> Agent) option" where
  "on_restart ag =
     (case ag_restart ag of
        [] \<Rightarrow> Some (Continue, ag)
      | reason # rest \<Rightarrow> Some (Return (Some ErrUpdateRestart), ag\<lparr>ag_restart := rest\<rparr>))"

definition on_inventoryKick :: "agent_env \<Rightarrow> bool \<Rightarrow> Agent \<Rightarrow> Agent option" where
  "on_inventoryKick env sent ag =
     (case ag_kick ag of
        [] \<Rightarrow> Some ag
      | t # ts \<Rightarrow>
          let ag1 = ag\<lparr>ag_kick := ts\<rparr> in
          if ag_wsActive ag1 then map_option (sendWSInventoryHash env sent True) (agent_ForceScan env ag1) else Some ag1)"

definition on_inventoryTick :: "agent_env \<Rightarrow> bool \<Rightarrow> Agent \<Rightarrow> Agent option" where
  "on_inventoryTick env sent ag =
     (if \<not> ag_wsActive ag then Some ag
      else map_option (\<lambda>(changed, ag1). sendWSInventoryHash env sent changed ag1) (agent_ScanIfNeeded env ag))"

subsection \<open>Callbacks of the WebSocket client\<close>

definition on_connected :: "Agent \<Rightarrow> Agent" where
  "on_connected ag = kick_inventory (ag\<lparr>ag_wsActive := True, ag_sender := SetWSActive True (ag_sender ag)\<rparr>)"

definition on_disconnected :: "Agent \<Rightarrow> Agent" where
  "on_disconnected ag = ag\<lparr>ag_wsActive := False, ag_sender := TriggerNow (SetWSActive False (ag_sender ag))\<rparr>"

definition trigger_heartbeat :: "Agent \<Rightarrow> Agent" where
  "trigger_heartbeat ag = ag\<lparr>ag_sender := TriggerNow (ag_sender ag)\<rparr>"

definition push_announcements :: "agent_env \<Rightarrow> json \<Rightarrow> Agent \<Rightarrow> Agent" where
  "push_announcements env raw ag =
     (case as_slice raw of
        None \<Rightarrow> ag
      | Some items \<Rightarrow> fold (\<lambda>item a. case as_map item of None \<Rightarrow> a | Some p \<Rightarrow> push_announcement env p a) items ag)"

definition with_commands :: "agent_env \<Rightarrow> payload \<Rightarrow> Agent \<Rightarrow> Agent option" where
  "with_commands env p ag =
     (let commands = parseCommandsFromPayload p
      in if commands = [] then Some ag else agent_processCommands env commands ag)"

definition on_serverHello :: "agent_env \<Rightarrow> payload \<Rightarrow> Agent \<Rightarrow> Agent option" where
  "on_serverHello env p ag =
     (let ag1 = (case as_map (jget_any p ''config'') of
            None \<Rightarrow> ag | Some c \<Rightarrow> applyServerConfig env (Some c) (applySelfUpdateChanges env c ag));
          ag2 = push_announcements env (jget_any p ''pending_announcements'') ag1
      in map_option (\<lambda>ag3. handleRSEnd (parseRSEndFromPayload p) (handleRSRequest (parseRSRequestFromPayload p) ag3))
           (with_commands env p ag2))"

definition on_callback :: "agent_env \<Rightarrow> callback \<Rightarrow> payload \<Rightarrow> Agent \<Rightarrow> Agent option" where
  "on_callback env cb p ag =
     (case cb of
        OnSignal \<Rightarrow> Some (trigger_heartbeat ag)
      | OnServerHello \<Rightarrow> on_serverHello env p ag
      | OnServerCommand \<Rightarrow> with_commands env p ag
      | OnRSRequest \<Rightarrow> Some (handleRSRequest (parseRSRequestFromPayload p) ag)
      | OnRSEnd \<Rightarrow> Some (handleRSEnd (parseRSEndFromPayload p) ag)
      | OnConfigPatch \<Rightarrow>
          (case as_map (jget_any p ''changes'') of
             None \<Rightarrow> Some ag
           | Some changes \<Rightarrow> Some (applyServerConfig env (Some changes) (applySelfUpdateChanges env changes ag)))
      | OnInventorySyncRequired \<Rightarrow> Some (trigger_heartbeat ag)
      | OnBroadcastRestart \<Rightarrow> Some (requestRestart (restart_reason p) ag)
      | OnBroadcastSelfUpdate \<Rightarrow>
          (if \<not> isPayloadForCurrentPlatform p then Some ag
           else Some (applySelfUpdateChanges env (extractSelfUpdateChanges p) ag))
      | OnAnnouncementPush \<Rightarrow> Some (push_announcement env p ag))"

end
