(* ===== verification/Service.thy ===== *)
theory Service
  imports Core
begin

section \<open>The running service (\<open>runAgent\<close>)\<close>

text \<open>
  \<open>runAgent\<close> as a machine: how it sets up the agent's state, and the events that move it (a result of
  the heartbeat, a restart request, a kick or tick of the inventory, a callback of the WebSocket
  client, a heartbeat, the closing of an announcement). The first part is the machine, the second
  what holds in every run of it.
\<close>

subsection \<open>Start\<close>

record start_env =
  sx_orc :: fs_oracle
  sx_marshal :: "Config \<Rightarrow> goerr + string"
  sx_unmarshal :: "string \<Rightarrow> goerr + Config"
  sx_host :: host_env
  sx_cfgPath :: string
  sx_logger :: "goerr option"
  sx_api :: api_env
  sx_uuid :: "goerr + string"
  sx_hw :: host_world
  sx_hb :: hb_env
  sx_serviceExe :: string
  sx_now :: gotime
  sx_scan :: "SoftwareItem list"
  sx_sha :: "SoftwareItem list \<Rightarrow> string"

text \<open>
  The state with which the loop begins, from the configuration the bootstrap leaves. The result
  channel of the heartbeat has room for 8.
\<close>

definition newAgent :: "start_env \<Rightarrow> Config \<Rightarrow> fs \<Rightarrow> InventoryManager \<Rightarrow> Agent" where
  "newAgent env cfg s im =
     \<lparr>ag_cfg = cfg, ag_fs = s, ag_queue = NewTaskQueue 3, ag_inv = im, ag_storeTray = False,
      ag_rsEnabled = rsc_Enabled (cfg_RemoteSupport cfg), ag_runtime = NewManager (filepath_Dir (sx_serviceExe env)),
      ag_sender = SetWSActive False (NewSender (sx_hb env) (ApiNewClient (cfg_Server cfg)) (Some 8) s),
      ag_wsActive = False, ag_wsStarted = False, ag_kick = [], ag_restart = [],
      ag_hashSent = [], ag_hashAt = 0, ag_tracker = NewTracker, ag_out = []\<rparr>"

text \<open>\<open>runAgent\<close> up to its loop. A bootstrap that fails is only logged.\<close>

definition startAgent :: "start_env \<Rightarrow> fs \<Rightarrow> (goerr + Agent) option" where
  "startAgent env s =
     (case EnsureExists (sx_orc env) (sx_marshal env) (sx_cfgPath env) s of
        (Some err, s1) \<Rightarrow> Some (Inl (GoWrap ''failed to ensure config exists'' err))
      | (None, s1) \<Rightarrow>
          (case Load (sx_orc env) (sx_unmarshal env) (sx_host env) (sx_cfgPath env) s1 of
             Inl err \<Rightarrow> Some (Inl (GoWrap ''failed to load config'' err))
           | Inr cfg \<Rightarrow>
               (case sx_logger env of
                  Some err \<Rightarrow> Some (Inl (GoWrap ''failed to init logger'' err))
                | None \<Rightarrow>
                    (case bootstrapAgent (sx_api env) (sx_orc env) (sx_marshal env)
                            (resolveWritableConfigPath (he_getenv (sx_host env))) (ApiNewClient (cfg_Server cfg))
                            (sx_uuid env) (sx_hw env) (cfg, s1) of
                       (warning, cfg1, s2) \<Rightarrow>
                         map_option (\<lambda>im. Inr (let ag = newAgent env cfg1 s2 im in
                             if wsc_Enabled (cfg_WebSocket cfg1) then startWSClient ag else ag))
                           (ForceScan (sx_sha env) (sx_now env) (sx_scan env) InventoryNewManager)))))"

subsection \<open>Events\<close>

datatype agent_event =
    PollArrived agent_env
  | RestartArrived
  | InventoryKicked agent_env bool
  | InventoryTicked agent_env bool
  | HeartbeatTurn hb_env "RemoteSupportStatus option" hb_event
  | WsConnected
  | WsDisconnected
  | WsCalled agent_env callback payload
  | AnnouncementClosed int
  | ContextDone

text \<open>A turn of the sender's goroutine, with the queue and the inventory as its providers.\<close>

definition on_heartbeat :: "hb_env \<Rightarrow> RemoteSupportStatus option \<Rightarrow> hb_event \<Rightarrow> Agent \<Rightarrow> Agent" where
  "on_heartbeat env remote e ag =
     (case hb_turn env (ag_cfg ag) (Some ConsumeAppsChanged) (Some (GetCurrentHash (ag_inv ag))) remote e
             (ag_sender ag, ag_queue ag, ag_fs ag) of
        (sent, s, q, disk) \<Rightarrow> ag\<lparr>ag_sender := s, ag_queue := q, ag_fs := disk\<rparr>)"

text \<open>The case \<open>result := <-pollResults\<close>: the oldest result in the channel.\<close>

definition on_poll :: "agent_env \<Rightarrow> Agent \<Rightarrow> (loop_result \<times> Agent) option" where
  "on_poll env ag =
     (case hs_results (ag_sender ag) of
        [] \<Rightarrow> Some (Continue, ag)
      | r # rs \<Rightarrow> on_pollResult env r (ag\<lparr>ag_sender := (ag_sender ag)\<lparr>hs_results := rs\<rparr>\<rparr>))"

definition continuing :: "Agent option \<Rightarrow> (loop_result \<times> Agent) option" where
  "continuing r = map_option (\<lambda>ag. (Continue, ag)) r"

fun agent_step :: "agent_event \<Rightarrow> Agent \<Rightarrow> (loop_result \<times> Agent) option" where
  "agent_step (PollArrived env) ag = on_poll env ag"
| "agent_step RestartArrived ag = on_restart ag"
| "agent_step (InventoryKicked env sent) ag = continuing (on_inventoryKick env sent ag)"
| "agent_step (InventoryTicked env sent) ag = continuing (on_inventoryTick env sent ag)"
| "agent_step (HeartbeatTurn env remote e) ag = Some (Continue, on_heartbeat env remote e ag)"
| "agent_step WsConnected ag = Some (Continue, on_connected ag)"
| "agent_step WsDisconnected ag = Some (Continue, on_disconnected ag)"
| "agent_step (WsCalled env cb p) ag = continuing (on_callback env cb p ag)"
| "agent_step (AnnouncementClosed i) ag = Some (Continue, close_announcement i ag)"
| "agent_step ContextDone ag = Some (Return None, ag)"

text \<open>A run ends when the loop returns.\<close>

fun agent_run :: "agent_event list \<Rightarrow> Agent \<Rightarrow> (loop_result \<times> Agent) option" where
  "agent_run [] ag = Some (Continue, ag)"
| "agent_run (e # es) ag =
     (case agent_step e ag of
        None \<Rightarrow> None
      | Some (Return err, ag') \<Rightarrow> Some (Return err, ag')
      | Some (Continue, ag') \<Rightarrow> agent_run es ag')"

section \<open>What holds in every run\<close>

subsection \<open>The shape of the state\<close>

text \<open>
  The queue and the tracker are well-formed, the channels respect their capacities, the flag the
  sender sees is the agent's, scans have a positive interval, and the WebSocket client has been
  started at most once, and has been when the configuration wants it.
\<close>

definition service_ok :: "Agent \<Rightarrow> bool" where
  "service_ok ag \<longleftrightarrow>
     queue_wf (ag_queue ag) \<and> q_maxRetries (ag_queue ag) = 3 \<and> gm_wf (tr_pending (ag_tracker ag)) \<and>
     length (ag_kick ag) \<le> 1 \<and> length (ag_restart ag) \<le> 1 \<and>
     length (hs_triggerCh (ag_sender ag)) \<le> 1 \<and> length (hs_results (ag_sender ag)) \<le> 8 \<and>
     hs_resultsCap (ag_sender ag) = Some 8 \<and> hs_wsActive (ag_sender ag) = ag_wsActive ag \<and>
     0 < im_scanIntervalMin (ag_inv ag) \<and>
     count_list (ag_out ag) WSClientStarted = (if ag_wsStarted ag then 1 else 0) \<and>
     (wsc_Enabled (cfg_WebSocket (ag_cfg ag)) \<longrightarrow> ag_wsStarted ag)"

text \<open>
  Most handlers are calm: they keep the policy, the configuration, a pending restart and whether the
  WebSocket client runs, and log only effects that are not of those the properties below count.
\<close>

definition quiet :: "agent_effect \<Rightarrow> bool" where
  "quiet e \<longleftrightarrow> (case e of RSRequested r \<Rightarrow> False | HelperStarted p as \<Rightarrow> False | WSClientStarted \<Rightarrow> False | _ \<Rightarrow> True)"

definition calm :: "Agent \<Rightarrow> Agent \<Rightarrow> bool" where
  "calm ag ag' \<longleftrightarrow>
     (\<exists>es. ag_out ag' = ag_out ag @ es \<and> list_all quiet es) \<and>
     ag_rsEnabled ag' = ag_rsEnabled ag \<and> ag_wsStarted ag' = ag_wsStarted ag \<and> ag_cfg ag' = ag_cfg ag \<and>
     ag_restart ag' = ag_restart ag \<and> (service_ok ag \<longrightarrow> service_ok ag')"

lemma quiet_simps [simp]:
  "\<not> quiet (RSRequested r)" "\<not> quiet (HelperStarted p as)" "\<not> quiet WSClientStarted"
  "quiet (TraySetEnabled b)" "quiet (RSEndRequested e)" "quiet (AnnouncementShown i t m p)" "quiet (HashSent h)"
  "quiet (EventSent t pl)" "quiet (InstallerStarted q d)" "quiet (TaskReported i rep)" "quiet (InventorySubmitted s)"
  by (simp_all add: quiet_def)

lemma calm_refl [simp, intro]: "calm ag ag"
  by (simp add: calm_def)

lemma calm_trans: "calm a b \<Longrightarrow> calm b c \<Longrightarrow> calm a c"
  by (auto simp: calm_def)

lemma count_quiet: "list_all quiet es \<Longrightarrow> count_list es WSClientStarted = 0"
  by (induction es) auto

lemma emit_simps [simp]:
  "ag_out (emit es ag) = ag_out ag @ es" "ag_cfg (emit es ag) = ag_cfg ag" "ag_fs (emit es ag) = ag_fs ag"
  "ag_queue (emit es ag) = ag_queue ag" "ag_inv (emit es ag) = ag_inv ag" "ag_storeTray (emit es ag) = ag_storeTray ag"
  "ag_rsEnabled (emit es ag) = ag_rsEnabled ag" "ag_runtime (emit es ag) = ag_runtime ag"
  "ag_sender (emit es ag) = ag_sender ag" "ag_wsActive (emit es ag) = ag_wsActive ag"
  "ag_wsStarted (emit es ag) = ag_wsStarted ag" "ag_kick (emit es ag) = ag_kick ag"
  "ag_restart (emit es ag) = ag_restart ag" "ag_tracker (emit es ag) = ag_tracker ag"
  by (simp_all add: emit_def)

lemma calmI:
  assumes "ag_out ag' = ag_out ag @ es" and "list_all quiet es" and "ag_rsEnabled ag' = ag_rsEnabled ag"
    and "ag_wsStarted ag' = ag_wsStarted ag" and "ag_cfg ag' = ag_cfg ag" and "ag_restart ag' = ag_restart ag"
    and "service_ok ag \<Longrightarrow> service_ok ag'"
  shows "calm ag ag'"
  using assms by (auto simp: calm_def)

text \<open>A change of the log alone, and one of the fields no property looks at.\<close>

lemma calm_emit: "list_all quiet es \<Longrightarrow> calm ag (emit es ag)"
  by (rule calmI [where es = es]) (auto simp: service_ok_def count_quiet)

lemma calm_same:
  assumes "service_ok ag \<Longrightarrow> service_ok ag'" and "ag_out ag' = ag_out ag" and "ag_rsEnabled ag' = ag_rsEnabled ag"
    and "ag_wsStarted ag' = ag_wsStarted ag" and "ag_cfg ag' = ag_cfg ag" and "ag_restart ag' = ag_restart ag"
  shows "calm ag ag'"
  using assms by (intro calmI [where es = "[]"]) simp_all

lemma calm_files: "calm ag (ag\<lparr>ag_fs := s\<rparr>)"
  by (rule calm_same) (auto simp: service_ok_def)

lemma calm_queue:
  "(queue_wf (ag_queue ag) \<Longrightarrow> queue_wf q \<and> q_maxRetries q = q_maxRetries (ag_queue ag)) \<Longrightarrow> calm ag (ag\<lparr>ag_queue := q\<rparr>)"
  by (rule calm_same) (auto simp: service_ok_def)

lemma calm_kick: "calm ag (kick_inventory ag)"
  by (rule calm_same) (auto simp: service_ok_def kick_inventory_def chan_kick_full)

subsection \<open>Calm handlers\<close>

lemma recordScan_interval: "recordScan sha now items m = Some m' \<Longrightarrow> im_scanIntervalMin m' = im_scanIntervalMin m"
  by (auto simp: recordScan_def Let_def split: option.splits)

lemma calm_inventory: "im_scanIntervalMin m = im_scanIntervalMin (ag_inv ag) \<Longrightarrow> calm ag (ag\<lparr>ag_inv := m\<rparr>)"
  by (rule calm_same) (auto simp: service_ok_def)

lemma calm_ForceScan: "agent_ForceScan env ag = Some ag' \<Longrightarrow> calm ag ag'"
  by (auto simp: agent_ForceScan_def ForceScan_def intro!: calm_inventory recordScan_interval)

lemma calm_ScanIfNeeded: "agent_ScanIfNeeded env ag = Some (changed, ag') \<Longrightarrow> calm ag ag'"
  by (auto simp: agent_ScanIfNeeded_def ScanIfNeeded_def Let_def intro!: calm_inventory
      dest: recordScan_interval split: if_splits option.splits)

lemma calm_sendHash: "calm ag (sendWSInventoryHash env sent force ag)"
proof -
  have "calm ag (emit [HashSent h] (ag\<lparr>ag_hashSent := h, ag_hashAt := t\<rparr>))" for h t
    by (rule calm_trans [OF calm_same calm_emit]) (auto simp: service_ok_def)
  then show ?thesis by (auto simp: sendWSInventoryHash_def Let_def)
qed

lemma calm_tracker:
  "(gm_wf (tr_pending (ag_tracker ag)) \<Longrightarrow> gm_wf (tr_pending t)) \<Longrightarrow> list_all quiet es \<Longrightarrow>
     calm ag (emit es (ag\<lparr>ag_tracker := t\<rparr>))"
  by (rule calm_trans [OF calm_same calm_emit]) (auto simp: service_ok_def)

lemma calm_push: "calm ag (push_announcement env p ag)"
proof -
  obtain shown t where h: "handleAnnouncementPush (gx_now env) p (ag_tracker ag) = (shown, t)" by fastforce
  then have "gm_wf (tr_pending (ag_tracker ag)) \<Longrightarrow> gm_wf (tr_pending t)"
    by (auto simp: handleAnnouncementPush_def tracker_Add_def Let_def gm.wf_put split: if_splits option.splits)
  then show ?thesis
    unfolding push_announcement_def h prod.case by (rule calm_tracker) (auto split: option.splits)
qed

lemma calm_fold: "(\<And>x a. calm a (f x a)) \<Longrightarrow> calm ag (fold f xs ag)"
proof (induction xs arbitrary: ag)
  case (Cons x xs)
  have "calm (f x ag) (fold f xs (f x ag))" using Cons.prems by (rule Cons.IH)
  with Cons.prems show ?case by (simp add: calm_trans [of ag "f x ag"])
qed simp

lemma calm_pushes: "calm ag (push_announcements env raw ag)"
  unfolding push_announcements_def
  by (auto intro!: calm_fold calm_push split: option.splits)

lemma calm_close: "calm ag (close_announcement i ag)"
  by (auto simp: close_announcement_def finishAnnouncement_def tracker_Remove_def gm.wf_del list.pred_map
      intro!: calm_tracker)

lemma calm_submit: "calm ag (submit_inventory b ag)"
  by (auto simp: submit_inventory_def intro!: calm_emit split: option.splits)

lemma calm_RSEnd: "calm ag (handleRSEnd e ag)"
  by (auto simp: handleRSEnd_def intro!: calm_emit split: option.splits)

lemma calm_sender:
  assumes "service_ok ag \<Longrightarrow> hs_wsActive s = b \<and> length (hs_triggerCh s) \<le> 1 \<and> length (hs_results s) \<le> 8 \<and> hs_resultsCap s = Some 8"
  shows "calm ag (ag\<lparr>ag_wsActive := b, ag_sender := s\<rparr>)"
  by (rule calm_same) (use assms in \<open>auto simp: service_ok_def\<close>)

lemma calm_trigger: "calm ag (trigger_heartbeat ag)"
proof -
  have "trigger_heartbeat ag = ag\<lparr>ag_wsActive := ag_wsActive ag, ag_sender := TriggerNow (ag_sender ag)\<rparr>"
    by (simp add: trigger_heartbeat_def)
  also have "calm ag \<dots>" by (rule calm_sender) (auto simp: service_ok_def TriggerNow_def chan_kick_full)
  finally show ?thesis .
qed

lemma calm_connected: "calm ag (on_connected ag)"
  unfolding on_connected_def
  by (rule calm_trans [OF calm_sender calm_kick]) (auto simp: service_ok_def SetWSActive_def)

lemma calm_disconnected: "calm ag (on_disconnected ag)"
  unfolding on_disconnected_def
  by (rule calm_sender) (auto simp: service_ok_def SetWSActive_def TriggerNow_def chan_kick_full)

lemma calm_stage: "agent_stage env changes ag = (err, ag') \<Longrightarrow> calm ag ag'"
  by (auto simp: agent_stage_def intro: calm_files split: prod.splits)

lemma sendOnce_ok:
  assumes "sendOnce env cfg (Some ConsumeAppsChanged) hash remote False (s, q, disk) = (req, s', q', disk')"
    and "hs_resultsCap s = Some 8" and "length (hs_results s) \<le> 8"
  shows "length (hs_results s') \<le> 8 \<and> hs_resultsCap s' = Some 8 \<and> hs_triggerCh s' = hs_triggerCh s \<and>
    hs_wsActive s' = hs_wsActive s"
  using sendOnce_results [OF assms] by auto

text \<open>A turn of the sender: the queue is asked at most once, and the channel keeps its bound.\<close>

lemma hb_turn_ok:
  assumes "hb_turn env cfg (Some ConsumeAppsChanged) hash remote e (s, q, disk) = (sent, s', q', disk')"
    and "hs_resultsCap s = Some 8" and "length (hs_results s) \<le> 8" and "length (hs_triggerCh s) \<le> 1"
  shows "length (hs_results s') \<le> 8 \<and> hs_resultsCap s' = Some 8 \<and> length (hs_triggerCh s') \<le> 1 \<and>
    hs_wsActive s' = hs_wsActive s \<and> q' \<in> {q, snd (ConsumeAppsChanged q)}"
proof -
  have once: ?thesis
    if "sendOnce env cfg (Some ConsumeAppsChanged) hash remote False (s\<lparr>hs_triggerCh := ts\<rparr>, q, disk) = (req, s', q', disk')"
      and "length ts \<le> 1" for ts req
    using sendOnce_ok [OF that(1)] tq_apps.sendOnce_apps(3) [OF that(1)] that(2) assms by simp
  have tick: ?thesis
    if "sendOnce env cfg (Some ConsumeAppsChanged) hash remote False (s, q, disk) = (req, s', q', disk')" for req
    using once [of "hs_triggerCh s" req] that assms(4) by simp
  show ?thesis
    using assms once tick
    by (cases e) (auto simp: hb_turn_def split: if_splits list.splits prod.splits)
qed

lemma q_Consume: "queue_wf q \<Longrightarrow> q' \<in> {q, snd (ConsumeAppsChanged q)} \<Longrightarrow> queue_wf q' \<and> q_maxRetries q' = q_maxRetries q"
  using queue_wf_Consume [of q] by (auto simp: ConsumeAppsChanged_def Let_def)

lemma calm_heartbeat: "calm ag (on_heartbeat env remote e ag)"
proof -
  obtain sent s q disk where t: "hb_turn env (ag_cfg ag) (Some ConsumeAppsChanged) (Some (GetCurrentHash (ag_inv ag)))
      remote e (ag_sender ag, ag_queue ag, ag_fs ag) = (sent, s, q, disk)" by (metis prod_cases4)
  show ?thesis
    unfolding on_heartbeat_def t prod.case
  proof (rule calm_same)
    assume ok: "service_ok ag"
    then have "hs_resultsCap (ag_sender ag) = Some 8" "length (hs_results (ag_sender ag)) \<le> 8"
      "length (hs_triggerCh (ag_sender ag)) \<le> 1" by (auto simp: service_ok_def)
    with hb_turn_ok [OF t] q_Consume [of "ag_queue ag" q] ok
    show "service_ok (ag\<lparr>ag_sender := s, ag_queue := q, ag_fs := disk\<rparr>)" by (auto simp: service_ok_def)
  qed simp_all
qed

text \<open>One turn of the queue.\<close>

lemma calm_executed: "executed env i c ag = Some ag' \<Longrightarrow> calm ag ag'"
proof -
  assume ex: "executed env i c ag = Some ag'"
  obtain res err calls fs' where x: "executeCommand (gx_exec env i) (ag_cfg ag) c (ag_fs ag) = ((res, err), calls, fs')"
    by (metis prod.collapse)
  let ?ag1 = "emit (map (\<lambda>(p, d). InstallerStarted p d) calls) (ag\<lparr>ag_fs := fs'\<rparr>)"
  have "calm (ag\<lparr>ag_fs := fs'\<rparr>) ?ag1" by (rule calm_emit) (auto simp: list_all_iff)
  then have c1: "calm ag ?ag1" by (rule calm_trans [OF calm_files])
  show "calm ag ag'"
  proof (cases err)
    case None
    with ex x obtain ag2 where f: "agent_ForceScan env ?ag1 = Some ag2" and "ag' \<in> {ag2, kick_inventory ag2}"
      by (auto simp: executed_def Let_def split: if_splits)
    then have "calm ag2 ag'" by (auto intro: calm_kick)
    then show ?thesis using c1 calm_ForceScan [OF f] by (blast intro: calm_trans)
  next
    case (Some e)
    with ex x c1 show ?thesis by (simp add: executed_def Let_def)
  qed
qed

lemma executed_queue: "executed env i c ag = Some ag' \<Longrightarrow> ag_queue ag' = ag_queue ag"
  by (auto simp: executed_def Let_def agent_ForceScan_def kick_inventory_def split: prod.splits if_splits)

text \<open>The turn is the queue's: what it does to the queue, and the reports, are \<open>ProcessOne\<close>'s.\<close>

lemma agent_turn_cases:
  assumes "agent_turn env i ag = Some (processed, ag')"
  obtains (idle) q' rs where "\<not> processed" and "ProcessOne (turn_env env i ag) (ag_queue ag) = (False, rs, q')"
      and "ag' = ag\<lparr>ag_queue := q'\<rparr>"
  | (turn) c rs q' ag1 where "processed" and "ProcessOne (turn_env env i ag) (ag_queue ag) = (True, rs, q')"
      and "executed env i c ag = Some ag1"
      and "ag' = emit (map (\<lambda>(t, r). TaskReported t r) rs) (ag1\<lparr>ag_queue := q'\<rparr>)"
proof -
  obtain b rs q' where p: "ProcessOne (turn_env env i ag) (ag_queue ag) = (b, rs, q')" by (metis prod_cases3)
  have some: "nextRunnable (pe_now (turn_env env i ag)) (ag_queue ag) \<noteq> None" if b
    using p that by (auto simp: ProcessOne_def split: option.splits)
  show thesis
  proof (cases b)
    case False
    with assms p show thesis by (intro idle) (auto simp: agent_turn_def)
  next
    case True
    with some obtain c where c: "nextRunnable (pe_now (turn_env env i ag)) (ag_queue ag) = Some c" by blast
    with assms p True obtain ag1 where "executed env i c ag = Some ag1" "processed"
      "ag' = emit (map (\<lambda>(t, r). TaskReported t r) rs) (ag1\<lparr>ag_queue := q'\<rparr>)"
      by (auto simp: agent_turn_def)
    with p True show thesis by (intro turn) auto
  qed
qed

lemma calm_turn: "agent_turn env i ag = Some (b, ag') \<Longrightarrow> calm ag ag'"
proof (erule agent_turn_cases)
  fix q' rs
  assume "ProcessOne (turn_env env i ag) (ag_queue ag) = (False, rs, q')" "ag' = ag\<lparr>ag_queue := q'\<rparr>"
  then show "calm ag ag'" by (auto intro!: calm_queue dest: queue_wf_ProcessOne)
next
  fix c rs q' ag1
  assume p: "ProcessOne (turn_env env i ag) (ag_queue ag) = (True, rs, q')" and ex: "executed env i c ag = Some ag1"
    and ag': "ag' = emit (map (\<lambda>(t, r). TaskReported t r) rs) (ag1\<lparr>ag_queue := q'\<rparr>)"
  have "calm ag1 (ag1\<lparr>ag_queue := q'\<rparr>)"
    using queue_wf_ProcessOne [OF _ p] executed_queue [OF ex] by (intro calm_queue) auto
  moreover have "calm (ag1\<lparr>ag_queue := q'\<rparr>) ag'" unfolding ag' by (rule calm_emit) (auto simp: list_all_iff)
  ultimately show "calm ag ag'" using calm_executed [OF ex] by (blast intro: calm_trans)
qed

lemma calm_drain: "agent_drain env i ag = Some ag' \<Longrightarrow> calm ag ag'"
proof (erule agent_drain.raw_induct [rotated, where P = "\<lambda>env i ag ag'. calm ag ag'"])
  fix drain env i ag ag'
  assume IH: "\<And>env i ag ag'. drain env i ag = Some ag' \<Longrightarrow> calm ag ag'"
    and "(case agent_turn env i ag of None \<Rightarrow> None
          | Some (processed, ag') \<Rightarrow> if processed then drain env (Suc i) ag' else Some ag') = Some ag'"
  then obtain b ag1 where "agent_turn env i ag = Some (b, ag1)" and "ag1 = ag' \<or> drain env (Suc i) ag1 = Some ag'"
    by (auto split: option.splits if_splits)
  then show "calm ag ag'" using calm_turn IH calm_trans by blast
qed

lemma calm_process: "agent_processCommands env commands ag = Some ag' \<Longrightarrow> calm ag ag'"
proof -
  have "calm ag (if commands \<noteq> [] then ag\<lparr>ag_queue := AddCommands commands (ag_queue ag)\<rparr> else ag)"
    by (auto intro!: calm_queue queue_wf_AddCommands)
  then show "agent_processCommands env commands ag = Some ag' \<Longrightarrow> calm ag ag'"
    unfolding agent_processCommands_def by (blast dest: calm_drain intro: calm_trans)
qed

lemma calm_commands: "with_commands env p ag = Some ag' \<Longrightarrow> calm ag ag'"
  by (auto simp: with_commands_def Let_def dest: calm_process split: if_splits)

lemma calm_kicked: "on_inventoryKick env sent ag = Some ag' \<Longrightarrow> calm ag ag'"
proof -
  have k: "calm ag (ag\<lparr>ag_kick := ts\<rparr>)" if "ag_kick ag = t # ts" for t ts
    by (rule calm_same) (use that in \<open>auto simp: service_ok_def\<close>)
  show "on_inventoryKick env sent ag = Some ag' \<Longrightarrow> calm ag ag'"
    by (auto simp: on_inventoryKick_def Let_def dest!: calm_ForceScan
        intro: calm_trans [OF k] calm_trans [OF _ calm_sendHash] split: list.splits if_splits)
qed

lemma calm_ticked: "on_inventoryTick env sent ag = Some ag' \<Longrightarrow> calm ag ag'"
  by (auto simp: on_inventoryTick_def dest!: calm_ScanIfNeeded intro: calm_trans [OF _ calm_sendHash]
      split: if_splits)

subsection \<open>Handing over to the update helper\<close>

definition logged :: "(agent_effect \<Rightarrow> 'a option) \<Rightarrow> Agent \<Rightarrow> 'a list" where
  "logged f ag = List.map_filter f (ag_out ag)"

definition helper_of :: "agent_effect \<Rightarrow> (string \<times> string list) option" where
  "helper_of e = (case e of HelperStarted p as \<Rightarrow> Some (p, as) | _ \<Rightarrow> None)"

definition request_of :: "agent_effect \<Rightarrow> RemoteSupportRequest option" where
  "request_of e = (case e of RSRequested r \<Rightarrow> Some r | _ \<Rightarrow> None)"

lemma logged_append: "ag_out ag' = ag_out ag @ es \<Longrightarrow> logged f ag' = logged f ag @ List.map_filter f es"
  by (simp add: logged_def List.map_filter_def)

lemma map_filter_quiet:
  assumes "list_all quiet es"
  shows "List.map_filter helper_of es = [] \<and> List.map_filter request_of es = []"
  using assms
  by (induction es) (auto simp: List.map_filter_simps helper_of_def request_of_def split: agent_effect.split)

lemma calm_logged: "calm ag ag' \<Longrightarrow> logged helper_of ag' = logged helper_of ag \<and> logged request_of ag' = logged request_of ag"
  by (auto simp: calm_def logged_append dest!: map_filter_quiet)

text \<open>Everything else is steady: it starts no helper and leaves a pending restart pending.\<close>

definition steady :: "Agent \<Rightarrow> Agent \<Rightarrow> bool" where
  "steady ag ag' \<longleftrightarrow> logged helper_of ag' = logged helper_of ag \<and> ag_restart ag' = ag_restart ag \<and>
     (service_ok ag \<longrightarrow> service_ok ag')"

lemma steady_calm: "calm ag ag' \<Longrightarrow> steady ag ag'"
  using calm_logged by (simp add: steady_def) (simp add: calm_def)

lemma steady_refl [simp, intro]: "steady ag ag"
  by (simp add: steady_def)

lemma steady_trans: "steady a b \<Longrightarrow> steady b c \<Longrightarrow> steady a c"
  by (simp add: steady_def)

lemma service_ok_emit: "WSClientStarted \<notin> set es \<Longrightarrow> service_ok (emit es ag) = service_ok ag"
  by (simp add: service_ok_def)

lemma logged_emit [simp]: "logged f (emit es ag) = logged f ag @ List.map_filter f es"
  by (rule logged_append) simp

lemma logged_keep [simp]:
  "logged f (ag\<lparr>ag_storeTray := b\<rparr>) = logged f ag" "logged f (ag\<lparr>ag_wsStarted := b\<rparr>) = logged f ag"
  "logged f (ag\<lparr>ag_inv := m\<rparr>) = logged f ag" "logged f (ag\<lparr>ag_rsEnabled := b\<rparr>) = logged f ag"
  "logged f (ag\<lparr>ag_cfg := c\<rparr>) = logged f ag" "logged f (ag\<lparr>ag_fs := s\<rparr>) = logged f ag"
  "logged f (ag\<lparr>ag_runtime := r\<rparr>) = logged f ag" "logged f (ag\<lparr>ag_restart := rs\<rparr>) = logged f ag"
  "logged f (ag\<lparr>ag_sender := se\<rparr>) = logged f ag" "logged f (ag\<lparr>ag_queue := q\<rparr>) = logged f ag"
  "logged f (ag\<lparr>ag_kick := ks\<rparr>) = logged f ag"
  by (simp_all add: logged_def)

lemma map_filter_of [simp]:
  "List.map_filter f [] = []" "List.map_filter f [e] = (case f e of None \<Rightarrow> [] | Some x \<Rightarrow> [x])"
  "helper_of (TraySetEnabled b) = None" "helper_of WSClientStarted = None" "helper_of (RSRequested r) = None"
  "helper_of (HelperStarted p as) = Some (p, as)" "request_of (RSRequested r) = Some r"
  "request_of (TraySetEnabled b) = None" "request_of WSClientStarted = None" "request_of (HelperStarted p as) = None"
  by (auto simp: List.map_filter_simps helper_of_def request_of_def split: option.split)

lemma steady_scan_interval: "steady ag (set_scan_interval m ag)"
  by (auto simp: steady_def set_scan_interval_def service_ok_def SetScanInterval_def split: option.split)

lemma steady_store_tray: "steady ag (set_store_tray m ag)"
  by (auto simp: steady_def set_store_tray_def service_ok_def split: option.split)

lemma steady_remote_support: "steady ag (set_remote_support m ag)"
  by (auto simp: steady_def set_remote_support_def service_ok_def split: option.split)

lemma steady_runtime: "steady ag (set_runtime m ag)"
  by (auto simp: steady_def set_runtime_def service_ok_def)

lemma steady_websocket: "steady ag (set_websocket env m ag)"
  by (auto simp: steady_def set_websocket_def startWSClient_def save_ws_enabled_def service_ok_def Let_def
      split: option.split)

lemma steady_config: "steady ag (applyServerConfig env c ag)"
  unfolding applyServerConfig_def
  by (auto split: option.split intro!: steady_trans [OF _ steady_runtime] steady_trans [OF _ steady_websocket]
      steady_trans [OF _ steady_remote_support] steady_trans [OF _ steady_store_tray] steady_scan_interval)

lemma steady_RSRequest: "steady ag (handleRSRequest req ag)"
  by (auto simp: steady_def handleRSRequest_def service_ok_emit split: option.split)

text \<open>
  When the helper may be started: nothing is pending in the queue, automatic updates are on, and the
  update described on disk, as it was found or after the staging of the same event, is verified.
\<close>

definition update_ready :: "agent_env \<Rightarrow> Agent \<Rightarrow> string \<times> string list \<Rightarrow> bool" where
  "update_ready env ag started \<longleftrightarrow> PendingCount (ag_queue ag) = 0 \<and> upc_AutoApply (cfg_Update (ag_cfg ag)) \<and>
     (\<exists>m s. (s = ag_fs ag \<or> (\<exists>changes. StageIfNeeded (gx_upd env) (ag_cfg ag) changes (ag_fs ag) = (None, s))) \<and>
        loadStagedUpdate (gx_upd env) (pendingMetaPath (ag_cfg ag)) s = Inr m \<and>
        staged_ok (gx_upd env) (ag_cfg ag) m s \<and>
        started = (upc_HelperPath (cfg_Update (ag_cfg ag)),
                helper_args (ag_cfg ag) (gx_cfgPath env) (gx_serviceExe env) m))"

lemma is_restart_exact [simp]: "is_restart (Some ErrUpdateRestart)" "\<not> is_restart None"
  by (simp_all add: is_restart_def)

lemma agent_apply_cases:
  assumes "agent_apply env ag = (err, ag')"
  obtains (no) "ag' = ag" and "err \<noteq> Some ErrUpdateRestart"
  | (yes) m where "err = Some ErrUpdateRestart" and "PendingCount (ag_queue ag) = 0"
      and "upc_AutoApply (cfg_Update (ag_cfg ag))"
      and "loadStagedUpdate (gx_upd env) (pendingMetaPath (ag_cfg ag)) (ag_fs ag) = Inr m"
      and "staged_ok (gx_upd env) (ag_cfg ag) m (ag_fs ag)"
      and "ag' = emit [HelperStarted (upc_HelperPath (cfg_Update (ag_cfg ag)))
             (helper_args (ag_cfg ag) (gx_cfgPath env) (gx_serviceExe env) m)] ag"
proof -
  obtain e started where a: "applyIfPending (gx_upd env) (ag_cfg ag) (gx_cfgPath env) (gx_serviceExe env) (ag_fs ag) = (e, started)"
    by fastforce
  show thesis
  proof (cases "PendingCount (ag_queue ag) = 0")
    case False
    with assms show thesis by (intro no) (auto simp: agent_apply_def)
  next
    case True
    with assms a have eq: "err = e" "ag' = emit (map (\<lambda>(p, as). HelperStarted p as) started) ag"
      by (auto simp: agent_apply_def)
    from a show thesis
    proof (cases rule: applyIfPending_started)
      case no
      with eq show thesis by (intro that(1)) (simp_all add: emit_def)
    next
      case (yes m)
      with eq True show thesis by (intro that(2) [of m]) simp_all
    qed
  qed
qed

lemma agent_apply_started:
  assumes "agent_apply env ag = (Some ErrUpdateRestart, ag')"
  shows "\<exists>m. PendingCount (ag_queue ag) = 0 \<and> upc_AutoApply (cfg_Update (ag_cfg ag)) \<and>
    loadStagedUpdate (gx_upd env) (pendingMetaPath (ag_cfg ag)) (ag_fs ag) = Inr m \<and>
    staged_ok (gx_upd env) (ag_cfg ag) m (ag_fs ag) \<and>
    ag' = emit [HelperStarted (upc_HelperPath (cfg_Update (ag_cfg ag)))
      (helper_args (ag_cfg ag) (gx_cfgPath env) (gx_serviceExe env) m)] ag"
proof (cases rule: agent_apply_cases [OF assms])
  case (2 m)
  then show ?thesis by (intro exI [of _ m]) simp
qed simp

text \<open>What \<open>applySelfUpdateChanges\<close> does: files and perhaps a restart request, or the hand-over and the restart.\<close>

text \<open>What is staged and then applied without an error in between was ready.\<close>

lemma staged_then_started:
  assumes st: "agent_stage env changes ag = (None, ag2)" and a3: "agent_apply env ag2 = (Some ErrUpdateRestart, ag3)"
  obtains s p as where "update_ready env ag (p, as)" and "ag3 = emit [HelperStarted p as] (ag\<lparr>ag_fs := s\<rparr>)"
proof -
  obtain s2 where ag2: "ag2 = ag\<lparr>ag_fs := s2\<rparr>"
    and staged: "StageIfNeeded (gx_upd env) (ag_cfg ag) changes (ag_fs ag) = (None, s2)"
    using st by (auto simp: agent_stage_def split: prod.splits)
  have keep: "ag_cfg ag2 = ag_cfg ag" "ag_queue ag2 = ag_queue ag" "ag_fs ag2 = s2" by (simp_all add: ag2)
  from agent_apply_started [OF a3] obtain m
    where ready: "PendingCount (ag_queue ag) = 0" "upc_AutoApply (cfg_Update (ag_cfg ag))"
      "loadStagedUpdate (gx_upd env) (pendingMetaPath (ag_cfg ag)) s2 = Inr m"
      "staged_ok (gx_upd env) (ag_cfg ag) m s2"
    and ag3: "ag3 = emit [HelperStarted (upc_HelperPath (cfg_Update (ag_cfg ag)))
         (helper_args (ag_cfg ag) (gx_cfgPath env) (gx_serviceExe env) m)] ag2"
    unfolding keep by blast
  from staged ready have "update_ready env ag (upc_HelperPath (cfg_Update (ag_cfg ag)),
      helper_args (ag_cfg ag) (gx_cfgPath env) (gx_serviceExe env) m)"
    unfolding update_ready_def by blast
  with ag3 show thesis unfolding ag2 by (intro that)
qed

lemma applySelfUpdateChanges_cases:
  obtains (quiet) ag1 where "calm ag ag1"
      and "applySelfUpdateChanges env changes ag \<in> {ag1, requestRestart ''self-update apply'' ag1}"
  | (started) s p as where "update_ready env ag (p, as)"
      and "applySelfUpdateChanges env changes ag =
             requestRestart ''self-update apply'' (emit [HelperStarted p as] (ag\<lparr>ag_fs := s\<rparr>))"
proof (cases "changes = []")
  case True
  then show thesis by (intro quiet [of ag]) (simp_all add: applySelfUpdateChanges_def)
next
  case ne: False
  obtain err1 ag1 where a1: "agent_apply env ag = (err1, ag1)" by fastforce
  show thesis
  proof (cases rule: agent_apply_cases [OF a1])
    case (2 m)
    then have "applySelfUpdateChanges env changes ag = requestRestart ''self-update apply'' ag1"
      using ne a1 by (simp add: applySelfUpdateChanges_def)
    with 2 show thesis
      by (intro started [of _ _ "ag_fs ag"]) (auto simp: update_ready_def)
  next
    case 1
    obtain err2 ag2 where st: "agent_stage env changes ag = (err2, ag2)" by fastforce
    obtain err3 ag3 where a3: "agent_apply env ag2 = (err3, ag3)" by fastforce
    have eq: "applySelfUpdateChanges env changes ag =
        (if is_restart err1 then requestRestart ''self-update apply'' ag
         else if err2 \<noteq> None then ag2 else if is_restart err3 then requestRestart ''self-update apply'' ag3 else ag3)"
      using ne a1 st a3 1 by (auto simp: applySelfUpdateChanges_def split: option.splits)
    show thesis
    proof (cases "\<not> is_restart err1 \<and> err2 = None \<and> err3 = Some ErrUpdateRestart")
      case False
      show thesis
      proof (cases rule: agent_apply_cases [OF a3])
        case 1
        then show thesis
          using eq calm_stage [OF st] by (intro quiet [of "if is_restart err1 then ag else ag2"]) auto
      next
        case (2 m)
        with False eq calm_stage [OF st] show thesis
          by (intro quiet [of "if is_restart err1 then ag else ag2"]) auto
      qed
    next
      case True
      with st a3 have "agent_stage env changes ag = (None, ag2)" "agent_apply env ag2 = (Some ErrUpdateRestart, ag3)"
        by simp_all
      then obtain p as s where "update_ready env ag (p, as)" "ag3 = emit [HelperStarted p as] (ag\<lparr>ag_fs := s\<rparr>)"
        by (rule staged_then_started)
      with eq True show thesis by (intro started) auto
    qed
  qed
qed

lemma requestRestart_ok [simp]:
  "ag_restart (requestRestart r ag) \<noteq> []" "logged f (requestRestart r ag) = logged f ag"
  "service_ok ag \<Longrightarrow> service_ok (requestRestart r ag)"
  by (auto simp: requestRestart_def service_ok_def chan_try_send_bound chan_try_send_nonempty)

text \<open>
  What an event may do: start no helper, or start one that is ready and have the service restart.
\<close>

definition hands_over :: "agent_env option \<Rightarrow> loop_result \<Rightarrow> Agent \<Rightarrow> Agent \<Rightarrow> bool" where
  "hands_over env res ag ag' \<longleftrightarrow> logged helper_of ag' = logged helper_of ag \<or>
     (\<exists>e started. env = Some e \<and> update_ready e ag started \<and> logged helper_of ag' = logged helper_of ag @ [started] \<and>
        (res = Return (Some ErrUpdateRestart) \<or> ag_restart ag' \<noteq> []))"

definition fine :: "agent_env option \<Rightarrow> loop_result \<Rightarrow> Agent \<Rightarrow> Agent \<Rightarrow> bool" where
  "fine env res ag ag' \<longleftrightarrow> hands_over env res ag ag' \<and> (service_ok ag \<longrightarrow> service_ok ag')"

lemma fine_steady: "steady ag ag' \<Longrightarrow> fine env res ag ag'"
  by (simp add: fine_def hands_over_def steady_def)

lemmas fine_calm = fine_steady [OF steady_calm]

lemma fine_self_update:
  assumes "steady (applySelfUpdateChanges env changes ag) ag'"
  shows "fine (Some env) res ag ag'"
proof (cases rule: applySelfUpdateChanges_cases [of ag env changes])
  case (quiet ag1)
  then have "logged helper_of (applySelfUpdateChanges env changes ag) = logged helper_of ag"
    and "service_ok ag \<longrightarrow> service_ok (applySelfUpdateChanges env changes ag)"
    using calm_logged [of ag ag1] by (auto simp: calm_def)
  with assms show ?thesis by (simp add: fine_def hands_over_def steady_def)
next
  case (started s p as)
  let ?ag1 = "emit [HelperStarted p as] (ag\<lparr>ag_fs := s\<rparr>)"
  have "service_ok ag \<longrightarrow> service_ok ?ag1" by (simp add: service_ok_def)
  with assms started(2) have "logged helper_of ag' = logged helper_of ag @ [(p, as)]"
    and "ag_restart ag' \<noteq> []" and "service_ok ag \<longrightarrow> service_ok ag'"
    by (auto simp: steady_def)
  with started(1) show ?thesis by (auto simp: fine_def hands_over_def)
qed

lemma steady_hello:
  assumes "on_serverHello env p ag = Some ag'"
  obtains changes where "as_map (jget_any p ''config'') = Some changes"
      and "steady (applySelfUpdateChanges env changes ag) ag'"
  | "as_map (jget_any p ''config'') = None" and "steady ag ag'"
proof -
  define ag1 where "ag1 = (case as_map (jget_any p ''config'') of
            None \<Rightarrow> ag | Some c \<Rightarrow> applyServerConfig env (Some c) (applySelfUpdateChanges env c ag))"
  let ?ag2 = "push_announcements env (jget_any p ''pending_announcements'') ag1"
  from assms obtain ag3 where "with_commands env p ?ag2 = Some ag3"
    and ag': "ag' = handleRSEnd (parseRSEndFromPayload p) (handleRSRequest (parseRSRequestFromPayload p) ag3)"
    unfolding on_serverHello_def Let_def ag1_def by auto
  then have "steady ?ag2 ag3" by (intro steady_calm calm_commands)
  then have "steady ag1 ag3" by (rule steady_trans [OF steady_calm [OF calm_pushes]])
  then have rest: "steady ag1 ag'"
    unfolding ag' by (intro steady_trans [OF _ steady_calm [OF calm_RSEnd]] steady_trans [OF _ steady_RSRequest])
  show thesis
  proof (cases "as_map (jget_any p ''config'')")
    case None
    with rest show thesis by (intro that(2)) (simp_all add: ag1_def)
  next
    case (Some c)
    with rest steady_config show thesis by (intro that(1)) (auto simp: ag1_def intro: steady_trans)
  qed
qed

lemma fine_callback:
  assumes "on_callback env cb p ag = Some ag'"
  shows "fine (Some env) res ag ag'"
proof (cases cb)
  case OnServerHello
  with assms have "on_serverHello env p ag = Some ag'" by (simp add: on_callback_def)
  then show ?thesis by (rule steady_hello) (auto intro: fine_self_update fine_steady)
next
  case OnSignal
  with assms show ?thesis by (auto simp: on_callback_def intro: fine_calm calm_trigger)
next
  case OnServerCommand
  with assms show ?thesis by (auto simp: on_callback_def intro: fine_calm calm_commands)
next
  case OnRSRequest
  with assms show ?thesis by (auto simp: on_callback_def intro: fine_steady steady_RSRequest)
next
  case OnRSEnd
  with assms show ?thesis by (auto simp: on_callback_def intro: fine_calm calm_RSEnd)
next
  case OnConfigPatch
  with assms show ?thesis
    by (auto simp: on_callback_def intro: fine_steady fine_self_update [OF steady_config] split: option.splits)
next
  case OnInventorySyncRequired
  with assms show ?thesis by (auto simp: on_callback_def intro: fine_calm calm_trigger)
next
  case OnBroadcastRestart
  with assms show ?thesis
    by (auto simp: on_callback_def fine_def hands_over_def)
next
  case OnBroadcastSelfUpdate
  with assms show ?thesis
    by (auto simp: on_callback_def intro: fine_steady fine_self_update split: if_splits)
next
  case OnAnnouncementPush
  with assms show ?thesis by (auto simp: on_callback_def intro: fine_calm calm_push)
qed

lemma fine_pollResult:
  assumes "on_pollResult env r ag = Some (res, ag')"
  shows "fine (Some env) res ag ag'"
proof -
  obtain err ag1 where a: "agent_apply env ag = (err, ag1)" by fastforce
  show ?thesis
  proof (cases rule: agent_apply_cases [OF a])
    case (2 m)
    with assms a have "res = Return (Some ErrUpdateRestart)" "ag' = ag1" by (auto simp: on_pollResult_def)
    with 2 show ?thesis by (auto simp: fine_def hands_over_def update_ready_def service_ok_emit)
  next
    case 1
    define ag2 where "ag2 = snd (agent_stage env (config_map (pr_Config r)) ag)"
    define ag3 where "ag3 = handleRSEnd (pr_RemoteSupportEnd r)
      (handleRSRequest (pr_RemoteSupportRequest r) (applyServerConfig env (pr_Config r) ag2))"
    define ag5 where "ag5 = fold (push_announcement env) (pr_PendingAnnouncements r) ag3"
    have s2: "steady ag ag2" unfolding ag2_def by (metis calm_stage prod.collapse steady_calm)
    have "steady ag2 ag3" unfolding ag3_def
      by (intro steady_trans [OF _ steady_calm [OF calm_RSEnd]] steady_trans [OF _ steady_RSRequest] steady_config)
    with s2 have "steady ag ag3" by (rule steady_trans)
    then have s5: "steady ag ag5" unfolding ag5_def by (rule steady_trans) (intro steady_calm calm_fold calm_push)
    show ?thesis
    proof (cases "is_restart err")
      case True
      with assms a 1 show ?thesis by (auto simp: on_pollResult_def intro: fine_steady)
    next
      case False
      with assms a 1 obtain changed ag6 where scan: "agent_ScanIfNeeded env ag5 = Some (changed, ag6)"
        and cmds: "agent_processCommands env (pr_Commands r) (submit_inventory (pr_InventorySyncRequired r) ag6) = Some ag'"
        unfolding on_pollResult_def Let_def ag5_def ag3_def ag2_def
        by (auto simp: bind_eq_Some_conv)
      from calm_ScanIfNeeded [OF scan] calm_submit calm_process [OF cmds] have "calm ag5 ag'"
        by (blast intro: calm_trans)
      with s5 show ?thesis by (intro fine_steady) (blast intro: steady_trans steady_calm)
    qed
  qed
qed

definition event_env :: "agent_event \<Rightarrow> agent_env option" where
  "event_env e = (case e of PollArrived env \<Rightarrow> Some env | WsCalled env cb p \<Rightarrow> Some env | _ \<Rightarrow> None)"

lemma fine_cong: "fine env res (ag\<lparr>ag_sender := s\<rparr>) ag' \<Longrightarrow> (service_ok ag \<Longrightarrow> service_ok (ag\<lparr>ag_sender := s\<rparr>)) \<Longrightarrow> fine env res ag ag'"
  by (auto simp: fine_def hands_over_def update_ready_def)

lemma fine_poll:
  assumes "on_poll env ag = Some (res, ag')"
  shows "fine (Some env) res ag ag'"
proof (cases "hs_results (ag_sender ag)")
  case Nil
  with assms show ?thesis by (auto simp: on_poll_def intro: fine_steady)
next
  case (Cons r rs)
  with assms have "on_pollResult env r (ag\<lparr>ag_sender := (ag_sender ag)\<lparr>hs_results := rs\<rparr>\<rparr>) = Some (res, ag')"
    by (simp add: on_poll_def)
  then show ?thesis
  proof (intro fine_cong [OF fine_pollResult])
    assume "service_ok ag"
    with Cons show "service_ok (ag\<lparr>ag_sender := (ag_sender ag)\<lparr>hs_results := rs\<rparr>\<rparr>)" by (simp add: service_ok_def)
  qed
qed

lemma fine_step:
  assumes "agent_step e ag = Some (res, ag')"
  shows "fine (event_env e) res ag ag'"
proof (cases e)
  case (PollArrived env)
  with assms show ?thesis by (simp add: event_env_def fine_poll)
next
  case RestartArrived
  with assms show ?thesis
    by (auto simp: on_restart_def fine_def hands_over_def service_ok_def split: list.splits)
next
  case (InventoryKicked env sent)
  with assms show ?thesis by (auto simp: continuing_def intro: fine_calm calm_kicked)
next
  case (InventoryTicked env sent)
  with assms show ?thesis by (auto simp: continuing_def intro: fine_calm calm_ticked)
next
  case (HeartbeatTurn env remote he)
  with assms show ?thesis by (auto intro: fine_calm calm_heartbeat)
next
  case WsConnected
  with assms show ?thesis by (auto intro: fine_calm calm_connected)
next
  case WsDisconnected
  with assms show ?thesis by (auto intro: fine_calm calm_disconnected)
next
  case (WsCalled env cb p)
  with assms show ?thesis by (auto simp: continuing_def event_env_def intro: fine_callback)
next
  case (AnnouncementClosed i)
  with assms show ?thesis by (auto intro: fine_calm calm_close)
next
  case ContextDone
  with assms show ?thesis by (auto intro: fine_steady)
qed

text \<open>C1. The update helper is started only when it should be: an event of the running service starts at
  most one, and then no task was pending in the queue, automatic updates are on, the update described
  on disk (as the event found it, or after its own staging) is verified by its hash and newer or
  forced, the helper gets exactly that file, and the service returns for the restart or has the
  restart waiting in its channel.\<close>

theorem helper_started_when_ready:
  assumes "agent_step e ag = Some (res, ag')" and "logged helper_of ag' \<noteq> logged helper_of ag"
  shows "(res = Return (Some ErrUpdateRestart) \<or> ag_restart ag' \<noteq> []) \<and>
    PendingCount (ag_queue ag) = 0 \<and> upc_AutoApply (cfg_Update (ag_cfg ag)) \<and>
    (\<exists>env m s. event_env e = Some env \<and>
       (s = ag_fs ag \<or> (\<exists>changes. StageIfNeeded (gx_upd env) (ag_cfg ag) changes (ag_fs ag) = (None, s))) \<and>
       loadStagedUpdate (gx_upd env) (pendingMetaPath (ag_cfg ag)) s = Inr m \<and> staged_ok (gx_upd env) (ag_cfg ag) m s \<and>
       logged helper_of ag' = logged helper_of ag @ [(upc_HelperPath (cfg_Update (ag_cfg ag)),
         helper_args (ag_cfg ag) (gx_cfgPath env) (gx_serviceExe env) m)])"
proof -
  from fine_step [OF assms(1)] assms(2) obtain env started where env: "event_env e = Some env"
    and ready: "update_ready env ag started" and log: "logged helper_of ag' = logged helper_of ag @ [started]"
    and res: "res = Return (Some ErrUpdateRestart) \<or> ag_restart ag' \<noteq> []"
    by (auto simp: fine_def hands_over_def)
  from ready show ?thesis unfolding update_ready_def using env log res by auto
qed

lemma startAgent_started:
  assumes "startAgent senv s0 = Some (Inr ag0)"
  obtains cfg s im where "ForceScan (sx_sha senv) (sx_now senv) (sx_scan senv) InventoryNewManager = Some im"
    and "ag0 = (if wsc_Enabled (cfg_WebSocket cfg) then startWSClient (newAgent senv cfg s im) else newAgent senv cfg s im)"
proof -
  obtain err s1 where e: "EnsureExists (sx_orc senv) (sx_marshal senv) (sx_cfgPath senv) s0 = (err, s1)" by fastforce
  with assms have err: "err = None" by (auto simp: startAgent_def split: option.splits)
  with assms e obtain cfg where l: "Load (sx_orc senv) (sx_unmarshal senv) (sx_host senv) (sx_cfgPath senv) s1 = Inr cfg"
    by (auto simp: startAgent_def split: sum.splits)
  obtain warning cfg1 s2 where b: "bootstrapAgent (sx_api senv) (sx_orc senv) (sx_marshal senv)
      (resolveWritableConfigPath (he_getenv (sx_host senv))) (ApiNewClient (cfg_Server cfg))
      (sx_uuid senv) (sx_hw senv) (cfg, s1) = (warning, cfg1, s2)" by (metis prod_cases3)
  from assms e err l b show thesis
    by (cases "sx_logger senv"; cases "ForceScan (sx_sha senv) (sx_now senv) (sx_scan senv) InventoryNewManager")
      (auto simp: startAgent_def Let_def intro: that)
qed

text \<open>C23. In every run of the service, whatever the server sends and in whatever order the handlers run: the
  task queue and the announcement tracker stay well-formed, every channel respects its capacity, the
  heartbeat sees the same WebSocket flag as the service, the scan interval is positive, and the
  WebSocket client is started at most once, and has been whenever the configuration enables it.\<close>

theorem service_invariant:
  assumes "startAgent senv s0 = Some (Inr ag0)" and "agent_run es ag0 = Some (res, ag)"
  shows "service_ok ag"
proof -
  have fresh: "service_ok (newAgent env cfg s im)" if "\<not> wsc_Enabled (cfg_WebSocket cfg)" "0 < im_scanIntervalMin im" for env cfg s im
    using that queue_wf_New [of 3]
    by (simp add: service_ok_def newAgent_def SetWSActive_def NewSender_def NewTracker_def NewTaskQueue_def Let_def split_def)
  have fresh_ws: "service_ok (startWSClient (newAgent env cfg s im))" if "0 < im_scanIntervalMin im" for env cfg s im
    using that queue_wf_New [of 3]
    by (simp add: service_ok_def startWSClient_def newAgent_def SetWSActive_def NewSender_def NewTracker_def NewTaskQueue_def Let_def split_def)
  have "0 < im_scanIntervalMin im" if "ForceScan sha now scan InventoryNewManager = Some im" for sha now scan im
    using recordScan_interval [of sha now scan InventoryNewManager im] that by (simp add: ForceScan_def InventoryNewManager_def)
  with startAgent_started [OF assms(1)] fresh fresh_ws have "service_ok ag0" by metis
  with assms(2) show ?thesis
  proof (induction es arbitrary: ag0)
    case (Cons e es)
    then show ?case using fine_step [of e ag0]
      by (auto simp: fine_def split: option.splits prod.splits loop_result.splits)
  qed simp
qed

subsection \<open>The remote support policy\<close>

text \<open>
  The abstract service: whether remote support is allowed, and the requests handed to the session
  manager. Its messages are a configuration of the server and a request of the server.
\<close>

datatype rs_message = PolicyMsg "payload option" | RequestMsg "RemoteSupportRequest option"

fun rs_spec :: "rs_message \<Rightarrow> bool \<times> RemoteSupportRequest list \<Rightarrow> bool \<times> RemoteSupportRequest list" where
  "rs_spec (PolicyMsg config) (allowed, started) = (config_bool config ''remote_support_enabled'' allowed, started)"
| "rs_spec (RequestMsg None) (allowed, started) = (allowed, started)"
| "rs_spec (RequestMsg (Some req)) (allowed, started) = (allowed, if allowed then started @ [req] else started)"

definition rs_view :: "Agent \<Rightarrow> bool \<times> RemoteSupportRequest list" where
  "rs_view ag = (ag_rsEnabled ag, logged request_of ag)"

text \<open>The messages an event brings: the configuration always comes before the request of the same answer.\<close>

definition rs_messages :: "agent_event \<Rightarrow> Agent \<Rightarrow> rs_message list" where
  "rs_messages e ag =
     (case e of
        PollArrived env \<Rightarrow>
          (case hs_results (ag_sender ag) of
             [] \<Rightarrow> [] | r # rs \<Rightarrow> [PolicyMsg (pr_Config r), RequestMsg (pr_RemoteSupportRequest r)])
      | WsCalled env cb p \<Rightarrow>
          (case cb of
             OnServerHello \<Rightarrow> [PolicyMsg (as_map (jget_any p ''config'')), RequestMsg (parseRSRequestFromPayload p)]
           | OnConfigPatch \<Rightarrow> [PolicyMsg (as_map (jget_any p ''changes''))]
           | OnRSRequest \<Rightarrow> [RequestMsg (parseRSRequestFromPayload p)]
           | _ \<Rightarrow> [])
      | _ \<Rightarrow> [])"

fun run_messages :: "agent_event list \<Rightarrow> Agent \<Rightarrow> rs_message list" where
  "run_messages [] ag = []"
| "run_messages (e # es) ag =
     (case agent_step e ag of
        Some (Continue, ag') \<Rightarrow> rs_messages e ag @ run_messages es ag'
      | _ \<Rightarrow> [])"

lemma rs_view_calm: "calm ag ag' \<Longrightarrow> rs_view ag' = rs_view ag"
  using calm_logged by (simp add: rs_view_def) (simp add: calm_def)

lemma rs_view_config: "rs_view (applyServerConfig env c ag) = rs_spec (PolicyMsg c) (rs_view ag)"
proof -
  have s1: "rs_view (set_scan_interval m ag) = rs_view ag" for m ag
    by (simp add: rs_view_def set_scan_interval_def split: option.split)
  have s2: "rs_view (set_store_tray m ag) = rs_view ag" for m ag
    by (simp add: rs_view_def set_store_tray_def split: option.split)
  have s3: "rs_view (set_remote_support m ag) = rs_spec (PolicyMsg (Some m)) (rs_view ag)" for m ag
    by (simp add: rs_view_def set_remote_support_def config_bool_def split: option.split)
  have s4: "rs_view (set_websocket env m ag) = rs_view ag" for m ag
    by (simp add: rs_view_def set_websocket_def startWSClient_def save_ws_enabled_def Let_def split: option.split)
  have s5: "rs_view (set_runtime m ag) = rs_view ag" for m ag
    by (simp add: rs_view_def set_runtime_def)
  show ?thesis
  proof (cases c)
    case None
    then show ?thesis by (simp add: applyServerConfig_def rs_view_def config_bool_def)
  next
    case (Some m)
    then show ?thesis by (simp only: applyServerConfig_def option.case s1 s2 s3 s4 s5)
  qed
qed

lemma rs_view_request: "rs_view (handleRSRequest req ag) = rs_spec (RequestMsg req) (rs_view ag)"
  by (cases req) (simp_all add: handleRSRequest_def rs_view_def)

lemma rs_view_self_update: "rs_view (applySelfUpdateChanges env changes ag) = rs_view ag"
proof -
  have r: "rs_view (requestRestart reason ag) = rs_view ag" for reason ag
    by (simp add: rs_view_def) (simp add: requestRestart_def)
  show ?thesis
    by (cases rule: applySelfUpdateChanges_cases [of ag env changes])
      (auto simp: r rs_view_calm, simp add: rs_view_def)
qed

lemma rs_view_hello:
  assumes "on_serverHello env p ag = Some ag'"
  shows "rs_view ag' = rs_spec (RequestMsg (parseRSRequestFromPayload p))
    (rs_spec (PolicyMsg (as_map (jget_any p ''config''))) (rs_view ag))"
proof -
  define ag1 where "ag1 = (case as_map (jget_any p ''config'') of
            None \<Rightarrow> ag | Some c \<Rightarrow> applyServerConfig env (Some c) (applySelfUpdateChanges env c ag))"
  have v1: "rs_view ag1 = rs_spec (PolicyMsg (as_map (jget_any p ''config''))) (rs_view ag)"
    by (cases "as_map (jget_any p ''config'')")
      (simp_all add: ag1_def rs_view_config rs_view_self_update, simp add: rs_view_def config_bool_def)
  from assms obtain ag3 where c: "with_commands env p (push_announcements env (jget_any p ''pending_announcements'') ag1) = Some ag3"
    and ag': "ag' = handleRSEnd (parseRSEndFromPayload p) (handleRSRequest (parseRSRequestFromPayload p) ag3)"
    unfolding on_serverHello_def Let_def ag1_def by auto
  have "rs_view ag3 = rs_view ag1"
    using rs_view_calm [OF calm_commands [OF c]] rs_view_calm [OF calm_pushes] by simp
  then show ?thesis
    unfolding ag' rs_view_calm [OF calm_RSEnd] rs_view_request v1 by simp
qed

lemma rs_view_poll:
  assumes "on_pollResult env r ag = Some (Continue, ag')"
  shows "rs_view ag' = rs_spec (RequestMsg (pr_RemoteSupportRequest r)) (rs_spec (PolicyMsg (pr_Config r)) (rs_view ag))"
proof -
  obtain err ag1 where a: "agent_apply env ag = (err, ag1)" by fastforce
  with assms have nr: "\<not> is_restart err" by (auto simp: on_pollResult_def)
  have ag1: "ag1 = ag" using nr by (cases rule: agent_apply_cases [OF a]) auto
  define ag2 where "ag2 = snd (agent_stage env (config_map (pr_Config r)) ag)"
  define ag3 where "ag3 = handleRSEnd (pr_RemoteSupportEnd r)
    (handleRSRequest (pr_RemoteSupportRequest r) (applyServerConfig env (pr_Config r) ag2))"
  define ag5 where "ag5 = fold (push_announcement env) (pr_PendingAnnouncements r) ag3"
  from assms a nr ag1 obtain changed ag6 where scan: "agent_ScanIfNeeded env ag5 = Some (changed, ag6)"
    and cmds: "agent_processCommands env (pr_Commands r) (submit_inventory (pr_InventorySyncRequired r) ag6) = Some ag'"
    unfolding on_pollResult_def Let_def ag5_def ag3_def ag2_def by (auto simp: bind_eq_Some_conv)
  have "rs_view ag' = rs_view ag5"
    using rs_view_calm [OF calm_process [OF cmds]] rs_view_calm [OF calm_submit] rs_view_calm [OF calm_ScanIfNeeded [OF scan]]
    by simp
  also have "\<dots> = rs_view ag3" unfolding ag5_def by (intro rs_view_calm calm_fold calm_push)
  also have "\<dots> = rs_spec (RequestMsg (pr_RemoteSupportRequest r)) (rs_spec (PolicyMsg (pr_Config r)) (rs_view ag2))"
    unfolding ag3_def rs_view_calm [OF calm_RSEnd] rs_view_request rs_view_config ..
  also have "rs_view ag2 = rs_view ag"
    unfolding ag2_def by (metis calm_stage prod.collapse rs_view_calm)
  finally show ?thesis .
qed

lemma rs_view_callback:
  assumes "on_callback env cb p ag = Some ag'"
  shows "rs_view ag' = fold rs_spec (rs_messages (WsCalled env cb p) ag) (rs_view ag)"
proof -
  have r: "rs_view (requestRestart reason ag) = rs_view ag" for reason ag
    by (simp add: rs_view_def) (simp add: requestRestart_def)
  show ?thesis
  proof (cases cb)
    case OnServerHello
    with assms show ?thesis by (simp add: on_callback_def rs_messages_def rs_view_hello)
  next
    case OnConfigPatch
    with assms show ?thesis
      by (cases "as_map (jget_any p ''changes'')")
        (auto simp: on_callback_def rs_messages_def rs_view_config rs_view_self_update, simp add: rs_view_def config_bool_def)
  next
    case OnServerCommand
    with assms show ?thesis by (simp add: on_callback_def rs_messages_def rs_view_calm calm_commands)
  next
    case OnRSRequest
    with assms show ?thesis by (auto simp: on_callback_def rs_messages_def rs_view_request)
  qed (use assms in \<open>auto simp: on_callback_def rs_messages_def r rs_view_self_update rs_view_calm calm_trigger
      calm_RSEnd calm_push split: if_splits\<close>)
qed

lemma rs_view_step:
  assumes "agent_step e ag = Some (res, ag')"
  shows "rs_view ag' = (case res of Continue \<Rightarrow> fold rs_spec (rs_messages e ag) (rs_view ag) | Return err \<Rightarrow> rs_view ag)"
proof (cases e)
  case (PollArrived env)
  show ?thesis
  proof (cases "hs_results (ag_sender ag)")
    case Nil
    with assms PollArrived show ?thesis by (auto simp: on_poll_def rs_messages_def)
  next
    case (Cons r rs)
    let ?ag = "ag\<lparr>ag_sender := (ag_sender ag)\<lparr>hs_results := rs\<rparr>\<rparr>"
    from assms PollArrived Cons have p: "on_pollResult env r ?ag = Some (res, ag')" by (simp add: on_poll_def)
    have same: "rs_view ?ag = rs_view ag" by (simp add: rs_view_def)
    show ?thesis
    proof (cases res)
      case Continue
      with rs_view_poll [of env r ?ag ag'] p same PollArrived Cons show ?thesis by (simp add: rs_messages_def)
    next
      case (Return err)
      obtain err1 ag1 where a: "agent_apply env ?ag = (err1, ag1)" by fastforce
      with p Return have "ag' = ag1"
        by (auto simp: on_pollResult_def Let_def bind_eq_Some_conv split: if_splits)
      with same Return show ?thesis by (cases rule: agent_apply_cases [OF a]) (auto simp: rs_view_def)
    qed
  qed
next
  case RestartArrived
  with assms show ?thesis by (auto simp: on_restart_def rs_messages_def rs_view_def split: list.splits)
next
  case (WsCalled env cb p)
  with assms show ?thesis by (auto simp: continuing_def dest: rs_view_callback)
next
  case (InventoryKicked env sent)
  with assms show ?thesis by (auto simp: continuing_def rs_messages_def rs_view_calm [OF calm_kicked])
next
  case (InventoryTicked env sent)
  with assms show ?thesis by (auto simp: continuing_def rs_messages_def rs_view_calm [OF calm_ticked])
qed (use assms in \<open>auto simp: rs_messages_def rs_view_calm calm_heartbeat calm_connected calm_disconnected calm_close\<close>)

text \<open>C19. Remote support follows the server's policy: in every run of the service the requests handed to the
  session manager, and whether remote support is allowed, are those of the abstract service, in which
  a request counts only while the last policy received allows it, and the configuration of an answer
  takes effect before the request in the same answer. Nothing else the service does, installing,
  updating, scanning, changes either.\<close>

theorem remote_support_policy:
  assumes "agent_run es ag = Some (res, ag')"
  shows "rs_view ag' = fold rs_spec (run_messages es ag) (rs_view ag)"
  using assms
proof (induction es arbitrary: ag)
  case (Cons e es)
  then show ?case using rs_view_step [of e ag]
    by (auto split: option.splits prod.splits loop_result.splits)
qed simp

subsection \<open>Draining the queue\<close>

text \<open>
  The loop over \<open>ProcessOne\<close> in the service implements the one of the queue's theory: the executions
  of the abstract loop are \<open>executeCommand\<close> on the files as they are at each turn.
\<close>

definition install_of :: "agent_effect \<Rightarrow> (string \<times> string option) option" where
  "install_of e = (case e of InstallerStarted p d \<Rightarrow> Some (p, d) | _ \<Rightarrow> None)"

definition report_of :: "agent_effect \<Rightarrow> task_report option" where
  "report_of e = (case e of TaskReported i r \<Rightarrow> Some (i, r) | _ \<Rightarrow> None)"

text \<open>A scan panics when it finds nothing, so the service survives a success only if it finds something.\<close>

definition scans_ok :: "agent_env \<Rightarrow> bool" where
  "scans_ok env \<longleftrightarrow> gx_scan env \<noteq> [] \<and> (\<forall>zs. 12 \<le> length (gx_sha env zs))"

lemma scans_ok_ForceScan:
  "scans_ok env \<Longrightarrow> \<exists>m. agent_ForceScan env ag = Some (ag\<lparr>ag_inv := m\<rparr>)"
  by (auto simp: scans_ok_def agent_ForceScan_def ForceScan_def recordScan_def computeHash_def slice_to_def Let_def)

lemma map_filter_effects [simp]:
  "List.map_filter report_of (map (\<lambda>(p, d). InstallerStarted p d) calls) = []"
  "List.map_filter install_of (map (\<lambda>(p, d). InstallerStarted p d) calls) = calls"
  "List.map_filter report_of (map (\<lambda>(t, r). TaskReported t r) rs) = rs"
  "List.map_filter install_of (map (\<lambda>(t, r). TaskReported t r) rs) = []"
proof -
  show "List.map_filter report_of (map (\<lambda>(p, d). InstallerStarted p d) calls) = []"
    and "List.map_filter install_of (map (\<lambda>(p, d). InstallerStarted p d) calls) = calls"
    by (induction calls) (auto simp: List.map_filter_simps report_of_def install_of_def)
  show "List.map_filter report_of (map (\<lambda>(t, r). TaskReported t r) rs) = rs"
    and "List.map_filter install_of (map (\<lambda>(t, r). TaskReported t r) rs) = []"
    by (induction rs) (auto simp: List.map_filter_simps report_of_def install_of_def)
qed

lemma executeCommand_calls: "executeCommand env cfg cmd s = (r, calls, s') \<Longrightarrow> length calls \<le> 1"
  by (cases r; auto elim!: executeCommand_cases simp: runInstaller_def Let_def split: prod.splits option.splits)

lemma executed_some:
  assumes "scans_ok env"
  shows "\<exists>ag'. executed env i c ag = Some ag' \<and> ag_queue ag' = ag_queue ag \<and> ag_cfg ag' = ag_cfg ag \<and>
    logged report_of ag' = logged report_of ag \<and> length (logged install_of ag') \<le> length (logged install_of ag) + 1"
proof -
  obtain res err calls fs' where x: "executeCommand (gx_exec env i) (ag_cfg ag) c (ag_fs ag) = ((res, err), calls, fs')"
    by (metis prod.collapse)
  let ?ag1 = "emit (map (\<lambda>(p, d). InstallerStarted p d) calls) (ag\<lparr>ag_fs := fs'\<rparr>)"
  obtain m where m: "agent_ForceScan env ?ag1 = Some (?ag1\<lparr>ag_inv := m\<rparr>)" using scans_ok_ForceScan [OF assms] by blast
  show ?thesis
    using executeCommand_calls [OF x] by (simp add: executed_def x m Let_def kick_inventory_def)
qed

lemma turn_env_keeps: "ag_cfg ag' = ag_cfg ag \<Longrightarrow> turn_env env j (ag'\<lparr>ag_fs := s\<rparr>) = turn_env env j (ag\<lparr>ag_fs := s\<rparr>)"
  by (simp add: turn_env_def)

lemma agent_turn_some:
  assumes "scans_ok env" and "ProcessOne (turn_env env i ag) (ag_queue ag) = (True, rs, q')"
  shows "\<exists>ag'. agent_turn env i ag = Some (True, ag') \<and> ag_queue ag' = q' \<and> ag_cfg ag' = ag_cfg ag \<and>
    logged report_of ag' = logged report_of ag @ rs \<and> length (logged install_of ag') \<le> length (logged install_of ag) + 1"
proof -
  from assms(2) obtain c where c: "nextRunnable (pe_now (turn_env env i ag)) (ag_queue ag) = Some c"
    by (auto simp: ProcessOne_def split: option.splits)
  obtain ag1 where ex: "executed env i c ag = Some ag1" "ag_cfg ag1 = ag_cfg ag"
    "logged report_of ag1 = logged report_of ag" "length (logged install_of ag1) \<le> length (logged install_of ag) + 1"
    using executed_some [OF assms(1), of i c ag] by blast
  then show ?thesis by (simp add: agent_turn_def assms(2) c)
qed

lemma agent_drain_refines:
  assumes "scans_ok env" and "queue_wf (ag_queue ag)" and "finite K" and "task_ids (ag_queue ag) \<subseteq> K"
  shows "\<exists>ag' rs p. agent_drain env i ag = Some ag' \<and> (\<forall>j. \<exists>s. p j = turn_env env j (ag\<lparr>ag_fs := s\<rparr>)) \<and>
    (\<forall>p'. (\<forall>j\<ge>i. p' j = p j) \<longrightarrow> processLoop p' i (ag_queue ag) = Some (rs, ag_queue ag')) \<and>
    logged report_of ag' = logged report_of ag @ rs \<and>
    length (logged install_of ag') \<le> length (logged install_of ag) + length rs"
  using assms(2-4)
proof (induction "nat (attempts_budget K (ag_queue ag))" arbitrary: ag i rule: less_induct)
  case less
  let ?env = "turn_env env i ag"
  obtain b rs q' where p: "ProcessOne ?env (ag_queue ag) = (b, rs, q')" by (metis prod_cases3)
  have self: "\<exists>s. turn_env env j ag = turn_env env j (ag\<lparr>ag_fs := s\<rparr>)" for j
    by (intro exI [of _ "ag_fs ag"]) simp
  show ?case
  proof (cases b)
    case False
    have idle: "rs = [] \<and> q' = ag_queue ag"
      using less.prems(1) by (cases rule: ProcessOne_cases [where env = ?env]) (use p False in auto)
    then have "agent_turn env i ag = Some (False, ag)" using p False by (simp add: agent_turn_def)
    then have "agent_drain env i ag = Some ag" by (subst agent_drain.simps) simp
    moreover have "processLoop p' i (ag_queue ag) = Some ([], ag_queue ag)" if "p' i = ?env" for p'
      using p False idle that by (subst processLoop.simps) simp
    ultimately show ?thesis
      by (intro exI [of _ ag] exI [of _ "[]"] exI [of _ "\<lambda>j. turn_env env j ag"]) (simp add: self)
  next
    case True
    with p have p': "ProcessOne ?env (ag_queue ag) = (True, rs, q')" by simp
    obtain ag1 where t: "agent_turn env i ag = Some (True, ag1)" and q: "ag_queue ag1 = q'" and c: "ag_cfg ag1 = ag_cfg ag"
      and r1: "logged report_of ag1 = logged report_of ag @ rs"
      and i1: "length (logged install_of ag1) \<le> length (logged install_of ag) + 1"
      using agent_turn_some [OF assms(1) p'] by blast
    note step = ProcessOne_budget [OF less.prems(1) p' less.prems(2,3)]
    have wf': "queue_wf q'" using queue_wf_ProcessOne [OF less.prems(1) p] by simp
    have "nat (attempts_budget K (ag_queue ag1)) < nat (attempts_budget K (ag_queue ag))"
      using step(1,2) attempts_budget_nonneg [OF wf', of K] by (simp add: q)
    from less.hyps [OF this, of "Suc i"] wf' less.prems(2) step(3) obtain ag' rs' f
      where d: "agent_drain env (Suc i) ag1 = Some ag'"
        and f: "\<forall>j. \<exists>s. f j = turn_env env j (ag1\<lparr>ag_fs := s\<rparr>)"
        and loop: "\<forall>p'. (\<forall>j\<ge>Suc i. p' j = f j) \<longrightarrow> processLoop p' (Suc i) q' = Some (rs', ag_queue ag')"
        and r2: "logged report_of ag' = logged report_of ag1 @ rs'"
        and i2: "length (logged install_of ag') \<le> length (logged install_of ag1) + length rs'"
      by (auto simp: q)
    have "agent_drain env i ag = Some ag'" using t d by (subst agent_drain.simps) simp
    moreover have "\<forall>j. \<exists>s. (f(i := ?env)) j = turn_env env j (ag\<lparr>ag_fs := s\<rparr>)"
      using f self turn_env_keeps [OF c] by (metis fun_upd_apply)
    moreover have "processLoop p' i (ag_queue ag) = Some (rs @ rs', ag_queue ag')"
      if "\<forall>j\<ge>i. p' j = (f(i := ?env)) j" for p'
    proof -
      from that have "p' i = ?env" and "\<forall>j\<ge>Suc i. p' j = f j" by auto
      with loop p' show ?thesis by (subst processLoop.simps) simp
    qed
    ultimately show ?thesis using r1 r2 i1 i2 step(2)
      by (intro exI [of _ ag'] exI [of _ "rs @ rs'"] exI [of _ "f(i := ?env)"]) simp
  qed
qed

text \<open>C10. Handling the server's commands always ends, and does what the queue's own loop does: as long as a
  scan finds a program, \<open>processCommands\<close> of the service returns, with the queue and the reports of
  the loop of the queue's theory for executions that are \<open>executeCommand\<close> on the agent's files, with
  at most one start of the installer for each report, and at most \<open>maxRetries\<close> of them for each
  pending task.\<close>

theorem service_commands_refine_queue:
  assumes "scans_ok env" and "queue_wf (ag_queue ag)"
  shows "\<exists>ag' p reports. agent_processCommands env commands ag = Some ag' \<and>
    (\<forall>j. \<exists>s. pe_execute (p j) = (\<lambda>c. fst (executeCommand (gx_exec env j) (ag_cfg ag) c s))) \<and>
    processCommands p commands (ag_queue ag) = Some (reports, ag_queue ag') \<and>
    logged report_of ag' = logged report_of ag @ reports \<and>
    length (logged install_of ag') \<le> length (logged install_of ag) + length reports \<and>
    int (length reports) \<le> q_maxRetries (ag_queue ag) * PendingCount (AddCommands commands (ag_queue ag))"
proof -
  let ?q = "AddCommands commands (ag_queue ag)" and ?ag = "ag\<lparr>ag_queue := AddCommands commands (ag_queue ag)\<rparr>"
  have ag: "(if commands \<noteq> [] then ?ag else ag) = ?ag"
    and q: "(if commands \<noteq> [] then ?q else ag_queue ag) = ?q" by simp_all
  have wf: "queue_wf ?q" using assms(2) by (rule queue_wf_AddCommands)
  obtain ag' rs p where d: "agent_drain env 0 ?ag = Some ag'"
    and p: "\<forall>j. \<exists>s. p j = turn_env env j (?ag\<lparr>ag_fs := s\<rparr>)"
    and loop: "processLoop p 0 ?q = Some (rs, ag_queue ag')"
    and logs: "logged report_of ag' = logged report_of ag @ rs"
      "length (logged install_of ag') \<le> length (logged install_of ag) + length rs"
    using agent_drain_refines [OF assms(1), of ?ag "task_ids ?q" 0] wf by auto
  have ex: "\<forall>j. \<exists>s. pe_execute (p j) = (\<lambda>c. fst (executeCommand (gx_exec env j) (ag_cfg ag) c s))"
  proof
    fix j
    obtain s where "p j = turn_env env j (?ag\<lparr>ag_fs := s\<rparr>)" using p by blast
    then show "\<exists>s. pe_execute (p j) = (\<lambda>c. fst (executeCommand (gx_exec env j) (ag_cfg ag) c s))"
      by (intro exI [of _ s]) (simp add: turn_env_def)
  qed
  have "int (length rs) \<le> q_maxRetries (ag_queue ag) * PendingCount ?q"
    using processLoop_returns [OF wf, of "task_ids ?q" p 0] loop attempts_budget_bound [OF wf]
      attempts_budget_nonneg [of "ag_queue ag'" "task_ids ?q"] by auto
  with d ex loop logs show ?thesis
    unfolding agent_processCommands_def processCommands_def ag q by blast
qed

subsection \<open>Starting\<close>

text \<open>C24. The service starts without its server: once the configuration file exists and loads and the log
  opens, \<open>runAgent\<close> reaches its loop with an empty queue whatever the bootstrap meets (no identifier,
  an unreachable server, a refused registration, a configuration that cannot be written), keeps
  credentials it already has, and runs the WebSocket client exactly when it is configured.\<close>

theorem service_starts_offline:
  assumes "EnsureExists (sx_orc env) (sx_marshal env) (sx_cfgPath env) s = (None, s1)"
    and "Load (sx_orc env) (sx_unmarshal env) (sx_host env) (sx_cfgPath env) s1 = Inr cfg"
    and "sx_logger env = None" and "sx_scan env \<noteq> []" and "\<forall>zs. 12 \<le> length (sx_sha env zs)"
  shows "\<exists>ag. startAgent env s = Some (Inr ag) \<and> ag_queue ag = NewTaskQueue 3 \<and>
    ag_wsStarted ag = wsc_Enabled (cfg_WebSocket cfg) \<and>
    (agt_UUID (cfg_Agent cfg) \<noteq> [] \<and> agt_SecretKey (cfg_Agent cfg) \<noteq> [] \<longrightarrow> ag_cfg ag = cfg \<and> ag_fs ag = s1)"
proof -
  let ?b = "bootstrapAgent (sx_api env) (sx_orc env) (sx_marshal env)
      (resolveWritableConfigPath (he_getenv (sx_host env))) (ApiNewClient (cfg_Server cfg))
      (sx_uuid env) (sx_hw env) (cfg, s1)"
  obtain warning cfg1 s2 where b: "?b = (warning, cfg1, s2)" by (metis prod_cases3)
  have ws: "cfg_WebSocket cfg1 = cfg_WebSocket cfg"
    using b by (auto simp: bootstrapAgent_def Let_def split: if_splits sum.splits)
  have cred: "agt_UUID (cfg_Agent cfg) \<noteq> [] \<and> agt_SecretKey (cfg_Agent cfg) \<noteq> [] \<longrightarrow> cfg1 = cfg \<and> s2 = s1"
    using b by (auto simp: bootstrapAgent_def)
  obtain im where im: "ForceScan (sx_sha env) (sx_now env) (sx_scan env) InventoryNewManager = Some im"
    using assms(4,5) by (auto simp: ForceScan_def recordScan_def computeHash_def slice_to_def Let_def)
  have "startAgent env s = Some (Inr (let ag = newAgent env cfg1 s2 im in
      if wsc_Enabled (cfg_WebSocket cfg1) then startWSClient ag else ag))"
    using assms(1-3) b im by (simp add: startAgent_def)
  then show ?thesis
    using cred by (auto simp: Let_def ws newAgent_def startWSClient_def)
qed

subsection \<open>An example\<close>

definition sample_start :: start_env where
  "sample_start = \<lparr>sx_orc = no_faults, sx_marshal = default_marshal, sx_unmarshal = default_unmarshal,
     sx_host = plain_host, sx_cfgPath = ''c.yaml'', sx_logger = None, sx_api = answering_api,
     sx_uuid = Inl ErrNotExist, sx_hw = hx_host sample_hb_env, sx_hb = sample_hb_env, sx_serviceExe = ''svc.exe'',
     sx_now = 5, sx_scan = [sample_item ''a'' ''1''], sx_sha = (\<lambda>zs. ''0123456789abcdef'')\<rparr>"

definition sample_world :: agent_env where
  "sample_world = \<lparr>gx_orc = no_faults, gx_marshal = default_marshal, gx_cfgPath = ''c.yaml'', gx_serviceExe = ''svc.exe'',
     gx_upd = sample_upd, gx_now = 5, gx_scan = [sample_item ''a'' ''1''], gx_sha = (\<lambda>zs. ''0123456789abcdef''),
     gx_process = (\<lambda>i. failing_env 0), gx_exec = (\<lambda>i. sample_exec (CmdOK []))\<rparr>"

lemma sample_start_config:
  "EnsureExists (sx_orc sample_start) (sx_marshal sample_start) (sx_cfgPath sample_start) Map.empty = (None, [''c.yaml'' \<mapsto> ''default''])"
  "Load (sx_orc sample_start) (sx_unmarshal sample_start) (sx_host sample_start) (sx_cfgPath sample_start)
     [''c.yaml'' \<mapsto> ''default''] = Inr Default"
proof -
  show "EnsureExists (sx_orc sample_start) (sx_marshal sample_start) (sx_cfgPath sample_start) Map.empty = (None, [''c.yaml'' \<mapsto> ''default''])"
    by (simp add: sample_start_def EnsureExists_def os_defs default_marshal_def)
  show "Load (sx_orc sample_start) (sx_unmarshal sample_start) (sx_host sample_start) (sx_cfgPath sample_start)
     [''c.yaml'' \<mapsto> ''default''] = Inr Default"
    by code_simp
qed

theorem service_starts_offline_witness:
  "\<exists>ag. startAgent sample_start Map.empty = Some (Inr ag) \<and> ag_queue ag = NewTaskQueue 3 \<and> \<not> ag_wsStarted ag"
proof -
  have "sx_logger sample_start = None" "sx_scan sample_start \<noteq> []" "\<forall>zs. 12 \<le> length (sx_sha sample_start zs)"
    "\<not> wsc_Enabled (cfg_WebSocket Default)"
    by (simp_all add: sample_start_def Default_def)
  then show ?thesis using service_starts_offline [OF sample_start_config, of] by auto
qed

text \<open>An agent with a staged update, and one that is still to be offered one.\<close>

definition sample_agent :: "Config \<Rightarrow> fs \<Rightarrow> Agent" where
  "sample_agent cfg s = newAgent sample_start cfg s InventoryNewManager"

definition staged_files :: fs where
  "staged_files = [stagedPath sample_update_config ''1.10.0'' \<mapsto> ''NEW'', pendingMetaPath sample_update_config \<mapsto> ''META'']"

definition sample_hello :: payload where
  "sample_hello = [(''config'', JObj [(''remote_support_enabled'', JBool True)]), (''remote_support_request'', JObj [(''session_id'', JNum (f64_of_int 5))])]"

lemma sample_apply:
  "applyIfPending sample_upd sample_update_config ''c.yaml'' ''svc.exe'' staged_files =
     (Some ErrUpdateRestart, [(upc_HelperPath (cfg_Update sample_update_config),
        helper_args sample_update_config ''c.yaml'' ''svc.exe'' (staged_meta sample_upd sample_update_config sample_update_offer))])"
  by code_simp

definition any_result :: PollResult where
  "any_result = poll_result sample_hb_env (the (decode_HeartbeatResponse (JObj [])))"

definition updating_agent :: Agent where
  "updating_agent = (let ag = sample_agent sample_update_config staged_files
     in ag\<lparr>ag_sender := (ag_sender ag)\<lparr>hs_results := [any_result]\<rparr>\<rparr>)"

theorem helper_started_when_ready_witness:
  "\<exists>res ag'. agent_step (PollArrived sample_world) updating_agent = Some (res, ag') \<and>
     PendingCount (ag_queue updating_agent) = 0 \<and> (res = Return (Some ErrUpdateRestart) \<or> ag_restart ag' \<noteq> []) \<and>
     length (logged helper_of ag') = 1"
proof -
  define ag1 where "ag1 = updating_agent\<lparr>ag_sender := (ag_sender updating_agent)\<lparr>hs_results := []\<rparr>\<rparr>"
  have sel: "ag_cfg ag1 = sample_update_config" "ag_fs ag1 = staged_files" "PendingCount (ag_queue ag1) = 0"
    "gx_upd sample_world = sample_upd" "gx_cfgPath sample_world = ''c.yaml''" "gx_serviceExe sample_world = ''svc.exe''"
    "hs_results (ag_sender updating_agent) = [any_result]" "logged helper_of updating_agent = []"
    by (simp_all add: ag1_def updating_agent_def sample_agent_def newAgent_def sample_world_def PendingCount_def
        NewTaskQueue_def logged_def Let_def)
  define h where "h = upc_HelperPath (cfg_Update sample_update_config)"
  define as where "as = helper_args sample_update_config ''c.yaml'' ''svc.exe''
    (staged_meta sample_upd sample_update_config sample_update_offer)"
  have a: "agent_apply sample_world ag1 = (Some ErrUpdateRestart, emit [HelperStarted h as] ag1)"
    by (simp add: agent_apply_def sel sample_apply h_def as_def)
  then have step: "agent_step (PollArrived sample_world) updating_agent =
      Some (Return (Some ErrUpdateRestart), emit [HelperStarted h as] ag1)"
    by (simp add: on_poll_def sel on_pollResult_def flip: ag1_def)
  have "logged helper_of (emit [HelperStarted h as] ag1) \<noteq> logged helper_of updating_agent"
    by (simp add: sel)
  from helper_started_when_ready [OF step this] step show ?thesis by (auto simp: sel)
qed

theorem service_invariant_witness:
  "\<exists>ag0 res ag. startAgent sample_start Map.empty = Some (Inr ag0) \<and>
     agent_run [WsConnected, WsDisconnected, HeartbeatTurn sample_hb_env None HbTrigger] ag0 = Some (res, ag) \<and> service_ok ag"
proof -
  obtain ag0 where s: "startAgent sample_start Map.empty = Some (Inr ag0)"
    by (simp add: startAgent_def sample_start_config)
      (simp add: sample_start_def bootstrapAgent_def ForceScan_def recordScan_def slice_to_def computeHash_def Default_def Let_def)
  obtain ag where r: "agent_run [WsConnected, WsDisconnected, HeartbeatTurn sample_hb_env None HbTrigger] ag0 = Some (Continue, ag)"
    by simp
  from service_invariant [OF s r] s r show ?thesis by blast
qed

theorem remote_support_policy_witness:
  "\<exists>res ag'. agent_run [WsCalled sample_world OnServerHello sample_hello] (sample_agent Default Map.empty) = Some (res, ag') \<and>
     fst (rs_view ag') \<and> map rq_SessionID (snd (rs_view ag')) = [5]"
proof -
  let ?ag = "sample_agent Default Map.empty" and ?es = "[WsCalled sample_world OnServerHello sample_hello]"
  have "\<not> Option.is_none (agent_run ?es ?ag)" by code_simp
  then obtain res ag' where r: "agent_run ?es ?ag = Some (res, ag')" by (cases "agent_run ?es ?ag") auto
  have "fst (fold rs_spec (run_messages ?es ?ag) (rs_view ?ag)) \<and>
      map rq_SessionID (snd (fold rs_spec (run_messages ?es ?ag) (rs_view ?ag))) = [5]" by code_simp
  with remote_support_policy [OF r] r show ?thesis by auto
qed

theorem service_commands_refine_queue_witness:
  "\<exists>ag' reports. agent_processCommands sample_world [sample_command 4 1] (sample_agent Default Map.empty) = Some ag' \<and>
     logged report_of ag' = reports \<and> int (length reports) \<le> 3"
proof -
  have "scans_ok sample_world" by (simp add: scans_ok_def sample_world_def)
  moreover have q: "ag_queue (sample_agent Default Map.empty) = NewTaskQueue 3" "logged report_of (sample_agent Default Map.empty) = []"
    by (simp_all add: sample_agent_def newAgent_def logged_def)
  moreover have "q_maxRetries (NewTaskQueue 3) * PendingCount (AddCommands [sample_command 4 1] (NewTaskQueue 3)) = 3"
    by (simp add: NewTaskQueue_def PendingCount_def sample_command_def gm_defs)
  ultimately show ?thesis
    using service_commands_refine_queue [of sample_world "sample_agent Default Map.empty" "[sample_command 4 1]"]
    by (auto simp: queue_wf_New)
qed

text \<open>
  A hand-over does not stop the handler it happens in: the same \<open>server.hello\<close> that makes the service
  start the update helper and ask for its restart goes on to install the commands it carries, while
  the loop, which waits in another goroutine, may take the restart and end the process.
\<close>

definition effect_kind :: "agent_effect \<Rightarrow> string" where
  "effect_kind e = (case e of HelperStarted p as \<Rightarrow> ''helper'' | InstallerStarted p d \<Rightarrow> ''installer'' | TaskReported i r \<Rightarrow> ''report'' | _ \<Rightarrow> ''other'')"

definition busy_hello :: payload where
  "busy_hello = [(''config'', JObj [(''mode'', JStr ''x'')]),
     (''commands'', JArr [JObj [(''task_id'', JNum (f64_of_int 7)), (''app_id'', JNum (f64_of_int 3)),
        (''download_url'', JStr ''/f''), (''file_hash'', JStr ''0A''), (''force_update'', JBool True)]])]"

declare agent_drain.simps [code]

lemma restart_does_not_stop_commands:
  "map_option (\<lambda>ag. map effect_kind (ag_out ag))
     (on_serverHello sample_world busy_hello (sample_agent sample_update_config staged_files)) =
   Some [''helper'', ''installer'', ''report'']"
  by code_simp

end
