(* ===== verification/Supervisor.thy ===== *)
theory Supervisor
  imports Service
begin

section \<open>The service as a Windows process (\<open>cmd/service\<close>)\<close>

text \<open>
  What surrounds \<open>runAgent\<close>: the supervisor of the tray process, the firewall rules of remote support,
  the handler of the service control manager and the exit codes. The processes of the machine are the
  list of their image names; starting, killing and enumerating processes are outcomes.
\<close>

subsection \<open>The tray supervisor\<close>

definition trayExeName :: string where "trayExeName = ''appcenter-tray.exe''"

definition newTraySupervisor :: "string \<Rightarrow> string" where
  "newTraySupervisor serviceExe = filepath_Join (filepath_Dir serviceExe) trayExeName"

text \<open>\<open>isProcessRunningByImage\<close>: \<open>None\<close> when the snapshot cannot be taken or is empty.\<close>

definition isProcessRunningByImage :: "string list option \<Rightarrow> string \<Rightarrow> bool" where
  "isProcessRunningByImage snap imageName =
     (case snap of None \<Rightarrow> False | Some names \<Rightarrow> list_ex (\<lambda>n. strings_EqualFold n imageName) names)"

record tray_host =
  th_exeFound :: bool
  th_snapshot :: bool
  th_start :: bool
  th_kill :: bool

definition ensureRunning :: "tray_host \<Rightarrow> string list \<Rightarrow> string list" where
  "ensureRunning h procs =
     (if \<not> th_exeFound h then procs
      else if isProcessRunningByImage (if th_snapshot h then Some procs else None) trayExeName then procs
      else if th_start h then trayExeName # procs else procs)"

text \<open>\<open>taskkill\<close> by image name; the command's output only decides what is logged.\<close>

definition stopAll :: "tray_host \<Rightarrow> string list \<Rightarrow> string list" where
  "stopAll h procs = (if th_kill h then filter (\<lambda>n. \<not> strings_EqualFold n trayExeName) procs else procs)"

definition stop_logged :: "string option \<Rightarrow> bool" where
  "stop_logged failed_output =
     (case failed_output of
        None \<Rightarrow> False
      | Some out \<Rightarrow>
          (let msg = strings_ToLower out
           in \<not> (strings_Contains msg ''not found'' \<or> strings_Contains msg ''no running instance'')))"

definition SetEnabled :: "tray_host \<Rightarrow> bool \<Rightarrow> string list \<Rightarrow> string list" where
  "SetEnabled h enabled procs = (if enabled then ensureRunning h procs else stopAll h procs)"

definition trays :: "string list \<Rightarrow> nat" where
  "trays procs = length (filter (\<lambda>n. strings_EqualFold n trayExeName) procs)"

lemma running_trays: "isProcessRunningByImage (Some procs) trayExeName \<longleftrightarrow> 0 < trays procs"
  by (auto simp: isProcessRunningByImage_def trays_def list_ex_iff filter_empty_conv)

lemma trays_SetEnabled:
  "trays (SetEnabled h enabled procs) =
     (if enabled
      then if th_exeFound h \<and> th_start h \<and> (\<not> th_snapshot h \<or> trays procs = 0) then Suc (trays procs) else trays procs
      else if th_kill h then 0 else trays procs)"
proof -
  have "trays (trayExeName # procs) = Suc (trays procs)" by (simp add: trays_def)
  moreover have "\<not> isProcessRunningByImage None trayExeName" by (simp add: isProcessRunningByImage_def)
  moreover have "trays (filter (\<lambda>n. \<not> strings_EqualFold n trayExeName) procs) = 0"
    by (simp add: trays_def)
  ultimately show ?thesis
    by (auto simp: SetEnabled_def ensureRunning_def stopAll_def running_trays)
qed

text \<open>As long as the processes can be enumerated the supervisor never adds a second tray.\<close>

lemma trays_at_most:
  assumes "\<forall>(h, b) \<in> set calls. th_snapshot h" and "trays procs \<le> n" and "1 \<le> n"
  shows "trays (fold (\<lambda>(h, b). SetEnabled h b) calls procs) \<le> n"
  using assms(1,2)
proof (induction calls arbitrary: procs)
  case (Cons c calls)
  obtain h b where c: "c = (h, b)" by (cases c)
  with Cons.prems assms(3) have "trays (SetEnabled h b procs) \<le> n"
    by (auto simp: trays_SetEnabled)
  with Cons c show ?case by simp
qed simp

subsection \<open>Firewall rules\<close>

text \<open>
  The rules for the two ports of the helper: \<open>show\<close> is what \<open>netsh\<close> prints when asked for a rule,
  \<open>None\<close> when it fails. The result is the command that adds the rule, if it has to be added.
\<close>

definition firewall_rule_args :: "string \<Rightarrow> string \<Rightarrow> int \<Rightarrow> string list" where
  "firewall_rule_args helperPath name port =
     [''advfirewall'', ''firewall'', ''add'', ''rule'', ''name='' @ name, ''dir=in'', ''action=allow'', ''enable=yes'',
      ''profile=any'', ''protocol=TCP'', ''localport='' @ strconv_Itoa port, ''program='' @ helperPath]"

definition ensureRule :: "(string list \<Rightarrow> string option) \<Rightarrow> string \<Rightarrow> string \<Rightarrow> int \<Rightarrow> string list list" where
  "ensureRule netsh helperPath name port =
     (case netsh [''advfirewall'', ''firewall'', ''show'', ''rule'', ''name='' @ name] of
        Some out \<Rightarrow>
          if \<not> strings_Contains (strings_ToLower out) ''no rules match'' then []
          else [firewall_rule_args helperPath name port]
      | None \<Rightarrow> [firewall_rule_args helperPath name port])"

definition ensureRemoteSupportFirewallRules :: "(string list \<Rightarrow> string option) \<Rightarrow> string \<Rightarrow> string list list" where
  "ensureRemoteSupportFirewallRules netsh exeDir =
     (let helperPath = filepath_Join exeDir ''rshelper.exe''
      in ensureRule netsh helperPath ''AppCenter RemoteSupport 20010'' 20010 @
         ensureRule netsh helperPath ''AppCenter RemoteSupport 20011'' 20011)"

subsection \<open>The service control manager\<close>

text \<open>
  \<open>Execute\<close> waits for a request of the control manager or for the end of \<open>runAgent\<close>, whose result is
  \<open>Some\<close> error or \<open>None\<close>. A stop cancels the context and waits for that end; \<open>Stop r\<close> carries what
  \<open>runAgent\<close> then returns. The result is the exit code, together with the states reported.
\<close>

datatype svc_status = StartPending | SvcRunning | StopPending | CurrentStatus

datatype svc_event =
    Interrogate
  | Stop "goerr option"
  | OtherRequest
  | AgentDone "goerr option"

fun svc_loop :: "svc_event list \<Rightarrow> svc_status list \<times> nat option" where
  "svc_loop [] = ([], None)"
| "svc_loop (Interrogate # es) = (case svc_loop es of (st, r) \<Rightarrow> (CurrentStatus # st, r))"
| "svc_loop (OtherRequest # es) = svc_loop es"
| "svc_loop (Stop runErr # es) = ([StopPending], Some (if runErr \<noteq> None then 1 else 0))"
| "svc_loop (AgentDone runErr # es) =
     ([], Some (case runErr of None \<Rightarrow> 0 | Some err \<Rightarrow> if errors_Is err ErrUpdateRestart then 0 else 1))"

definition svc_Execute :: "svc_event list \<Rightarrow> svc_status list \<times> nat option" where
  "svc_Execute es = (case svc_loop es of (st, r) \<Rightarrow> (StartPending # SvcRunning # st, r))"

text \<open>\<open>main\<close> outside a service: the exit code for the result of \<open>runAgent\<close>.\<close>

definition main_exit :: "goerr option \<Rightarrow> nat" where
  "main_exit runErr = (case runErr of None \<Rightarrow> 0 | Some err \<Rightarrow> if errors_Is err ErrUpdateRestart then 0 else 1)"

text \<open>What \<open>runAgent\<close> returns on a list of events: \<open>None\<close> while it is running or after a panic.\<close>

definition runAgent :: "start_env \<Rightarrow> agent_event list \<Rightarrow> fs \<Rightarrow> goerr option option" where
  "runAgent env es s =
     (case startAgent env s of
        None \<Rightarrow> None
      | Some (Inl err) \<Rightarrow> Some (Some err)
      | Some (Inr ag) \<Rightarrow> (case agent_run es ag of Some (Return r, ag') \<Rightarrow> Some r | _ \<Rightarrow> None))"

text \<open>Every return of the loop is a clean stop or the restart for an update; anything else comes from the start.\<close>

lemma agent_step_returns: "agent_step e ag = Some (Return r, ag') \<Longrightarrow> r = None \<or> is_restart r"
  by (cases e) (auto simp: on_poll_def on_pollResult_def on_restart_def continuing_def is_restart_def Let_def
      bind_eq_Some_conv split: list.splits prod.splits option.splits if_splits)

lemma agent_run_returns: "agent_run es ag = Some (Return r, ag') \<Longrightarrow> r = None \<or> is_restart r"
proof (induction es arbitrary: ag)
  case (Cons e es)
  then show ?case
    by (auto split: option.splits prod.splits loop_result.splits dest: agent_step_returns)
qed simp

text \<open>
  The exit code tells the control manager apart what it has to know: a service that came up and was
  stopped or handed over to the update helper ends with 0, so that its recovery actions do not restart
  it while its executable is replaced; one that could not start ends with 1.
\<close>

lemma runAgent_exit:
  assumes "runAgent env es s = Some r"
  shows "main_exit r = (case startAgent env s of
      Some (Inl err) \<Rightarrow> if errors_Is err ErrUpdateRestart then 0 else 1 | _ \<Rightarrow> 0)"
    and "snd (svc_Execute [AgentDone r]) = Some (main_exit r)"
  using assms
  by (auto dest!: agent_run_returns simp: runAgent_def main_exit_def svc_Execute_def is_restart_def
      split: option.splits sum.splits prod.splits loop_result.splits)

text \<open>
  A stop request that comes when the loop has already returned for the update is reported as a failure:
  only the other branch of \<open>Execute\<close> knows that this error is none.
\<close>

lemma stop_after_restart_fails:
  "snd (svc_Execute [Stop (Some ErrUpdateRestart)]) = Some 1"
  "snd (svc_Execute [AgentDone (Some ErrUpdateRestart)]) = Some 0"
  by (simp_all add: svc_Execute_def)

end
