(* ===== verification/WsService.thy ===== *)
theory WsService
  imports Service
begin

section \<open>The WebSocket client of the service (\<open>startWSClient\<close> in \<open>cmd/service/core.go\<close>)\<close>

text \<open>
  The client that the service starts, and the composition of the two machines: every callback that a
  run of \<open>WsConn\<close> makes is an event of the service. So what a server can bring about over the connection
  is what the agent does with the callbacks of \<open>connectAndServe\<close>.
\<close>

subsection \<open>The client\<close>

definition service_ws_config :: "Config \<Rightarrow> host_world \<Rightarrow> WsConfig" where
  "service_ws_config cfg host =
     (let info = CollectHostInfo host in
      \<lparr>wf_ServerURL = srv_URL (cfg_Server cfg), wf_WSURL = wsc_URL (cfg_WebSocket cfg),
       wf_AgentUUID = agt_UUID (cfg_Agent cfg), wf_SecretKey = agt_SecretKey (cfg_Agent cfg),
       wf_Version = agt_Version (cfg_Agent cfg), wf_Platform = hw_GOOS host, wf_Arch = hw_GOARCH host,
       wf_Hostname = hi_Hostname info, wf_OSVersion = hi_OSVersion info, wf_IPAddress = hi_IPAddress info,
       wf_FullIP = hi_IPAddresses info, wf_ReconnectMinSec = wsc_ReconnectMinSec (cfg_WebSocket cfg),
       wf_ReconnectMaxSec = wsc_ReconnectMaxSec (cfg_WebSocket cfg), wf_has = (\<lambda>_. True),
       wf_hasConnected = True, wf_hasDisconnected = True\<rparr>)"

definition service_ws_client :: "Config \<Rightarrow> host_world \<Rightarrow> WsClient" where
  "service_ws_client cfg host = WsNewClient (service_ws_config cfg host)"

lemma service_ws_client_simps [simp]:
  "wc_has (service_ws_client cfg host) cb" "wc_hasConnected (service_ws_client cfg host)"
  "wc_hasDisconnected (service_ws_client cfg host)"
  "auth_payload (service_ws_client cfg host) =
     [(''uuid'', JStr (agt_UUID (cfg_Agent cfg))), (''secret'', JStr (agt_SecretKey (cfg_Agent cfg)))]"
  by (simp_all add: service_ws_client_def service_ws_config_def WsNewClient_def auth_payload_def Let_def)

subsection \<open>Its callbacks as events of the service\<close>

text \<open>\<open>env n\<close> is what the n-th callback meets.\<close>

fun ws_event :: "agent_env \<Rightarrow> ws_action \<Rightarrow> agent_event list" where
  "ws_event env (Sent t p) = []"
| "ws_event env (Called cb p) = [WsCalled env cb p]"
| "ws_event env CalledOnConnected = [WsConnected]"
| "ws_event env CalledOnDisconnected = [WsDisconnected]"

fun ws_events :: "(nat \<Rightarrow> agent_env) \<Rightarrow> nat \<Rightarrow> ws_action list \<Rightarrow> agent_event list" where
  "ws_events env n [] = []"
| "ws_events env n (a # as) = ws_event (env n) a @ ws_events env (n + 1) as"

definition ws_actions :: "WsClient \<Rightarrow> duration \<Rightarrow> (ws_conn \<times> rat) list \<Rightarrow> ws_action list" where
  "ws_actions c backoff conns = concat (map fst (ws_Run c backoff conns))"

text \<open>The service while its client works through a list of connections.\<close>

definition service_over_ws ::
    "(nat \<Rightarrow> agent_env) \<Rightarrow> WsClient \<Rightarrow> (ws_conn \<times> rat) list \<Rightarrow> Agent \<Rightarrow> (loop_result \<times> Agent) option" where
  "service_over_ws env c conns ag = agent_run (ws_events env 0 (ws_actions c (wc_reconnectMin c) conns)) ag"

lemma ws_events_append: "ws_events env n (as @ bs) = ws_events env n as @ ws_events env (n + length as) bs"
  by (induction as arbitrary: n) auto

lemma agent_run_append:
  "agent_run (es @ fs) ag =
     (case agent_run es ag of
        None \<Rightarrow> None
      | Some (Return err, ag') \<Rightarrow> Some (Return err, ag')
      | Some (Continue, ag') \<Rightarrow> agent_run fs ag')"
  by (induction es arbitrary: ag) (auto split: option.split loop_result.split)

lemma ws_actions_Nil [simp]: "ws_actions c backoff [] = []"
  by (simp add: ws_actions_def)

lemma ws_actions_Cons:
  obtains backoff' where "ws_actions c backoff ((conn, u) # conns) =
    fst (connectAndServe c conn) @ (if wc_hasDisconnected c then [CalledOnDisconnected] else []) @
    ws_actions c backoff' conns"
proof -
  obtain as err where c: "connectAndServe c conn = (as, err)" by fastforce
  have "ws_actions c backoff ((conn, u) # conns) = as @ (if wc_hasDisconnected c then [CalledOnDisconnected] else []) @
      ws_actions c (if err = None then wc_reconnectMin c else ws_next c backoff) conns"
    by (simp add: ws_actions_def c Let_def)
  with that c show thesis by simp
qed

subsection \<open>Servers that do not authenticate, and connections that end\<close>

lemma on_disconnected_idem [simp]: "on_disconnected (on_disconnected ag) = on_disconnected ag"
  by (simp add: on_disconnected_def TriggerNow_def SetWSActive_def chan_kick_idem)

lemma unauthenticated_silent:
  assumes "\<not> authenticated conn"
  shows "ws_events env n (fst (connectAndServe c conn)) = []"
proof -
  obtain as err where c: "connectAndServe c conn = (as, err)" by fastforce
  from unauthenticated_actions [OF this assms] show ?thesis by (auto simp: c)
qed

lemma unauthenticated_run:
  assumes "\<And>conn u. (conn, u) \<in> set conns \<Longrightarrow> \<not> authenticated conn" and "wc_hasDisconnected c"
  shows "agent_run (ws_events env n (ws_actions c backoff conns)) ag =
    Some (Continue, if conns = [] then ag else on_disconnected ag)"
  using assms(1)
proof (induction conns arbitrary: n backoff ag)
  case (Cons cu conns)
  obtain conn u where cu: "cu = (conn, u)" by fastforce
  obtain backoff' where a: "ws_actions c backoff (cu # conns) =
      fst (connectAndServe c conn) @ (if wc_hasDisconnected c then [CalledOnDisconnected] else []) @
      ws_actions c backoff' conns"
    unfolding cu by (rule ws_actions_Cons)
  have "\<not> authenticated conn" using Cons.prems cu by auto
  moreover have "agent_run (ws_events env m (ws_actions c backoff' conns)) ag' =
      Some (Continue, if conns = [] then ag' else on_disconnected ag')" for m ag'
    using Cons.prems by (intro Cons.IH) auto
  ultimately show ?case
    unfolding a using assms(2) by (simp add: ws_events_append unauthenticated_silent)
qed simp

text \<open>The last event of a list of connections is that the last one ended.\<close>

lemma ws_actions_last:
  assumes "conns \<noteq> []" and "wc_hasDisconnected c"
  obtains as where "ws_actions c backoff conns = as @ [CalledOnDisconnected]"
  using assms(1)
proof (induction conns arbitrary: backoff thesis)
  case (Cons cu conns)
  obtain conn u where cu: "cu = (conn, u)" by fastforce
  obtain backoff' where a: "ws_actions c backoff (cu # conns) =
      fst (connectAndServe c conn) @ (if wc_hasDisconnected c then [CalledOnDisconnected] else []) @
      ws_actions c backoff' conns"
    unfolding cu by (rule ws_actions_Cons)
  show ?case
  proof (cases "conns = []")
    case True
    with a assms(2) show ?thesis by (intro Cons.prems(1)) simp
  next
    case False
    then obtain as where "ws_actions c backoff' conns = as @ [CalledOnDisconnected]"
      using Cons.IH by blast
    with a assms(2) show ?thesis by (intro Cons.prems(1)) simp
  qed
qed simp

text \<open>C25. A connection gives the service away only to a server that accepts its credentials, and an outage never
  silences it: while every server its client reaches fails to authenticate, the service runs on and nothing
  of its state changes but that HTTP heartbeats are on and one is due; and after any connections at all,
  when the last has ended, the WebSocket counts as inactive for the service and its sender, and a heartbeat
  is due at once.\<close>

theorem ws_outage:
  assumes "conns \<noteq> []"
  shows "((\<forall>(conn, u) \<in> set conns. \<not> authenticated conn) \<longrightarrow>
      service_over_ws env (service_ws_client cfg host) conns ag =
        Some (Continue, ag\<lparr>ag_wsActive := False, ag_sender := TriggerNow (SetWSActive False (ag_sender ag))\<rparr>)) \<and>
    (\<forall>ag'. service_over_ws env (service_ws_client cfg host) conns ag = Some (Continue, ag') \<longrightarrow>
      \<not> ag_wsActive ag' \<and> \<not> hs_wsActive (ag_sender ag') \<and> hs_triggerCh (ag_sender ag') \<noteq> [])"
proof (intro conjI impI allI)
  let ?c = "service_ws_client cfg host"
  assume "\<forall>(conn, u) \<in> set conns. \<not> authenticated conn"
  then show "service_over_ws env ?c conns ag =
      Some (Continue, ag\<lparr>ag_wsActive := False, ag_sender := TriggerNow (SetWSActive False (ag_sender ag))\<rparr>)"
    using unauthenticated_run [of conns ?c env 0 "wc_reconnectMin ?c" ag] assms
    by (auto simp: service_over_ws_def on_disconnected_def)
next
  let ?c = "service_ws_client cfg host"
  fix ag' assume run: "service_over_ws env ?c conns ag = Some (Continue, ag')"
  obtain as where "ws_actions ?c (wc_reconnectMin ?c) conns = as @ [CalledOnDisconnected]"
    using ws_actions_last [OF assms, of ?c] by auto
  with run obtain ag0 where "ag' = on_disconnected ag0"
    by (auto simp: service_over_ws_def ws_events_append agent_run_append split: option.splits prod.splits loop_result.splits)
  moreover have "chan_kick ch \<noteq> []" for ch
    by (cases ch) (auto simp: chan_kick_def chan_try_send_def)
  ultimately show "\<not> ag_wsActive ag'" "\<not> hs_wsActive (ag_sender ag')" "hs_triggerCh (ag_sender ag') \<noteq> []"
    by (simp_all add: on_disconnected_def TriggerNow_def SetWSActive_def)
qed

text \<open>A server that cannot be reached, and one that rejects the credentials.\<close>

definition refused_conns :: "(ws_conn \<times> rat) list" where
  "refused_conns =
     [(\<lparr>wn_dial = Some (GoErr ''refused''), wn_reads = [], wn_write = (\<lambda>_. None), wn_parse = (\<lambda>_. Inr JNull),
        wn_cancelled = False\<rparr>, 0),
      (\<lparr>wn_dial = None, wn_reads = [Inr ''no''], wn_write = (\<lambda>_. None),
        wn_parse = (\<lambda>_. Inr (JObj [(''type'', JStr ''server.auth.failed'')])), wn_cancelled = False\<rparr>, 0)]"

theorem ws_outage_witness:
  "\<exists>ag'. service_over_ws (\<lambda>_. sample_world) (service_ws_client Default (sx_hw sample_start)) refused_conns
       (on_connected (sample_agent Default Map.empty)) = Some (Continue, ag') \<and> \<not> ag_wsActive ag'"
proof -
  have "refused_conns \<noteq> []" by (simp add: refused_conns_def)
  moreover have "\<forall>(conn, u) \<in> set refused_conns. \<not> authenticated conn"
    by (simp add: refused_conns_def authenticated_def next_read_def readMessage_def decode_WsMessage_def decode_struct_def
        message_fields_def set_message_field_def accepts_def)
  ultimately show ?thesis
    using ws_outage [of refused_conns "\<lambda>_. sample_world" Default "sx_hw sample_start"
        "on_connected (sample_agent Default Map.empty)"] by auto
qed

end
