(* ===== verification/Cmdline.thy ===== *)
theory Cmdline
  imports Go_Strings
begin

section \<open>Command lines of Windows processes\<close>

text \<open>
  A process is started with one command line, which \<open>buildWindowsCmdline\<close> (\<open>process_windows.go\<close>) puts
  together with \<open>syscall.EscapeArg\<close>. The process takes it apart: a Go program by the rules for arguments
  throughout (\<open>command_line_to_args\<close>, what fills \<open>os.Args\<close>), other programs by the documented rules of
  \<open>CommandLineToArgvW\<close>, which reads the name of the program differently. What is written is read back.
\<close>

abbreviation bsl :: char where "bsl \<equiv> CHR 0x5C"
abbreviation quo :: char where "quo \<equiv> CHR 0x22"

definition char_blank :: "char \<Rightarrow> bool" where
  "char_blank c \<longleftrightarrow> c = CHR '' '' \<or> c = CHR 0x09"

text \<open>The loop of \<open>EscapeArg\<close>: \<open>slashes\<close> counts the backslashes just written.\<close>

fun escape_loop :: "bool \<Rightarrow> nat \<Rightarrow> string \<Rightarrow> string" where
  "escape_loop sp slashes [] = (if sp then replicate slashes bsl @ [quo] else [])"
| "escape_loop sp slashes (c # s) =
     (if c = bsl then c # escape_loop sp (slashes + 1) s
      else if c = quo then replicate slashes bsl @ [bsl, c] @ escape_loop sp 0 s
      else c # escape_loop sp 0 s)"

definition EscapeArg :: "string \<Rightarrow> string" where
  "EscapeArg s =
     (if s = [] then [quo, quo]
      else
        let needsBackslash = list_ex (\<lambda>c. c = quo \<or> c = bsl) s; hasSpace = list_ex char_blank s
        in if \<not> needsBackslash \<and> \<not> hasSpace then s
           else if \<not> needsBackslash then quo # s @ [quo]
           else (if hasSpace then [quo] else []) @ escape_loop hasSpace 0 s)"

definition buildWindowsCmdline :: "string \<Rightarrow> string list \<Rightarrow> string" where
  "buildWindowsCmdline exePath args = strings_Join (EscapeArg exePath # map EscapeArg args) '' ''"

subsection \<open>How a command line is read\<close>

text \<open>
  One argument: inside quotes blanks belong to it; \<open>2n\<close> backslashes before a quote are \<open>n\<close> of them and
  the quote opens or closes, \<open>2n + 1\<close> are \<open>n\<close> and a literal quote; a quote that closes and is followed
  by another is a literal quote as well. The result is the argument and the rest of the line.
\<close>

fun read_arg :: "bool \<Rightarrow> nat \<Rightarrow> string \<Rightarrow> string \<times> string" where
  "read_arg inq n [] = (replicate n bsl, [])"
| "read_arg inq n (c # s) =
     (if c = bsl then read_arg inq (n + 1) s
      else if c = quo then
        (if even n
         then (if inq \<and> s \<noteq> [] \<and> hd s = quo
               then (case read_arg (\<not> inq) 0 (tl s) of (a, r) \<Rightarrow> (replicate (n div 2) bsl @ [quo] @ a, r))
               else (case read_arg (\<not> inq) 0 s of (a, r) \<Rightarrow> (replicate (n div 2) bsl @ a, r)))
         else (case read_arg inq 0 s of (a, r) \<Rightarrow> (replicate (n div 2) bsl @ [quo] @ a, r)))
      else if char_blank c \<and> \<not> inq then (replicate n bsl, s)
      else (case read_arg inq 0 s of (a, r) \<Rightarrow> (replicate n bsl @ [c] @ a, r)))"

lemma read_arg_shorter: "length (snd (read_arg inq n s)) \<le> length s"
proof (induction s arbitrary: inq n rule: length_induct)
  case (1 s)
  have IH: "length (snd (read_arg b m t)) \<le> length t" if "length t < length s" for b m t
    using 1 that by blast
  show ?case
  proof (cases s)
    case (Cons c t)
    have "length (snd (read_arg b m t)) \<le> Suc (length t)" for b m
      using IH [of t b m] Cons by simp
    moreover have "length (snd (read_arg b m (tl t))) \<le> length (tl t)" for b m
      by (rule IH) (simp add: Cons less_Suc_eq_le)
    then have "length (snd (read_arg b m (tl t))) \<le> Suc (length t)" for b m
      by (rule le_trans) simp
    ultimately show ?thesis unfolding Cons read_arg.simps split_def by simp
  qed simp
qed

lemma read_arg_rest: "length (snd (read_arg inq n (c # t))) \<le> length t"
proof -
  have "length (snd (read_arg b m t)) \<le> length t" "length (snd (read_arg b m (tl t))) \<le> length t" for b m
    using read_arg_shorter [of b m t] read_arg_shorter [of b m "tl t"] by auto
  then show ?thesis unfolding read_arg.simps split_def by simp
qed

fun skip_blanks :: "string \<Rightarrow> string" where
  "skip_blanks [] = []"
| "skip_blanks (c # s) = (if char_blank c then skip_blanks s else c # s)"

lemma skip_blanks_length: "length (skip_blanks s) \<le> length s"
  by (induction s) auto

function command_line_to_args :: "string \<Rightarrow> string list" where
  "command_line_to_args s =
     (case skip_blanks s of
        [] \<Rightarrow> []
      | c # t \<Rightarrow> (case read_arg False 0 (c # t) of (a, r) \<Rightarrow> a # command_line_to_args r))"
  by auto
termination
proof (relation "measure length")
  fix s c t a r
  assume s: "skip_blanks s = c # t" and "(a, r) = read_arg False 0 (c # t)"
  then have "length r \<le> length t" using read_arg_rest [of False 0 c t] by (metis snd_conv)
  with s skip_blanks_length [of s] show "(r, s) \<in> measure length" by simp
qed simp

declare command_line_to_args.simps [simp del]

subsection \<open>Round trip\<close>

text \<open>The backslashes just written are those the reader has counted; a quote doubles them.\<close>

lemma read_replicate: "read_arg inq n (replicate k bsl @ s) = read_arg inq (n + k) s"
  by (induction k arbitrary: n) auto

lemma read_escaped_quoted:
  assumes "rest = [] \<or> char_blank (hd rest)"
  shows "read_arg True n (escape_loop True n s @ rest) = (replicate n bsl @ s, tl rest)"
proof (induction s arbitrary: n)
  case Nil
  from assms show ?case
    by (cases rest) (auto simp: read_replicate char_blank_def simp flip: mult_2)
next
  case (Cons c s)
  show ?case
  proof (cases "c = bsl \<or> c = quo")
    case True
    then show ?thesis using Cons.IH
      by (auto simp: read_replicate replicate_append_same simp flip: replicate_Suc)
  next
    case False
    with Cons.IH [of 0] show ?thesis by auto
  qed
qed

lemma read_escaped_plain:
  assumes "rest = [] \<or> char_blank (hd rest)" and "\<not> list_ex char_blank s"
  shows "read_arg False n (escape_loop False n s @ rest) = (replicate n bsl @ s, tl rest)"
  using assms(2)
proof (induction s arbitrary: n)
  case Nil
  from assms(1) show ?case by (cases rest) (auto simp: char_blank_def)
next
  case (Cons c s)
  show ?case
  proof (cases "c = bsl \<or> c = quo")
    case True
    with Cons show ?thesis
      by (auto simp: read_replicate replicate_append_same simp flip: replicate_Suc)
  next
    case False
    with Cons show ?thesis by auto
  qed
qed

lemma escape_loop_id: "\<not> list_ex (\<lambda>c. c = quo \<or> c = bsl) s \<Longrightarrow> escape_loop sp 0 s = s @ (if sp then [quo] else [])"
  by (induction s) auto

lemma EscapeArg_eq:
  "EscapeArg s =
     (if s = [] then [quo, quo]
      else if list_ex char_blank s then quo # escape_loop True 0 s else escape_loop False 0 s)"
  by (auto simp: EscapeArg_def escape_loop_id Let_def)

lemma read_EscapeArg:
  assumes "rest = [] \<or> char_blank (hd rest)"
  shows "read_arg False 0 (EscapeArg s @ rest) = (s, tl rest)"
  using read_escaped_quoted [OF assms, of 0 s] read_escaped_plain [OF assms, of s 0] assms
  by (cases rest) (auto simp: EscapeArg_eq char_blank_def)

lemma EscapeArg_head: "\<exists>c t. EscapeArg s = c # t \<and> \<not> char_blank c"
proof (cases s)
  case (Cons c t)
  then show ?thesis by (auto simp: EscapeArg_eq char_blank_def)
qed (simp add: EscapeArg_def char_blank_def)

lemma args_EscapeArg:
  assumes "rest = [] \<or> char_blank (hd rest)"
  shows "command_line_to_args (EscapeArg s @ rest) = s # command_line_to_args (tl rest)"
proof -
  obtain c t where e: "EscapeArg s = c # t" "\<not> char_blank c" using EscapeArg_head by blast
  with read_EscapeArg [OF assms, of s] show ?thesis
    by (subst command_line_to_args.simps) (simp del: read_arg.simps)
qed

text \<open>
  \<open>CommandLineToArgvW\<close> does not escape in the name of the program: it runs to the next quote when it
  starts with one, else to the next blank, and backslashes are as they are.
\<close>

definition read_program :: "string \<Rightarrow> string \<times> string" where
  "read_program s =
     (if s \<noteq> [] \<and> hd s = quo
      then (takeWhile (\<lambda>c. c \<noteq> quo) (tl s), tl (dropWhile (\<lambda>c. c \<noteq> quo) (tl s)))
      else (takeWhile (\<lambda>c. \<not> char_blank c) s, tl (dropWhile (\<lambda>c. \<not> char_blank c) s)))"

definition CommandLineToArgvW :: "string \<Rightarrow> string list" where
  "CommandLineToArgvW s = (case read_program s of (name, rest) \<Rightarrow> name # command_line_to_args rest)"

text \<open>
  The name of a program on disk has no quote in it and does not end in a backslash; then escaping
  writes it as it is, in quotes when it has blanks or is empty.
\<close>

definition program_name :: "string \<Rightarrow> bool" where
  "program_name s \<longleftrightarrow> quo \<notin> set s \<and> (s = [] \<or> last s \<noteq> bsl)"

lemma escape_loop_program:
  "quo \<notin> set s \<Longrightarrow> s \<noteq> [] \<Longrightarrow> last s \<noteq> bsl \<Longrightarrow> escape_loop sp n s = s @ (if sp then [quo] else [])"
proof (induction s arbitrary: n)
  case (Cons c s)
  then show ?case by (cases "s = []") auto
qed simp

lemma EscapeArg_program:
  assumes "program_name s"
  shows "EscapeArg s = (if s = [] \<or> list_ex char_blank s then quo # s @ [quo] else s)"
  using assms escape_loop_program [of s] by (auto simp: EscapeArg_eq program_name_def)

lemma read_program_EscapeArg:
  assumes "program_name s" and "rest = [] \<or> char_blank (hd rest)"
  shows "\<exists>gap. read_program (EscapeArg s @ rest) = (s, gap) \<and> skip_blanks gap = skip_blanks rest"
proof (cases "s = [] \<or> list_ex char_blank s")
  case True
  have "c \<noteq> quo" if "c \<in> set s" for c using assms(1) that by (auto simp: program_name_def)
  then have "takeWhile (\<lambda>c. c \<noteq> quo) (s @ quo # rest) = s" "dropWhile (\<lambda>c. c \<noteq> quo) (s @ quo # rest) = quo # rest"
    by (simp_all add: takeWhile_append2 dropWhile_append2)
  with True show ?thesis
    by (intro exI [of _ rest]) (simp add: EscapeArg_program [OF assms(1)] read_program_def)
next
  case False
  then have plain: "s \<noteq> []" "\<not> char_blank c" if "c \<in> set s" for c using that by (auto simp: list_ex_iff)
  have "hd s \<noteq> quo" using assms(1) False by (cases s) (auto simp: program_name_def)
  moreover have "takeWhile (\<lambda>c. \<not> char_blank c) (s @ rest) = s" "dropWhile (\<lambda>c. \<not> char_blank c) (s @ rest) = rest"
    using plain assms(2) by (cases rest; simp add: takeWhile_append2 dropWhile_append2)+
  moreover have "skip_blanks (tl rest) = skip_blanks rest" using assms(2) by (cases rest) auto
  ultimately show ?thesis using False
    by (intro exI [of _ "tl rest"]) (simp add: EscapeArg_program [OF assms(1)] read_program_def)
qed

lemma command_line_to_args_blanks:
  "skip_blanks r = skip_blanks s \<Longrightarrow> command_line_to_args r = command_line_to_args s"
  by (subst (1 2) command_line_to_args.simps) simp

lemma command_line_to_args_Nil [simp]: "command_line_to_args [] = []"
  by (subst command_line_to_args.simps) simp

lemma args_escaped: "command_line_to_args (strings_Join (map EscapeArg as) '' '') = as"
proof (induction as)
  case (Cons a as)
  show ?case
  proof (cases as)
    case Nil
    then show ?thesis using args_EscapeArg [of "[]" a] by simp
  next
    case (Cons b bs)
    let ?rest = "'' '' @ strings_Join (map EscapeArg as) '' ''"
    have "strings_Join (map EscapeArg (a # as)) '' '' = EscapeArg a @ ?rest" using Cons by simp
    then show ?thesis
      using args_EscapeArg [of ?rest a] \<open>command_line_to_args (strings_Join (map EscapeArg as) '' '') = as\<close>
      by (simp add: char_blank_def)
  qed
qed simp

text \<open>C30. A process started in the user's session gets exactly the arguments it was given: whatever the path
  and the arguments are, with blanks, quotes, runs of backslashes or nothing in them, a Go program reads
  them back in order; and a program that reads its command line by \<open>CommandLineToArgvW\<close> does so for every
  path that can name a program, without a quote and not ending in a backslash, whatever the arguments.\<close>

theorem buildWindowsCmdline_roundtrip:
  "command_line_to_args (buildWindowsCmdline exePath args) = exePath # args \<and>
   (program_name exePath \<longrightarrow> CommandLineToArgvW (buildWindowsCmdline exePath args) = exePath # args)"
proof (intro conjI impI)
  show "command_line_to_args (buildWindowsCmdline exePath args) = exePath # args"
    using args_escaped [of "exePath # args"] by (simp add: buildWindowsCmdline_def)
next
  assume name: "program_name exePath"
  define rest where "rest = (if args = [] then [] else '' '' @ strings_Join (map EscapeArg args) '' '')"
  have cmd: "buildWindowsCmdline exePath args = EscapeArg exePath @ rest"
    by (cases args) (simp_all add: buildWindowsCmdline_def rest_def)
  have "rest = [] \<or> char_blank (hd rest)" by (simp add: rest_def char_blank_def)
  from read_program_EscapeArg [OF name this] obtain gap
    where gap: "read_program (EscapeArg exePath @ rest) = (exePath, gap)" "skip_blanks gap = skip_blanks rest" by blast
  have "skip_blanks rest = skip_blanks (strings_Join (map EscapeArg args) '' '')"
    by (simp add: rest_def char_blank_def)
  with gap(2) have "command_line_to_args gap = args"
    using command_line_to_args_blanks args_escaped [of args] by metis
  with gap(1) show "CommandLineToArgvW (buildWindowsCmdline exePath args) = exePath # args"
    by (simp add: CommandLineToArgvW_def cmd)
qed

theorem buildWindowsCmdline_roundtrip_witness:
  "CommandLineToArgvW (buildWindowsCmdline ''C:/Program Files/vnc.exe'' [''-run'', ''a \"b'', []]) =
     [''C:/Program Files/vnc.exe'', ''-run'', ''a \"b'', []]"
  using buildWindowsCmdline_roundtrip [of "''C:/Program Files/vnc.exe''" "[''-run'', ''a \"b'', []]"]
  by (simp add: program_name_def)

end
