(* ===== verification/RemoteHelper.thy ===== *)
theory RemoteHelper
  imports Go_OS Go_Containers Cmdline "HOL-Library.Word"
begin

section \<open>Helper processes and the approval dialog (\<open>internal/remotesupport\<close>)\<close>

text \<open>
  The parts of the remote support package below the session manager that compute something: the
  Windows session the helper is started in, waiting for the helper's port, and the approval dialog,
  which is a PowerShell one-liner run in the user's session that writes its answer to a file.
  The Windows calls themselves (snapshots, tokens, \<open>CreateProcessAsUser\<close>) are parameters; which of them
  is made, with what, and what becomes of their errors is modelled.
\<close>

subsection \<open>The session a helper runs in\<close>

text \<open>
  Session identifiers are 32-bit words. \<open>wts\<close> is what \<open>WTSEnumerateSessionsW\<close> returns, identifiers
  with their states, empty when it fails; \<open>console\<close> is \<open>WTSGetActiveConsoleSessionId\<close>, all ones
  when there is none. The Go map used as a set is the list of its keys without duplicates.
\<close>

type_synonym session_id = "32 word"

definition no_console :: session_id where "no_console = 0xFFFFFFFF"

definition candidateSessionIDs :: "(session_id \<times> nat) list \<Rightarrow> session_id \<Rightarrow> session_id list" where
  "candidateSessionIDs wts console =
     (let active = map fst (filter (\<lambda>(sid, state). state = 0) wts);
          ids = (if console \<noteq> no_console then console # active else active)
      in sort_Slice (\<lambda>a b. a < b) (remdups ids))"

definition orderedSessionIDs :: "(session_id \<times> nat) list \<Rightarrow> session_id \<Rightarrow> session_id list" where
  "orderedSessionIDs wts console =
     (let ids = candidateSessionIDs wts console
      in if length ids \<le> 1 then ids
         else (if console \<noteq> no_console \<and> console \<in> set ids then [console] else []) @ filter (\<lambda>sid. sid \<noteq> console) ids)"

definition activeSessionForUserProcess :: "(session_id \<times> nat) list \<Rightarrow> session_id \<Rightarrow> session_id" where
  "activeSessionForUserProcess wts console =
     (case orderedSessionIDs wts console of
        sid # _ \<Rightarrow> sid
      | [] \<Rightarrow> if console \<noteq> no_console then console else 0)"

subsection \<open>Starting a process in the session\<close>

text \<open>
  Tokens and process identifiers are numbers. \<open>te_processes\<close> is a walk over the snapshot of the
  processes, names and identifiers, with the error that ended it when it was not that there are no
  more; \<open>te_findProcess\<close> is the error of \<open>os.FindProcess\<close> for the process just created, which can be gone
  already; the other fields are the Windows calls of the same names.
\<close>

type_synonym token = nat
type_synonym pid = nat

record token_env =
  te_processes :: "goerr + ((string \<times> pid) list \<times> goerr option)"
  te_processSession :: "pid \<Rightarrow> session_id option"
  te_openProcessToken :: "pid \<Rightarrow> goerr + token"
  te_queryUserToken :: "session_id \<Rightarrow> goerr + token"
  te_duplicate :: "token \<Rightarrow> goerr + token"
  te_linked :: "token \<Rightarrow> token option"
  te_elevated :: "token \<Rightarrow> bool"
  te_environment :: "token \<Rightarrow> goerr option"
  te_createProcess :: "token \<Rightarrow> string \<Rightarrow> string \<Rightarrow> string \<Rightarrow> string \<Rightarrow> goerr + pid"
  te_findProcess :: "pid \<Rightarrow> goerr option"

definition duplicatePrimaryTokenFromPID :: "token_env \<Rightarrow> pid \<Rightarrow> goerr + token" where
  "duplicatePrimaryTokenFromPID env p =
     (case te_openProcessToken env p of Inl err \<Rightarrow> Inl err | Inr t \<Rightarrow> te_duplicate env t)"

fun find_explorer :: "token_env \<Rightarrow> session_id \<Rightarrow> (string \<times> pid) list \<Rightarrow> pid option" where
  "find_explorer env sid [] = None"
| "find_explorer env sid ((name, p) # ps) =
     (if strings_EqualFold name ''explorer.exe'' \<and> te_processSession env p = Some sid then Some p
      else find_explorer env sid ps)"

definition primaryTokenFromExplorer :: "token_env \<Rightarrow> session_id \<Rightarrow> goerr + token" where
  "primaryTokenFromExplorer env sid =
     (case te_processes env of
        Inl err \<Rightarrow> Inl err
      | Inr (ps, ended) \<Rightarrow>
          (case find_explorer env sid ps of
             Some p \<Rightarrow> duplicatePrimaryTokenFromPID env p
           | None \<Rightarrow>
               (case ended of
                  Some err \<Rightarrow> Inl err
                | None \<Rightarrow> Inl (GoErr (''explorer.exe not found in session '' @ strconv_Itoa (int (unat sid)))))))"

definition primaryTokenFromSession :: "token_env \<Rightarrow> session_id \<Rightarrow> goerr + token" where
  "primaryTokenFromSession env sid =
     (case te_queryUserToken env sid of Inl err \<Rightarrow> Inl err | Inr t \<Rightarrow> te_duplicate env t)"

definition preferElevatedLinkedToken :: "token_env \<Rightarrow> token \<Rightarrow> token" where
  "preferElevatedLinkedToken env base =
     (case te_linked env base of None \<Rightarrow> base | Some linked \<Rightarrow> if te_elevated env linked then linked else base)"

text \<open>A text with a zero byte has no UTF-16 form.\<close>

definition utf16_error :: goerr where "utf16_error = GoErr ''invalid argument''"

definition has_nul :: "string \<Rightarrow> bool" where "has_nul s \<longleftrightarrow> CHR 0x00 \<in> set s"

definition startHelperProcess ::
    "token_env \<Rightarrow> (session_id \<times> nat) list \<Rightarrow> session_id \<Rightarrow> string \<Rightarrow> string list \<Rightarrow> goerr + pid" where
  "startHelperProcess env wts console exePath args =
     (let sid = activeSessionForUserProcess wts console;
          userToken = (case primaryTokenFromExplorer env sid of
              Inr t \<Rightarrow> Inr t | Inl _ \<Rightarrow> primaryTokenFromSession env sid)
      in case userToken of
           Inl err \<Rightarrow> Inl (GoWrap (''resolve interactive user token (session='' @ strconv_Itoa (int (unat sid)) @ '')'') err)
         | Inr t \<Rightarrow>
             let t = preferElevatedLinkedToken env t; cmdLine = buildWindowsCmdline exePath args in
             if has_nul cmdLine then Inl (GoWrap ''build command line'' utf16_error)
             else if has_nul exePath then Inl (GoWrap ''app path utf16'' utf16_error)
             else if has_nul (filepath_Dir exePath) then Inl (GoWrap ''workdir utf16'' utf16_error)
             else case te_environment env t of
               Some err \<Rightarrow> Inl (GoWrap ''CreateEnvironmentBlock'' err)
             | None \<Rightarrow>
                 (case te_createProcess env t exePath cmdLine (filepath_Dir exePath)
                         (''winsta0'' @ [CHR 0x5C] @ ''default'') of
                    Inl err \<Rightarrow> Inl (GoWrap ''CreateProcessAsUser'' err)
                  | Inr p \<Rightarrow> (case te_findProcess env p of Some err \<Rightarrow> Inl err | None \<Rightarrow> Inr p)))"

text \<open>
  A process that was started runs in the session chosen above, on a token of the user who is logged in
  there (of \<open>explorer\<close> in that session, or of the session itself), possibly its elevated twin, and its
  command line is read as the path and the arguments.
\<close>

lemma find_explorer_session: "find_explorer env sid ps = Some p \<Longrightarrow> te_processSession env p = Some sid"
  by (induction env sid ps rule: find_explorer.induct) (auto split: if_splits)

definition user_token :: "token_env \<Rightarrow> session_id \<Rightarrow> token \<Rightarrow> bool" where
  "user_token env sid t \<longleftrightarrow>
     (\<exists>p t0. te_processSession env p = Some sid \<and> te_openProcessToken env p = Inr t0 \<and> te_duplicate env t0 = Inr t) \<or>
     (\<exists>t0. te_queryUserToken env sid = Inr t0 \<and> te_duplicate env t0 = Inr t)"

lemma explorer_token: "primaryTokenFromExplorer env sid = Inr t \<Longrightarrow> user_token env sid t"
  by (auto simp: primaryTokenFromExplorer_def duplicatePrimaryTokenFromPID_def user_token_def
      split: sum.splits prod.splits option.splits dest: find_explorer_session)

lemma session_token: "primaryTokenFromSession env sid = Inr t \<Longrightarrow> user_token env sid t"
  by (auto simp: primaryTokenFromSession_def user_token_def split: sum.splits)

lemma startHelperProcess_token:
  assumes "startHelperProcess env wts console exePath args = Inr p"
  shows "\<exists>base t cmdLine. user_token env (activeSessionForUserProcess wts console) base \<and>
    (t = base \<or> te_linked env base = Some t \<and> te_elevated env t) \<and>
    te_createProcess env t exePath cmdLine (filepath_Dir exePath) (''winsta0'' @ [CHR 0x5C] @ ''default'') = Inr p \<and>
    te_findProcess env p = None \<and> cmdLine = buildWindowsCmdline exePath args"
proof -
  let ?sid = "activeSessionForUserProcess wts console"
  obtain base where base: "(case primaryTokenFromExplorer env ?sid of Inr t \<Rightarrow> Inr t | Inl _ \<Rightarrow> primaryTokenFromSession env ?sid) = Inr base"
    and created: "te_createProcess env (preferElevatedLinkedToken env base) exePath (buildWindowsCmdline exePath args)
      (filepath_Dir exePath) (''winsta0'' @ [CHR 0x5C] @ ''default'') = Inr p"
    and found: "te_findProcess env p = None"
    using assms unfolding startHelperProcess_def Let_def by (auto split: sum.splits option.splits if_splits)
  from base have "user_token env ?sid base"
    by (auto split: sum.splits dest: explorer_token session_token)
  moreover have "preferElevatedLinkedToken env base = base \<or>
      te_linked env base = Some (preferElevatedLinkedToken env base) \<and> te_elevated env (preferElevatedLinkedToken env base)"
    by (simp add: preferElevatedLinkedToken_def split: option.splits)
  ultimately show ?thesis using created found by blast
qed

subsection \<open>Waiting for the port\<close>

text \<open>The attempts as they come: the clock before each one and whether the connection was made.\<close>

fun WaitListening :: "gotime \<Rightarrow> (gotime \<times> bool) list \<Rightarrow> bool" where
  "WaitListening deadline [] = False"
| "WaitListening deadline ((now, connected) # rest) =
     (if now < deadline then (if connected then True else WaitListening deadline rest) else False)"

lemma WaitListening_iff:
  "WaitListening deadline as \<longleftrightarrow>
     (\<exists>i < length as. snd (as ! i) \<and> (\<forall>j \<le> i. fst (as ! j) < deadline))"
proof (induction deadline as rule: WaitListening.induct)
  case (2 deadline now connected rest)
  show ?case
  proof
    assume w: "WaitListening deadline ((now, connected) # rest)"
    then have n: "now < deadline" by (auto split: if_splits)
    show "\<exists>i < length ((now, connected) # rest). snd (((now, connected) # rest) ! i) \<and>
        (\<forall>j \<le> i. fst (((now, connected) # rest) ! j) < deadline)"
    proof (cases connected)
      case True
      with n show ?thesis by (intro exI [of _ 0]) simp
    next
      case False
      with 2 w n obtain i where "i < length rest" "snd (rest ! i)" "\<forall>j \<le> i. fst (rest ! j) < deadline" by auto
      with n show ?thesis by (intro exI [of _ "Suc i"]) (auto simp: nth_Cons split: nat.split)
    qed
  next
    assume "\<exists>i < length ((now, connected) # rest). snd (((now, connected) # rest) ! i) \<and>
        (\<forall>j \<le> i. fst (((now, connected) # rest) ! j) < deadline)"
    then obtain i where i: "i < Suc (length rest)" "snd (((now, connected) # rest) ! i)"
      "\<forall>j \<le> i. fst (((now, connected) # rest) ! j) < deadline" by auto
    from i(3) have n: "now < deadline" by force
    show "WaitListening deadline ((now, connected) # rest)"
    proof (cases i)
      case 0
      with i n show ?thesis by simp
    next
      case (Suc k)
      then have "\<forall>j \<le> k. fst (rest ! j) < deadline" using i(3) by force
      with Suc i 2 n show ?thesis by auto
    qed
  qed
qed simp

subsection \<open>The approval dialog\<close>

definition quote_char :: char where "quote_char = CHR 0x27"

text \<open>\<open>psSingleQuote\<close>: \<open>strings.ReplaceAll\<close> of one quote by two.\<close>

definition psSingleQuote :: "string \<Rightarrow> string" where
  "psSingleQuote s = concat (map (\<lambda>c. if c = quote_char then [quote_char, quote_char] else [c]) s)"

definition quoted :: "string \<Rightarrow> string" where
  "quoted s = quote_char # s @ [quote_char]"

definition approvalDialogTitle :: string where
  "approvalDialogTitle = ''AppCenter - Uzak Destek Istegi''"

text \<open>The script; the arguments are escaped already, \<open>outPath\<close> is the answer file.\<close>

definition approval_script :: "string \<Rightarrow> string \<Rightarrow> string \<Rightarrow> int \<Rightarrow> string \<Rightarrow> string" where
  "approval_script adminName reason title timeoutSec outPath = concat [
     ''$ws=New-Object -ComObject WScript.Shell; '',
     ''$nl=[Environment]::NewLine; '',
     ''$msg='', quoted (adminName @ '' asagidaki sebep ile ekraniniza baglanmak istiyor.''),
     '' + $nl + $nl + '', quoted reason, '' + $nl + $nl + '', quoted ''Onay veriyor musunuz?'', ''; '',
     ''$r=$ws.Popup($msg,'', strconv_Itoa timeoutSec, '','', quoted title, '',0x24); '',
     ''$mc=1; '',
     ''try { Add-Type -AssemblyName System.Windows.Forms -ErrorAction Stop; $mc=[System.Windows.Forms.Screen]::AllScreens.Count } catch { $mc=1 }; '',
     ''if ([int]$mc -le 0) { $mc=1 }; '',
     ''Set-Content -Path '', quoted outPath, '' -Value ($r.ToString() + '', quoted ''|'', '' + $mc.ToString()) -Encoding ascii -Force'']"

record approvalResult =
  apr_approved :: bool
  apr_monitorCount :: int

definition readApprovalResult :: "goerr + string \<Rightarrow> approvalResult option" where
  "readApprovalResult file =
     (case file of
        Inl err \<Rightarrow> None
      | Inr b \<Rightarrow>
          let s = strings_TrimSpace b in
          if s = [] then None
          else
            let parts = strings_Split s (CHR ''|'') in
            case strconv_Atoi (strings_TrimSpace (parts ! 0)) of
              None \<Rightarrow> None
            | Some code \<Rightarrow>
                let mon = (if length parts \<ge> 2
                  then (case strconv_Atoi (strings_TrimSpace (parts ! 1)) of
                          Some n \<Rightarrow> if n > 0 then n else 1 | None \<Rightarrow> 1)
                  else 1)
                in Some \<lparr>apr_approved = (code = 6), apr_monitorCount = mon\<rparr>)"

text \<open>The poll loop: the clock and what reading the answer file gives, at each turn.\<close>

fun poll_approval :: "gotime \<Rightarrow> (gotime \<times> (goerr + string)) list \<Rightarrow> bool \<times> int" where
  "poll_approval deadline [] = (False, 1)"
| "poll_approval deadline ((now, content) # rest) =
     (if now < deadline
      then case readApprovalResult content of
             Some r \<Rightarrow> (apr_approved r, apr_monitorCount r)
           | None \<Rightarrow> poll_approval deadline rest
      else (False, 1))"

text \<open>
  \<open>CloseApprovalDialogFromService\<close> takes the process and the answer file off the record, kills the one and
  removes the other; an error of either is ignored.
\<close>

record dialog_record =
  dr_proc :: "pid option"
  dr_outFile :: string

definition CloseApprovalDialogFromService ::
    "fs_oracle \<Rightarrow> dialog_record \<Rightarrow> fs \<Rightarrow> pid list \<times> dialog_record \<times> fs" where
  "CloseApprovalDialogFromService orc d s =
     (case dr_proc d of None \<Rightarrow> [] | Some p \<Rightarrow> [p],
      d\<lparr>dr_proc := None, dr_outFile := []\<rparr>,
      if dr_outFile d \<noteq> [] then snd (os_Remove orc (dr_outFile d) s) else s)"

lemma CloseApprovalDialog_once:
  "CloseApprovalDialogFromService orc (fst (snd (CloseApprovalDialogFromService orc d s))) s' =
     ([], fst (snd (CloseApprovalDialogFromService orc d s)), s')"
  by (simp add: CloseApprovalDialogFromService_def)

definition ShowApprovalDialogFromService ::
    "(string \<Rightarrow> goerr option) \<Rightarrow> gotime \<Rightarrow> string \<Rightarrow> (gotime \<times> (goerr + string)) list \<Rightarrow>
     string \<Rightarrow> string \<Rightarrow> int \<Rightarrow> (bool \<times> int) \<times> goerr option" where
  "ShowApprovalDialogFromService launch start outPath polls adminName reason timeoutSec =
     (let timeoutSec = (if timeoutSec \<le> 0 then 30 else timeoutSec);
          adminName = (if strings_TrimSpace adminName = [] then ''Yonetici'' else adminName);
          reason = (if strings_TrimSpace reason = [] then ''Belirtilmedi'' else reason);
          ps = approval_script (psSingleQuote adminName) (psSingleQuote reason)
                 (psSingleQuote approvalDialogTitle) timeoutSec outPath
      in case launch ps of
           Some err \<Rightarrow> ((False, 1), Some (GoWrap ''start approval popup'' err))
         | None \<Rightarrow> (poll_approval (time_Add start (dur_mul (timeoutSec + 2) dur_second)) polls, None))"

subsection \<open>What they promise\<close>

lemma word_less_strict_weak: "strict_weak (\<lambda>a b. a < (b :: session_id))"
  by (auto simp: strict_weak_def)

text \<open>
  Exactly the active sessions and the console session, each once, the console session first if
  there is one.
\<close>

lemma set_candidateSessionIDs:
  "set (candidateSessionIDs wts console) =
     {sid. (sid, 0) \<in> set wts} \<union> (if console \<noteq> no_console then {console} else {})"
  by (auto simp: candidateSessionIDs_def Let_def image_iff)

lemma distinct_candidateSessionIDs: "distinct (candidateSessionIDs wts console)"
proof -
  have "mset (candidateSessionIDs wts console) =
      mset (remdups (if console \<noteq> no_console then console # map fst (filter (\<lambda>(sid, state). state = 0) wts)
        else map fst (filter (\<lambda>(sid, state). state = 0) wts)))"
    by (simp add: candidateSessionIDs_def Let_def gosort.srt_mset)
  then show ?thesis by (metis distinct_remdups mset_eq_imp_distinct_iff)
qed

lemma orderedSessionIDs_perm:
  assumes "(no_console, 0) \<notin> set wts"
  shows "mset (orderedSessionIDs wts console) = mset (candidateSessionIDs wts console)"
proof -
  have "mset ids = mset ((if c \<in> set ids then [c] else []) @ filter (\<lambda>sid. sid \<noteq> c) ids)"
    if "distinct ids" for ids and c :: session_id
    using that by (induction ids) (auto simp: filter_id_conv)
  from this [OF distinct_candidateSessionIDs, of wts console console] show ?thesis
    using set_candidateSessionIDs [of wts console] assms
    by (auto simp: orderedSessionIDs_def Let_def filter_id_conv split: if_splits)
qed

text \<open>\<open>approved\<close> needs an answer file that says 6 (Yes), read before the deadline.\<close>

lemma poll_approval_True:
  "poll_approval deadline polls = (True, mon) \<Longrightarrow>
     \<exists>now b. (now, Inr b) \<in> set polls \<and> now < deadline \<and> 0 < mon \<and>
       strconv_Atoi (strings_TrimSpace (strings_Split (strings_TrimSpace b) (CHR ''|'') ! 0)) = Some 6"
proof (induction deadline polls rule: poll_approval.induct)
  case (2 deadline now content rest)
  then have n: "now < deadline" by (auto split: if_splits)
  show ?case
  proof (cases "readApprovalResult content")
    case None
    with 2 n show ?thesis by auto
  next
    case (Some r)
    with 2 n have r: "apr_approved r" "mon = apr_monitorCount r" by auto
    from Some r have "\<exists>b. content = Inr b \<and> 0 < mon \<and>
        strconv_Atoi (strings_TrimSpace (strings_Split (strings_TrimSpace b) (CHR ''|'') ! 0)) = Some 6"
      by (auto simp: readApprovalResult_def Let_def split: sum.splits option.splits if_splits)
    with n show ?thesis by auto
  qed
qed simp

text \<open>
  How PowerShell reads a single-quoted literal, after the opening quote: two quotes are one, a
  single one ends it. As quotes count the ASCII one and U+2018 to U+201B, here in UTF-8.
\<close>

definition ps_quote :: "string \<Rightarrow> (string \<times> string) option" where
  "ps_quote s =
     (case s of
        [] \<Rightarrow> None
      | c # r \<Rightarrow>
          if c = quote_char then Some ([c], r)
          else if c = CHR 0xE2 \<and> 2 \<le> length r \<and> r ! 0 = CHR 0x80 \<and> r ! 1 \<in> {CHR 0x98, CHR 0x99, CHR 0x9A, CHR 0x9B}
          then Some (c # take 2 r, drop 2 r)
          else None)"

lemma ps_quote_shorter: "ps_quote s = Some (q, r) \<Longrightarrow> length r < length s"
  by (auto simp: ps_quote_def split: list.splits if_splits)

function ps_literal :: "string \<Rightarrow> (string \<times> string) option" where
  "ps_literal s =
     (case ps_quote s of
        Some (q, r) \<Rightarrow>
          (case ps_quote r of
             Some (q', r') \<Rightarrow> map_option (\<lambda>(l, rest). (q @ l, rest)) (ps_literal r')
           | None \<Rightarrow> Some ([], r))
      | None \<Rightarrow>
          (case s of
             [] \<Rightarrow> None
           | c # t \<Rightarrow> map_option (\<lambda>(l, rest). (c # l, rest)) (ps_literal t)))"
  by pat_completeness auto
termination
proof (relation "measure length")
  fix s x q r y q' r'
  assume "ps_quote s = Some x" "(q, r) = x" "ps_quote r = Some y" "(q', r') = y"
  then have "length r < length s" "length r' < length r" using ps_quote_shorter by blast+
  then show "(r', s) \<in> measure length" by simp
qed auto

declare ps_literal.simps [simp del]

lemma ps_quote_plain: "c \<noteq> quote_char \<Longrightarrow> c \<noteq> CHR 0xE2 \<Longrightarrow> ps_quote (c # s) = None"
  by (simp add: ps_quote_def)

lemma ps_quote_quote: "ps_quote (quote_char # s) = Some ([quote_char], s)"
  by (simp add: ps_quote_def)

lemma psSingleQuote_read:
  assumes "CHR 0xE2 \<notin> set s" and "ps_quote rest = None"
  shows "ps_literal (psSingleQuote s @ quote_char # rest) = Some (s, rest)"
  using assms(1)
proof (induction s)
  case Nil
  show ?case
    by (subst ps_literal.simps) (simp add: psSingleQuote_def ps_quote_quote assms(2))
next
  case (Cons c s)
  then have IH: "ps_literal (psSingleQuote s @ quote_char # rest) = Some (s, rest)" by simp
  show ?case
  proof (cases "c = quote_char")
    case True
    then have "psSingleQuote (c # s) = quote_char # quote_char # psSingleQuote s"
      by (simp add: psSingleQuote_def)
    then show ?thesis
      by (subst ps_literal.simps) (simp add: ps_quote_quote IH True)
  next
    case False
    then have "psSingleQuote (c # s) = c # psSingleQuote s" by (simp add: psSingleQuote_def)
    moreover have "ps_quote (c # psSingleQuote s @ quote_char # rest) = None"
      using False Cons.prems by (intro ps_quote_plain) auto
    ultimately show ?thesis
      by (subst ps_literal.simps) (simp add: IH)
  qed
qed

text \<open>The administrator's name and reason cannot break out of the script: a text without the byte
  \<open>0xE2\<close> that is escaped by \<open>psSingleQuote\<close> and closed by a quote is read by PowerShell as exactly
  that text, and reading goes on after the closing quote. (With that byte it may not be: the escape
  does not double the typographic quotes that PowerShell takes for quotes too.)\<close>

theorem psSingleQuote_literal:
  assumes "CHR 0xE2 \<notin> set s" and "ps_quote rest = None"
  shows "ps_literal (psSingleQuote s @ quote_char # rest) = Some (s, rest)"
  using assms by (rule psSingleQuote_read)

definition ps_attack :: string where
  "ps_attack = [CHR 0xE2, CHR 0x80, CHR 0x99] @ ''; calc #''"

lemma psSingleQuote_attack: "ps_literal (psSingleQuote ps_attack @ quote_char # rest) = Some ([], ''; calc #'' @ quote_char # rest)"
  by (subst ps_literal.simps) (simp add: psSingleQuote_def ps_attack_def ps_quote_def quote_char_def)

theorem psSingleQuote_literal_witness:
  "ps_literal (psSingleQuote (''it'' @ quoted ''s'') @ quote_char # '' + $nl'') = Some (''it'' @ quoted ''s'', '' + $nl'')"
  by (rule psSingleQuote_literal) (simp_all add: quoted_def quote_char_def ps_quote_def)

end
