(* ===== verification/VncServer.thy ===== *)
theory VncServer
  imports RemoteSession RemoteHelper
begin

section \<open>The helper processes of a session (\<open>internal/remotesupport/vnc.go\<close>)\<close>

text \<open>
  The server of the session machine knows only which of its two helper processes it holds. Here are
  the operations with the paths, the command lines and the processes they start and kill, and the
  proof that the ones of the machine are their abstraction.
\<close>

datatype vnc_effect =
    RunKill string
  | KillProcess pid
  | TaskKill string

record VncHelper =
  vh_exePath :: string
  vh_configPath :: string
  vh_process :: "pid option"
  vh_process2 :: "pid option"

definition exeDirectory :: "goerr + string \<Rightarrow> string" where
  "exeDirectory exe = (case exe of Inl err \<Rightarrow> ''.'' | Inr e \<Rightarrow> filepath_Dir e)"

definition dataDirectory :: "(string \<Rightarrow> string) \<Rightarrow> string" where
  "dataDirectory getenv =
     (let pd = getenv ''PROGRAMDATA''; pd = (if pd = [] then ''C:'' @ [CHR 0x5C] @ ''ProgramData'' else pd)
      in filepath_Join pd ''AppCenter'')"

definition vncHelperName :: string where "vncHelperName = ''rshelper.exe''"

definition vncConfigName :: string where "vncConfigName = ''acremote.ini''"

definition NewVNCServer :: "goerr + string \<Rightarrow> (string \<Rightarrow> string) \<Rightarrow> VncHelper" where
  "NewVNCServer exe getenv =
     \<lparr>vh_exePath = filepath_Join (exeDirectory exe) vncHelperName,
      vh_configPath = filepath_Join (dataDirectory getenv) vncConfigName,
      vh_process = None, vh_process2 = None\<rparr>"

text \<open>\<open>exists\<close> is the answer of \<open>os.Stat\<close>, \<open>start\<close> is \<open>startHelperProcess\<close>; errors of killing are ignored.\<close>

definition vnc_Available :: "(string \<Rightarrow> bool) \<Rightarrow> VncHelper \<Rightarrow> bool" where
  "vnc_Available ex v = ex (vh_exePath v)"

definition vnc_Stop :: "(string \<Rightarrow> bool) \<Rightarrow> VncHelper \<Rightarrow> vnc_effect list \<times> VncHelper" where
  "vnc_Stop ex v =
     ((if vnc_Available ex v then [RunKill (vh_exePath v)] else []) @
      (case vh_process v of None \<Rightarrow> [] | Some p \<Rightarrow> [KillProcess p]) @
      (case vh_process2 v of None \<Rightarrow> [] | Some p \<Rightarrow> [KillProcess p]) @
      [TaskKill vncHelperName],
      v\<lparr>vh_process := None, vh_process2 := None\<rparr>)"

type_synonym starter = "string \<Rightarrow> string list \<Rightarrow> goerr + pid"

definition not_found :: "VncHelper \<Rightarrow> goerr" where
  "not_found v = GoErr (''vnc helper not found: '' @ vh_exePath v)"

definition vnc_args :: "int \<Rightarrow> string list" where
  "vnc_args port = [''-multi'', ''-run'', ''-port'', strconv_Itoa port]"

definition vnc_Start :: "(string \<Rightarrow> bool) \<Rightarrow> starter \<Rightarrow> int \<Rightarrow> VncHelper \<Rightarrow> goerr option \<times> vnc_effect list \<times> VncHelper" where
  "vnc_Start ex start port v =
     (if \<not> vnc_Available ex v then (Some (not_found v), [], v)
      else case vnc_Stop ex v of (killed, v) \<Rightarrow>
        (case start (vh_exePath v) (vnc_args port) of
           Inl err \<Rightarrow> (Some (GoWrap ''start helper'' err), killed, v)
         | Inr p \<Rightarrow> (None, killed, v\<lparr>vh_process := Some p\<rparr>)))"

definition vnc_StartSecondary ::
    "(string \<Rightarrow> bool) \<Rightarrow> starter \<Rightarrow> int \<Rightarrow> VncHelper \<Rightarrow> goerr option \<times> VncHelper" where
  "vnc_StartSecondary ex start port v =
     (if \<not> vnc_Available ex v then (Some (not_found v), v)
      else case start (vh_exePath v) (vnc_args port @ [''-displaymode'', ''secondary'']) of
             Inl err \<Rightarrow> (Some (GoWrap ''start secondary helper'' err), v)
           | Inr p \<Rightarrow> (None, v\<lparr>vh_process2 := Some p\<rparr>))"

subsection \<open>The server of the session machine is their abstraction\<close>

definition vnc_abs :: "VncHelper \<Rightarrow> VNCServer" where
  "vnc_abs v = \<lparr>vnc_process = (vh_process v \<noteq> None), vnc_process2 = (vh_process2 v \<noteq> None)\<rparr>"

definition started_ok :: "starter \<Rightarrow> VncHelper \<Rightarrow> string list \<Rightarrow> bool" where
  "started_ok start v args \<longleftrightarrow> \<not> isl (start (vh_exePath v) args)"

lemmas vnc_ops = vnc_Start_def vnc_Stop_def vnc_StartSecondary_def vncStart_def vncStop_def vncStartSecondary_def

lemma vnc_Stop_refines: "vnc_abs (snd (vnc_Stop ex v)) = vncStop (vnc_abs v)"
  by (simp add: vnc_ops vnc_abs_def)

lemma vnc_Start_refines:
  "case vnc_Start ex start port v of (r, killed, v') \<Rightarrow>
     vncStart (vnc_Available ex v) (started_ok start v (vnc_args port)) (vnc_abs v) = (r = None, vnc_abs v')"
  by (auto simp: vnc_ops vnc_abs_def started_ok_def isl_def split: sum.split)

lemma vnc_StartSecondary_refines:
  "case vnc_StartSecondary ex start port v of (r, v') \<Rightarrow>
     vncStartSecondary (vnc_Available ex v) (started_ok start v (vnc_args port @ [''-displaymode'', ''secondary'']))
       (vnc_abs v) = (r = None, vnc_abs v')"
  by (auto simp: vnc_ops vnc_abs_def started_ok_def isl_def split: sum.split)

text \<open>
  No helper process is lost: over any run of the operations, each process that was started is held,
  or has been killed, or was replaced by a second start of the secondary helper, which stops nothing.
\<close>

datatype vnc_op = OpStart starter int | OpStartSecondary starter int | OpStop

fun vnc_op_step :: "(string \<Rightarrow> bool) \<Rightarrow> vnc_op \<Rightarrow> vnc_effect list \<times> VncHelper \<Rightarrow> vnc_effect list \<times> VncHelper" where
  "vnc_op_step ex (OpStart start port) (es, v) =
     (case vnc_Start ex start port v of (_, killed, v') \<Rightarrow> (es @ killed, v'))"
| "vnc_op_step ex (OpStartSecondary start port) (es, v) = (es, snd (vnc_StartSecondary ex start port v))"
| "vnc_op_step ex OpStop (es, v) = (case vnc_Stop ex v of (killed, v') \<Rightarrow> (es @ killed, v'))"

lemma vnc_processes_killed:
  assumes "vnc_op_step ex op (es, v) = (es', v')" and "vh_process v = Some p"
  shows "vh_process v' = Some p \<or> KillProcess p \<in> set es'"
  using assms by (cases op) (auto simp: vnc_ops split: sum.splits if_splits prod.splits)

lemma vnc_secondary_killed:
  assumes "vnc_op_step ex op (es, v) = (es', v')" and "vh_process2 v = Some p"
    and "\<And>start port. op \<noteq> OpStartSecondary start port"
  shows "vh_process2 v' = Some p \<or> KillProcess p \<in> set es'"
  using assms by (cases op) (auto simp: vnc_ops split: sum.splits if_splits prod.splits)

end
