(* ===== verification/HelperHandles.thy ===== *)
theory HelperHandles
  imports RemoteHelper "HOL-Library.Multiset"
begin

section \<open>Handles of the helper start (\<open>internal/remotesupport/process_windows.go\<close>)\<close>

text \<open>
  Starting a helper opens a snapshot, processes, tokens, an environment block, and the handles of the new
  process, on paths that fail at every call. \<open>RemoteHelper\<close> computes the result; here the same
  functions also list what they open and close, in the order of the code with its deferred calls. They
  have the same result, and close what they open.
\<close>

datatype resource =
    Snapshot
  | ProcessHandle pid
  | TokenHandle token
  | EnvBlock
  | NewThread
  | NewProcess pid
  | FoundProcess pid

datatype handle_op = Opens resource | Closes resource

text \<open>\<open>OpenProcess\<close> and \<open>OpenProcessToken\<close>, which \<open>RemoteHelper\<close> takes as one call.\<close>

record handle_env =
  hn_tokens :: token_env
  hn_openProcess :: "pid \<Rightarrow> goerr option"
  hn_openToken :: "pid \<Rightarrow> goerr + token"

definition hn_env :: "handle_env \<Rightarrow> token_env" where
  "hn_env h = (hn_tokens h)\<lparr>te_openProcessToken := (\<lambda>p. case hn_openProcess h p of
     Some err \<Rightarrow> Inl err | None \<Rightarrow> hn_openToken h p)\<rparr>"

type_synonym 'a handled = "handle_op list \<times> 'a"

subsection \<open>The functions with their handles\<close>

definition duplicate_h :: "handle_env \<Rightarrow> token \<Rightarrow> (goerr + token) handled" where
  "duplicate_h h src =
     (case te_duplicate (hn_tokens h) src of
        Inl err \<Rightarrow> ([], Inl err) | Inr primary \<Rightarrow> ([Opens (TokenHandle primary)], Inr primary))"

definition duplicate_pid_h :: "handle_env \<Rightarrow> pid \<Rightarrow> (goerr + token) handled" where
  "duplicate_pid_h h p =
     (case hn_openProcess h p of
        Some err \<Rightarrow> ([], Inl err)
      | None \<Rightarrow>
          (case hn_openToken h p of
             Inl err \<Rightarrow> ([Opens (ProcessHandle p), Closes (ProcessHandle p)], Inl err)
           | Inr t \<Rightarrow>
               (case duplicate_h h t of (es, r) \<Rightarrow>
                  (Opens (ProcessHandle p) # Opens (TokenHandle t) # es @
                     [Closes (TokenHandle t), Closes (ProcessHandle p)], r))))"

definition explorer_h :: "handle_env \<Rightarrow> session_id \<Rightarrow> (goerr + token) handled" where
  "explorer_h h sid =
     (case te_processes (hn_tokens h) of
        Inl err \<Rightarrow> ([], Inl err)
      | Inr (ps, ended) \<Rightarrow>
          (case (case find_explorer (hn_env h) sid ps of
                   Some p \<Rightarrow> duplicate_pid_h h p
                 | None \<Rightarrow> ([], Inl (case ended of Some err \<Rightarrow> err
                     | None \<Rightarrow> GoErr (''explorer.exe not found in session '' @ strconv_Itoa (int (unat sid)))))) of
             (es, r) \<Rightarrow> (Opens Snapshot # es @ [Closes Snapshot], r)))"

definition session_h :: "handle_env \<Rightarrow> session_id \<Rightarrow> (goerr + token) handled" where
  "session_h h sid =
     (case te_queryUserToken (hn_tokens h) sid of
        Inl err \<Rightarrow> ([], Inl err)
      | Inr t \<Rightarrow> (case duplicate_h h t of (es, r) \<Rightarrow> (Opens (TokenHandle t) # es @ [Closes (TokenHandle t)], r)))"

definition user_token_h :: "handle_env \<Rightarrow> session_id \<Rightarrow> (goerr + token) handled" where
  "user_token_h h sid =
     (case explorer_h h sid of
        (es, Inr t) \<Rightarrow> (es, Inr t)
      | (es, Inl _) \<Rightarrow> (case session_h h sid of (es', r) \<Rightarrow> (es @ es', r)))"

definition elevated_h :: "handle_env \<Rightarrow> token \<Rightarrow> token handled" where
  "elevated_h h base =
     (case te_linked (hn_tokens h) base of
        None \<Rightarrow> ([], base)
      | Some linked \<Rightarrow>
          if te_elevated (hn_tokens h) linked then ([Opens (TokenHandle linked), Closes (TokenHandle base)], linked)
          else ([Opens (TokenHandle linked), Closes (TokenHandle linked)], base))"

definition start_h ::
    "handle_env \<Rightarrow> (session_id \<times> nat) list \<Rightarrow> session_id \<Rightarrow> string \<Rightarrow> string list \<Rightarrow> (goerr + pid) handled" where
  "start_h h wts console exePath args =
     (let sid = activeSessionForUserProcess wts console in
      case user_token_h h sid of
        (es, Inl err) \<Rightarrow> (es, Inl (GoWrap (''resolve interactive user token (session='' @ strconv_Itoa (int (unat sid)) @ '')'') err))
      | (es, Inr base) \<Rightarrow>
          (case elevated_h h base of (es', t) \<Rightarrow>
             let cmdLine = buildWindowsCmdline exePath args;
                 (es'', r) =
                   (if has_nul cmdLine then ([], Inl (GoWrap ''build command line'' utf16_error))
                    else if has_nul exePath then ([], Inl (GoWrap ''app path utf16'' utf16_error))
                    else if has_nul (filepath_Dir exePath) then ([], Inl (GoWrap ''workdir utf16'' utf16_error))
                    else case te_environment (hn_tokens h) t of
                      Some err \<Rightarrow> ([], Inl (GoWrap ''CreateEnvironmentBlock'' err))
                    | None \<Rightarrow>
                        (case te_createProcess (hn_tokens h) t exePath cmdLine (filepath_Dir exePath)
                                (''winsta0'' @ [CHR 0x5C] @ ''default'') of
                           Inl err \<Rightarrow> ([Opens EnvBlock, Closes EnvBlock], Inl (GoWrap ''CreateProcessAsUser'' err))
                         | Inr p \<Rightarrow>
                             (case te_findProcess (hn_tokens h) p of
                                Some err \<Rightarrow>
                                  ([Opens EnvBlock, Opens NewThread, Opens (NewProcess p), Closes NewThread,
                                    Closes (NewProcess p), Closes EnvBlock], Inl err)
                              | None \<Rightarrow>
                                  ([Opens EnvBlock, Opens NewThread, Opens (NewProcess p), Closes NewThread,
                                    Closes (NewProcess p), Opens (FoundProcess p), Closes EnvBlock], Inr p))))
             in (es @ es' @ es'' @ [Closes (TokenHandle t)], r)))"

subsection \<open>The same result\<close>

lemma hn_env_simps [simp]:
  "te_processes (hn_env h) = te_processes (hn_tokens h)" "te_queryUserToken (hn_env h) = te_queryUserToken (hn_tokens h)"
  "te_duplicate (hn_env h) = te_duplicate (hn_tokens h)" "te_linked (hn_env h) = te_linked (hn_tokens h)"
  "te_elevated (hn_env h) = te_elevated (hn_tokens h)" "te_environment (hn_env h) = te_environment (hn_tokens h)"
  "te_createProcess (hn_env h) = te_createProcess (hn_tokens h)" "te_findProcess (hn_env h) = te_findProcess (hn_tokens h)"
  by (simp_all add: hn_env_def)

lemma duplicate_h_result: "snd (duplicate_h h t) = te_duplicate (hn_tokens h) t"
  by (simp add: duplicate_h_def split: sum.split)

lemma duplicate_pid_h_result: "snd (duplicate_pid_h h p) = duplicatePrimaryTokenFromPID (hn_env h) p"
  using duplicate_h_result [of h]
  by (simp add: duplicate_pid_h_def duplicatePrimaryTokenFromPID_def hn_env_def case_prod_beta split: option.split sum.split)

lemma explorer_h_result: "snd (explorer_h h sid) = primaryTokenFromExplorer (hn_env h) sid"
  using duplicate_pid_h_result [of h]
  by (simp add: explorer_h_def primaryTokenFromExplorer_def case_prod_beta split: option.split sum.split)

lemma session_h_result: "snd (session_h h sid) = primaryTokenFromSession (hn_env h) sid"
  using duplicate_h_result [of h]
  by (simp add: session_h_def primaryTokenFromSession_def case_prod_beta split: sum.split)

lemma user_token_h_result:
  "snd (user_token_h h sid) = (case primaryTokenFromExplorer (hn_env h) sid of
     Inr t \<Rightarrow> Inr t | Inl _ \<Rightarrow> primaryTokenFromSession (hn_env h) sid)"
  using explorer_h_result [of h sid] session_h_result [of h sid]
  by (auto simp: user_token_h_def split: prod.splits sum.splits)

lemma elevated_h_result: "snd (elevated_h h t) = preferElevatedLinkedToken (hn_env h) t"
  by (simp add: elevated_h_def preferElevatedLinkedToken_def split: option.split)

lemma start_h_result: "snd (start_h h wts console exePath args) = startHelperProcess (hn_env h) wts console exePath args"
proof -
  let ?sid = "activeSessionForUserProcess wts console"
  obtain es r where u: "user_token_h h ?sid = (es, r)" by fastforce
  with user_token_h_result [of h ?sid]
  have r: "(case primaryTokenFromExplorer (hn_env h) ?sid of Inr t \<Rightarrow> Inr t | Inl _ \<Rightarrow> primaryTokenFromSession (hn_env h) ?sid) = r"
    by simp
  show ?thesis
  proof (cases r)
    case (Inl err)
    with u r show ?thesis by (simp add: start_h_def startHelperProcess_def Let_def)
  next
    case (Inr base)
    obtain es' t where e: "elevated_h h base = (es', t)" by fastforce
    with elevated_h_result [of h base] have "preferElevatedLinkedToken (hn_env h) base = t" by simp
    with u r Inr e show ?thesis
      by (simp add: start_h_def startHelperProcess_def Let_def split: option.split sum.split)
  qed
qed

subsection \<open>Nothing is left open\<close>

definition opened :: "handle_op list \<Rightarrow> resource multiset" where
  "opened es = mset (List.map_filter (\<lambda>e. case e of Opens r \<Rightarrow> Some r | Closes _ \<Rightarrow> None) es)"

definition closed :: "handle_op list \<Rightarrow> resource multiset" where
  "closed es = mset (List.map_filter (\<lambda>e. case e of Closes r \<Rightarrow> Some r | Opens _ \<Rightarrow> None) es)"

lemma opened_closed_simps [simp]:
  "opened [] = {#}" "closed [] = {#}"
  "opened (Opens r # es) = add_mset r (opened es)" "opened (Closes r # es) = opened es"
  "closed (Closes r # es) = add_mset r (closed es)" "closed (Opens r # es) = closed es"
  "opened (es @ es') = opened es + opened es'" "closed (es @ es') = closed es + closed es'"
  by (simp_all add: opened_def closed_def List.map_filter_def)

text \<open>What is open after a call: the token it returns, and nothing when it fails.\<close>

definition held :: "goerr + token \<Rightarrow> resource multiset" where
  "held r = (case r of Inl err \<Rightarrow> {#} | Inr t \<Rightarrow> {#TokenHandle t#})"

definition leaves :: "resource multiset \<Rightarrow> handle_op list \<Rightarrow> bool" where
  "leaves rs es \<longleftrightarrow> opened es = closed es + rs"

lemma duplicate_h_leaves: "duplicate_h h t = (es, r) \<Longrightarrow> leaves (held r) es"
  by (auto simp: duplicate_h_def leaves_def held_def split: sum.splits)

lemma duplicate_pid_h_leaves: "duplicate_pid_h h p = (es, r) \<Longrightarrow> leaves (held r) es"
  by (auto simp: duplicate_pid_h_def leaves_def held_def dest!: duplicate_h_leaves split: option.splits sum.splits prod.splits)

lemma explorer_h_leaves: "explorer_h h sid = (es, r) \<Longrightarrow> leaves (held r) es"
  by (auto simp: explorer_h_def leaves_def held_def dest!: duplicate_pid_h_leaves split: option.splits sum.splits prod.splits)

lemma session_h_leaves: "session_h h sid = (es, r) \<Longrightarrow> leaves (held r) es"
  by (auto simp: session_h_def leaves_def held_def dest!: duplicate_h_leaves split: sum.splits prod.splits)

lemma user_token_h_leaves: "user_token_h h sid = (es, r) \<Longrightarrow> leaves (held r) es"
  using explorer_h_leaves [of h sid] session_h_leaves [of h sid]
  by (auto simp: user_token_h_def leaves_def held_def split: sum.splits prod.splits)

lemma elevated_h_leaves: "elevated_h h base = (es, t) \<Longrightarrow> opened es + {#TokenHandle base#} = closed es + {#TokenHandle t#}"
  by (auto simp: elevated_h_def split: option.splits if_splits)

text \<open>The handle inside the \<open>os.Process\<close> that is returned belongs to the caller.\<close>

definition returned_handles :: "goerr + pid \<Rightarrow> resource multiset" where
  "returned_handles r = (case r of Inl err \<Rightarrow> {#} | Inr p \<Rightarrow> {#FoundProcess p#})"

text \<open>C21. Starting a helper leaks nothing: whatever fails, on every path every snapshot, token, process and
  thread handle and environment block that is opened is closed again, as often as it was opened; the one
  handle left is that of the \<open>os.Process\<close> that is returned, and none is when \<open>os.FindProcess\<close> or an earlier
  call fails. The result is that of \<open>startHelperProcess\<close>.\<close>

theorem start_helper_no_leak:
  "opened (fst (start_h h wts console exePath args)) =
     closed (fst (start_h h wts console exePath args)) + returned_handles (snd (start_h h wts console exePath args)) \<and>
   snd (start_h h wts console exePath args) = startHelperProcess (hn_env h) wts console exePath args"
proof
  let ?sid = "activeSessionForUserProcess wts console"
  obtain es r where u: "user_token_h h ?sid = (es, r)" by fastforce
  note left = user_token_h_leaves [OF u]
  show "opened (fst (start_h h wts console exePath args)) =
      closed (fst (start_h h wts console exePath args)) + returned_handles (snd (start_h h wts console exePath args))"
  proof (cases r)
    case (Inl err)
    with u left show ?thesis by (simp add: start_h_def leaves_def held_def returned_handles_def Let_def)
  next
    case (Inr base)
    obtain es' t where e: "elevated_h h base = (es', t)" by fastforce
    have "opened (es @ es') = closed (es @ es') + {#TokenHandle t#}"
      using left elevated_h_leaves [OF e] by (simp add: leaves_def held_def Inr)
    with u Inr e show ?thesis
      by (simp add: start_h_def returned_handles_def Let_def split: option.split sum.split)
  qed
qed (rule start_h_result)

end
