(* ===== verification/Go_Bytes.thy ===== *)
theory Go_Bytes
  imports "HOL-Library.Word"
begin

unbundle bit_operations_syntax

section \<open>Words as bytes\<close>

text \<open>
  Numbers of 16 and 32 bits as the bytes they are stored in, the low one first, the way an icon file is
  written (\<open>encoding/binary\<close>, \<open>LittleEndian\<close>) and Windows lays out a struct in memory.
\<close>

type_synonym octet = "8 word"

definition le16 :: "16 word \<Rightarrow> octet list" where
  "le16 v = [ucast v, ucast (drop_bit 8 v)]"

definition le32 :: "32 word \<Rightarrow> octet list" where
  "le32 v = [ucast v, ucast (drop_bit 8 v), ucast (drop_bit 16 v), ucast (drop_bit 24 v)]"

lemma length_le [simp]: "length (le16 a) = 2" "length (le32 b) = 4"
  by (simp_all add: le16_def le32_def)

text \<open>The bytes of a number, put together again.\<close>

lemma unat_bytes16: "unat (ucast v :: octet) + 256 * unat (ucast (drop_bit 8 v) :: octet) = unat v" for v :: "16 word"
proof -
  have "unat v < 65536" using unsigned_less [of v] by simp
  then show ?thesis
    by (simp add: unsigned_ucast_eq unsigned_drop_bit_eq take_bit_eq_mod) (simp add: drop_bit_eq_div)
qed

lemma unat_bytes32:
  "unat (ucast v :: octet) + 256 * unat (ucast (drop_bit 8 v) :: octet) +
   65536 * (unat (ucast (drop_bit 16 v) :: octet) + 256 * unat (ucast (drop_bit 24 v) :: octet)) = unat v" for v :: "32 word"
proof -
  have "unat v < 4294967296" using unsigned_less [of v] by simp
  moreover have "n mod 256 + 256 * (n div 256 mod 256) + 65536 * (n div 65536 mod 256 + 256 * (n div 16777216)) = n" for n :: nat
  proof -
    have d: "n div 65536 = n div 256 div 256" "n div 16777216 = n div 65536 div 256"
      by (simp_all only: div_mult2_eq [symmetric]) simp_all
    have "m mod 256 + 256 * (m div 256) = m" for m :: nat by simp
    moreover have "p + 256 * r + 65536 * (t + 256 * u) = n" if "p + 256 * q = n" "r + 256 * s = q" "t + 256 * u = s"
      for p q r s t u n :: nat using that by (auto simp: algebra_simps)
    ultimately show ?thesis unfolding d by blast
  qed
  ultimately show ?thesis
    by (simp add: unsigned_ucast_eq unsigned_drop_bit_eq take_bit_eq_mod) (simp add: drop_bit_eq_div)
qed

lemma unat_bytes32_flat:
  "unat (ucast v :: octet) + 256 * unat (ucast (drop_bit 8 v) :: octet) +
   (65536 * unat (ucast (drop_bit 16 v) :: octet) + 16777216 * unat (ucast (drop_bit 24 v) :: octet)) = unat v"
  for v :: "32 word"
  using unat_bytes32 [of v] by (simp add: algebra_simps)

subsection \<open>Memory\<close>

text \<open>Memory is a map from addresses to bytes; addresses wrap around.\<close>

type_synonym memory = "64 word \<Rightarrow> octet"

definition load16 :: "memory \<Rightarrow> 64 word \<Rightarrow> 16 word" where
  "load16 m a = ucast (m a) OR push_bit 8 (ucast (m (a + 1)))"

definition load32 :: "memory \<Rightarrow> 64 word \<Rightarrow> 32 word" where
  "load32 m a = ucast (m a) OR push_bit 8 (ucast (m (a + 1))) OR push_bit 16 (ucast (m (a + 2))) OR
     push_bit 24 (ucast (m (a + 3)))"

definition holds_bytes :: "memory \<Rightarrow> 64 word \<Rightarrow> octet list \<Rightarrow> bool" where
  "holds_bytes m a bs \<longleftrightarrow> (\<forall>i < length bs. m (a + of_nat i) = bs ! i)"

lemma holds_bytes_Nil [simp]: "holds_bytes m a []"
  by (simp add: holds_bytes_def)

lemma holds_bytes_Cons: "holds_bytes m a (b # bs) \<longleftrightarrow> m a = b \<and> holds_bytes m (a + 1) bs"
  by (auto simp: holds_bytes_def All_less_Suc2 ac_simps)

lemma holds_bytes_append: "holds_bytes m a (bs @ cs) \<longleftrightarrow> holds_bytes m a bs \<and> holds_bytes m (a + of_nat (length bs)) cs"
  by (induction bs arbitrary: a) (auto simp: holds_bytes_Cons ac_simps)

lemma load16_le16: "holds_bytes m a (le16 v) \<Longrightarrow> load16 m a = v"
  by (rule bit_word_eqI) (auto simp: load16_def le16_def holds_bytes_Cons bit_simps)

lemma bits_of_bytes32:
  "ucast (ucast v :: octet) OR push_bit 8 (ucast (ucast (drop_bit 8 v) :: octet)) OR
   push_bit 16 (ucast (ucast (drop_bit 16 v) :: octet)) OR push_bit 24 (ucast (ucast (drop_bit 24 v) :: octet)) = v"
  (is "?bytes = v") for v :: "32 word"
proof (rule bit_word_eqI)
  fix n assume "n < LENGTH(32)"
  then consider "n < 8" | "8 \<le> n" "n < 16" | "16 \<le> n" "n < 24" | "24 \<le> n" "n < 32" by (simp, linarith)
  then show "bit ?bytes n = bit v n"
    by cases (simp_all add: bit_simps less_diff_conv2)
qed

lemma load32_le32:
  assumes "holds_bytes m a (le32 v)"
  shows "load32 m a = v"
proof -
  have "m a = ucast v" "m (a + 1) = ucast (drop_bit 8 v)" "m (a + 2) = ucast (drop_bit 16 v)"
    "m (a + 3) = ucast (drop_bit 24 v)"
    using assms by (simp_all add: le32_def holds_bytes_Cons add.assoc)
  then show ?thesis by (simp only: load32_def bits_of_bytes32)
qed

end
