(* ===== verification/WtsSessions.thy ===== *)
theory WtsSessions
  imports System RemoteHelper Go_Bytes
begin

section \<open>Terminal sessions in memory (\<open>sessions_windows.go\<close>, \<open>process_windows.go\<close>)\<close>

text \<open>
  The two packages read the sessions of Windows from a buffer that the system allocates: an array of
  structs with the identifier, a pointer to a name and the state. Here are the reads, at the byte offsets
  of the struct, and the proof that what \<open>System\<close> and \<open>RemoteHelper\<close> call the list of sessions is what is
  in the buffer.
\<close>

subsection \<open>What a call leaves behind\<close>

text \<open>The result of \<open>WTSEnumerateSessionsW\<close> and of \<open>WTSQuerySessionInformationW\<close>: success, buffer, count or size.\<close>

record wts_call =
  wc_ok :: bool
  wc_buf :: "64 word"
  wc_count :: "32 word"

record wts_api =
  wa_memory :: memory
  wa_enum :: wts_call
  wa_query :: "32 word \<Rightarrow> nat \<Rightarrow> wts_call"
  wa_text :: "memory \<Rightarrow> 64 word \<Rightarrow> string"

text \<open>The size of the struct, and where its fields are, on a 64-bit system.\<close>

definition session_size :: "64 word" where "session_size = 24"

definition session_at :: "memory \<Rightarrow> 64 word \<Rightarrow> 32 word \<times> 32 word" where
  "session_at m p = (load32 m p, load32 m (p + 16))"

definition wts_enumerate :: "memory \<Rightarrow> wts_call \<Rightarrow> (32 word \<times> 32 word) list" where
  "wts_enumerate m c =
     (if \<not> wc_ok c \<or> wc_buf c = 0 \<or> wc_count c = 0 then []
      else map (\<lambda>i. session_at m (wc_buf c + of_nat i * session_size)) [0..<unat (wc_count c)])"

definition wtsUserName :: nat where "wtsUserName = 5"
definition wtsDomainName :: nat where "wtsDomainName = 7"
definition wtsClientProtocolType :: nat where "wtsClientProtocolType = 16"

text \<open>\<open>wa_text\<close> is \<open>UTF16PtrToString\<close> of the library.\<close>

definition wtsQueryString :: "wts_api \<Rightarrow> 32 word \<Rightarrow> nat \<Rightarrow> string" where
  "wtsQueryString a sid cls =
     (let c = wa_query a sid cls in
      if \<not> wc_ok c \<or> wc_buf c = 0 \<or> wc_count c = 0 then [] else wa_text a (wa_memory a) (wc_buf c))"

definition wtsQueryUint16 :: "wts_api \<Rightarrow> 32 word \<Rightarrow> nat \<Rightarrow> 16 word" where
  "wtsQueryUint16 a sid cls =
     (let c = wa_query a sid cls in
      if \<not> wc_ok c \<or> wc_buf c = 0 \<or> wc_count c < 2 then 0 else load16 (wa_memory a) (wc_buf c))"

definition wts_world_of :: "wts_api \<Rightarrow> wts_world" where
  "wts_world_of a = \<lparr>ww_sessions = wts_enumerate (wa_memory a) (wa_enum a),
     ww_user = (\<lambda>sid. wtsQueryString a sid wtsUserName), ww_domain = (\<lambda>sid. wtsQueryString a sid wtsDomainName),
     ww_protocol = (\<lambda>sid. wtsQueryUint16 a sid wtsClientProtocolType)\<rparr>"

text \<open>The sessions a helper may run in, read from the same array.\<close>

definition helper_sessions :: "wts_api \<Rightarrow> (session_id \<times> nat) list" where
  "helper_sessions a = map (\<lambda>(sid, state). (sid, unat state)) (wts_enumerate (wa_memory a) (wa_enum a))"

subsection \<open>The array is read as it was laid out\<close>

definition session_bytes :: "32 word \<times> 32 word \<times> octet list \<times> octet list \<Rightarrow> octet list" where
  "session_bytes s = (case s of (sid, state, before, after) \<Rightarrow> le32 sid @ before @ le32 state @ after)"

text \<open>The pointer to the name, with the padding before it, and the padding at the end.\<close>

definition session_layout :: "32 word \<times> 32 word \<times> octet list \<times> octet list \<Rightarrow> bool" where
  "session_layout s = (case s of (_, _, before, after) \<Rightarrow> length before = 12 \<and> length after = 4)"

lemma session_at_bytes:
  assumes "session_layout s" and "holds_bytes m p (session_bytes s)"
  shows "session_at m p = (fst s, fst (snd s))"
proof -
  obtain sid state before after where s: "s = (sid, state, before, after)" by (cases s) auto
  with assms have b: "length before = 12" "length after = 4" by (simp_all add: session_layout_def)
  from assms(2) have "holds_bytes m p (le32 sid)" "holds_bytes m (p + 16) (le32 state)"
    by (simp_all add: s session_bytes_def holds_bytes_append b add.assoc)
  then show ?thesis by (simp add: session_at_def s load32_le32)
qed

lemma session_at_array:
  assumes "list_all session_layout ss" and "holds_bytes m p (concat (map session_bytes ss))" and "i < length ss"
  shows "session_at m (p + of_nat i * session_size) = (fst (ss ! i), fst (snd (ss ! i)))"
  using assms
proof (induction ss arbitrary: p i)
  case (Cons s ss)
  then have len: "length (session_bytes s) = 24"
    by (cases s) (simp add: session_bytes_def session_layout_def)
  with Cons.prems have h: "holds_bytes m p (session_bytes s)"
    "holds_bytes m (p + session_size) (concat (map session_bytes ss))" "session_layout s" "list_all session_layout ss"
    by (simp_all add: holds_bytes_append session_size_def)
  show ?case
  proof (cases i)
    case 0
    with session_at_bytes [OF h(3,1)] show ?thesis by simp
  next
    case (Suc k)
    with Cons.IH [OF h(4,2), of k] Cons.prems(3) show ?thesis by (simp add: algebra_simps)
  qed
qed simp

text \<open>
  When the call succeeds and the buffer holds the structs of some sessions, exactly these are read; when
  it fails, or gives no buffer, there are none.
\<close>

lemma wts_enumerate_array:
  assumes "list_all session_layout ss" and "holds_bytes m (wc_buf c) (concat (map session_bytes ss))"
    and "wc_ok c" and "wc_buf c \<noteq> 0" and "unat (wc_count c) = length ss"
  shows "wts_enumerate m c = map (\<lambda>s. (fst s, fst (snd s))) ss"
proof (cases "wc_count c = 0")
  case True
  with assms(5) show ?thesis by (simp add: wts_enumerate_def)
next
  case False
  then have "wts_enumerate m c = map (\<lambda>i. session_at m (wc_buf c + of_nat i * session_size)) [0..<length ss]"
    using assms by (simp add: wts_enumerate_def)
  also have "\<dots> = map (\<lambda>i. (fst (ss ! i), fst (snd (ss ! i)))) [0..<length ss]"
    using session_at_array [OF assms(1,2)] by simp
  also have "\<dots> = map (\<lambda>s. (fst s, fst (snd s))) ss" by (rule nth_equalityI) simp_all
  finally show ?thesis .
qed

lemma wts_enumerate_failed: "\<not> wc_ok c \<or> wc_buf c = 0 \<or> wc_count c = 0 \<Longrightarrow> wts_enumerate m c = []"
  by (auto simp: wts_enumerate_def)

text \<open>The sessions that are reported, and the one a helper is started in, are sessions of the buffer.\<close>

lemma reported_sessions_in_buffer:
  assumes "list_all session_layout ss" and "holds_bytes (wa_memory a) (wc_buf (wa_enum a)) (concat (map session_bytes ss))"
    and "wc_ok (wa_enum a)" and "wc_buf (wa_enum a) \<noteq> 0" and "unat (wc_count (wa_enum a)) = length ss"
    and "l \<in> set (GetLoggedInSessions (wts_world_of a))"
  shows "\<exists>s \<in> set ss. ls_LogonID l = strconv_Itoa (uint (fst s)) \<and> fst (snd s) \<in> {0, 4}"
proof -
  have "ww_sessions (wts_world_of a) = map (\<lambda>s. (fst s, fst (snd s))) ss"
    using wts_enumerate_array [OF assms(1-5)] by (simp add: wts_world_of_def)
  moreover have "set (fst (dedup_loop f [] xs)) \<subseteq> set xs" for f :: "32 word \<times> 32 word \<Rightarrow> string" and xs
    by (rule dedup_loop_subset)
  ultimately show ?thesis
    using assms(6) by (fastforce simp: GetLoggedInSessions_def Let_def isReportableSessionState_def)
qed

end
