(* ===== verification/UpdateHelper.thy ===== *)
theory UpdateHelper
  imports Updater Go_Containers
begin

section \<open>The update helper (\<open>cmd/update-helper\<close>)\<close>

text \<open>
  The program the service hands a verified update to: it stops the service, saves its executable,
  puts the new one in its place, writes the new version into the configuration, and starts the
  service again. The file operations are those of \<open>Go_OS\<close>; what the service control manager answers
  is a parameter. \<open>log.Fatalf\<close> ends the program, which is the result \<open>Fatal\<close>.
\<close>

subsection \<open>The command line\<close>

text \<open>
  The package \<open>flag\<close> on the arguments, for flags that take a value: \<open>-name value\<close>, \<open>--name value\<close> and
  \<open>-name=value\<close>; the first argument that is no flag, or \<open>--\<close>, ends the flags. \<open>None\<close> is the exit of the
  program on a usage error. The value of \<open>-timeout-sec\<close> is not read as a number: the bound it sets is
  the number of queries the waits are given.
\<close>

definition flag_names :: "string list" where
  "flag_names = [''service-name'', ''target-exe'', ''new-exe'', ''meta'', ''config'', ''target-version'', ''log'', ''timeout-sec'']"

definition flag_name :: "string \<Rightarrow> string" where
  "flag_name s = (if strings_HasPrefix s ''--'' then drop 2 s else drop 1 s)"

definition flag_split :: "string \<Rightarrow> string \<times> string option" where
  "flag_split name =
     (let n = takeWhile (\<lambda>c. c \<noteq> CHR ''='') name
      in if n = name then (name, None) else (n, Some (drop (length n + 1) name)))"

fun parse_flags :: "string list \<Rightarrow> (string, string) gomap \<Rightarrow> (string, string) gomap option" where
  "parse_flags [] f = Some f"
| "parse_flags (s # args) f =
     (if length s < 2 \<or> hd s \<noteq> CHR ''-'' \<or> s = ''--'' then Some f
      else if flag_name s = [] \<or> hd (flag_name s) \<in> {CHR ''-'', CHR ''=''} then None
      else case flag_split (flag_name s) of
          (name, Some value) \<Rightarrow> if name \<in> set flag_names then parse_flags args (gm_put name value f) else None
        | (name, None) \<Rightarrow>
            if name \<notin> set flag_names then None
            else (case args of [] \<Rightarrow> None | value # rest \<Rightarrow> parse_flags rest (gm_put name value f)))"

definition flag_String :: "(string, string) gomap \<Rightarrow> string \<Rightarrow> string \<Rightarrow> string" where
  "flag_String f name def = (case gm_get f name of None \<Rightarrow> def | Some v \<Rightarrow> v)"

subsection \<open>Waiting for the service\<close>

datatype svc_state = SvcStopped | SvcStartPending | SvcStopPending | SvcRunning | SvcOther

text \<open>The queries the deadline leaves time for, each with its answer.\<close>

fun waitForState :: "svc_state \<Rightarrow> (goerr + svc_state) list \<Rightarrow> goerr option" where
  "waitForState want [] = Some (GoErr ''timeout waiting for state'')"
| "waitForState want (q # qs) =
     (case q of
        Inl err \<Rightarrow> Some err
      | Inr st \<Rightarrow> if st = want then None else waitForState want qs)"

subsection \<open>Copying and replacing\<close>

text \<open>
  \<open>copyFile\<close>: opening the destination truncates it; a read or write that fails in the middle leaves
  what was written before.
\<close>

definition copyFile :: "fs_oracle \<Rightarrow> string \<Rightarrow> string \<Rightarrow> fs \<Rightarrow> goerr option \<times> fs" where
  "copyFile orc src dst s =
     (if orc (FOpen src) \<noteq> NoFault then (Some io_error, s)
      else case s src of
        None \<Rightarrow> (Some ErrNotExist, s)
      | Some d \<Rightarrow>
          if os_MkdirAll orc (filepath_Dir dst) \<noteq> None then (os_MkdirAll orc (filepath_Dir dst), s)
          else if orc (FOpen dst) \<noteq> NoFault then (Some io_error, s)
          else
            let d = (if src = dst then [] else d);
                avail = (case orc (FRead src) of NoFault \<Rightarrow> d | Fault \<Rightarrow> [] | FaultAfter n \<Rightarrow> take n d);
                written = (case orc (FWrite dst) of NoFault \<Rightarrow> avail | Fault \<Rightarrow> [] | FaultAfter n \<Rightarrow> take n avail);
                failed = orc (FRead src) \<noteq> NoFault \<or> orc (FWrite dst) \<noteq> NoFault \<or> orc (FClose dst) \<noteq> NoFault
            in (if failed then Some io_error else None, s(dst \<mapsto> written)))"

definition swapFile :: "fs_oracle \<Rightarrow> string \<Rightarrow> string \<Rightarrow> fs \<Rightarrow> goerr option \<times> fs" where
  "swapFile orc src dst s =
     (case copyFile orc src (dst @ ''.new'') s of
        (Some err, s1) \<Rightarrow> (Some err, s1)
      | (None, s1) \<Rightarrow>
          (case os_Rename orc (dst @ ''.new'') dst (snd (os_Remove orc dst s1)) of
             (Some err, s2) \<Rightarrow> (Some err, s2)
           | (None, s2) \<Rightarrow> (None, snd (os_Remove orc src s2))))"

subsection \<open>The program\<close>

text \<open>
  \<open>ux_orc\<close> and \<open>ux_orc2\<close> are the file system during the update and during a rollback, \<open>ux_stamp\<close> the
  time stamp in the name of the backup, \<open>ux_open\<close> what opening the service gives, \<open>ux_stopping\<close> the
  answers to the queries while it stops, \<open>ux_start\<close> and \<open>ux_start2\<close> those to the two calls of \<open>Start\<close>,
  \<open>ux_starting\<close> the answers to the queries after the first one.
\<close>

record helper_env =
  ux_orc :: fs_oracle
  ux_orc2 :: fs_oracle
  ux_marshal :: "Config \<Rightarrow> goerr + string"
  ux_unmarshal :: "string \<Rightarrow> goerr + Config"
  ux_host :: host_env
  ux_stamp :: string
  ux_open :: "goerr option"
  ux_stopping :: "(goerr + svc_state) list"
  ux_start :: "goerr option"
  ux_start2 :: "goerr option"
  ux_starting :: "(goerr + svc_state) list"

datatype helper_exit = Completed | Fatal string

text \<open>What the helper last did to the service; \<open>Started\<close> says that \<open>Start\<close> gave no error.\<close>

datatype service_state = Untouched | StopRequested | Stopped | Started

definition updateConfigVersion :: "helper_env \<Rightarrow> string \<Rightarrow> string \<Rightarrow> fs \<Rightarrow> goerr option \<times> fs" where
  "updateConfigVersion env path version s =
     (case Load (ux_orc env) (ux_unmarshal env) (ux_host env) path s of
        Inl err \<Rightarrow> (Some err, s)
      | Inr cfg \<Rightarrow> Save (ux_orc env) (ux_marshal env) path (Some (cfg\<lparr>cfg_Agent := (cfg_Agent cfg)\<lparr>agt_Version := version\<rparr>\<rparr>)) s)"

text \<open>From the stopped service on.\<close>

definition backup_name :: "helper_env \<Rightarrow> string \<Rightarrow> string" where
  "backup_name env targetExe = targetExe @ ''.bak.'' @ ux_stamp env"

text \<open>A service that does not get to run in time is only a warning in the helper's log.\<close>

definition restart_service ::
    "helper_env \<Rightarrow> string \<Rightarrow> fs \<Rightarrow> helper_exit \<times> service_state \<times> fs" where
  "restart_service env targetExe s =
     (case ux_start env of
        None \<Rightarrow>
          (case waitForState SvcRunning (ux_starting env) of
             None \<Rightarrow> (Completed, Started, s)
           | Some warning \<Rightarrow> (Completed, Started, s))
      | Some err \<Rightarrow>
          (Fatal ''start failed'', if ux_start2 env = None then Started else Stopped,
           snd (swapFile (ux_orc2 env) (backup_name env targetExe) targetExe s)))"

definition install_update ::
    "helper_env \<Rightarrow> string \<Rightarrow> string \<Rightarrow> string \<Rightarrow> string \<Rightarrow> string \<Rightarrow> fs \<Rightarrow> helper_exit \<times> service_state \<times> fs" where
  "install_update env targetExe newExe metaPath configPath targetVersion s =
     (case copyFile (ux_orc env) targetExe (backup_name env targetExe) s of
        (Some err, s1) \<Rightarrow> (Fatal ''backup copy'', Stopped, s1)
      | (None, s1) \<Rightarrow>
          (case swapFile (ux_orc env) newExe targetExe s1 of
             (Some err, s2) \<Rightarrow>
               (Fatal ''replace failed'', Stopped, snd (swapFile (ux_orc2 env) (backup_name env targetExe) targetExe s2))
           | (None, s2) \<Rightarrow>
               let s3 = snd (updateConfigVersion env configPath targetVersion s2);
                   s4 = (if metaPath \<noteq> [] then snd (os_Remove (ux_orc env) metaPath s3) else s3)
               in restart_service env targetExe s4))"

definition run_helper :: "helper_env \<Rightarrow> string list \<Rightarrow> fs \<Rightarrow> helper_exit \<times> service_state \<times> fs" where
  "run_helper env args s =
     (case parse_flags args [] of
        None \<Rightarrow> (Fatal ''usage'', Untouched, s)
      | Some f \<Rightarrow>
          let targetExe = flag_String f ''target-exe'' []; newExe = flag_String f ''new-exe'' [];
              metaPath = flag_String f ''meta'' []; configPath = flag_String f ''config'' [];
              targetVersion = flag_String f ''target-version'' []
          in if targetExe = [] \<or> newExe = [] \<or> configPath = [] \<or> targetVersion = []
             then (Fatal ''missing required args'', Untouched, s)
             else if ux_open env \<noteq> None then (Fatal ''open service'', Untouched, s)
             else if waitForState SvcStopped (ux_stopping env) \<noteq> None then (Fatal ''wait stop'', StopRequested, s)
             else install_update env targetExe newExe metaPath configPath targetVersion s)"

lemma restart_service_eq:
  "restart_service env targetExe s =
     (case ux_start env of
        None \<Rightarrow> (Completed, Started, s)
      | Some err \<Rightarrow>
          (Fatal ''start failed'', if ux_start2 env = None then Started else Stopped,
           snd (swapFile (ux_orc2 env) (backup_name env targetExe) targetExe s)))"
  by (simp add: restart_service_def split: option.split)

subsection \<open>The service and its helper understand each other\<close>

lemma parse_flag:
  assumes "name \<in> set flag_names"
  shows "parse_flags ((''--'' @ name) # value # rest) f = parse_flags rest (gm_put name value f)"
proof -
  have "flag_split name = (name, None)" and "name \<noteq> []" and "hd name \<notin> {CHR ''-'', CHR ''=''}"
    using assms by (auto simp: flag_names_def flag_split_def)
  with assms show ?thesis by (simp add: flag_name_def)
qed

lemma parse_helper_args:
  "parse_flags (helper_args cfg cfgPath exe m) [] =
     Some (gm_put ''target-version'' (stg_Version m) (gm_put ''config'' cfgPath (gm_put ''meta'' (pendingMetaPath cfg)
       (gm_put ''new-exe'' (stg_FilePath m) (gm_put ''target-exe'' exe
         (gm_put ''service-name'' (upc_ServiceName (cfg_Update cfg)) []))))))"
proof -
  have "helper_args cfg cfgPath exe m =
      [''--'' @ ''service-name'', upc_ServiceName (cfg_Update cfg), ''--'' @ ''target-exe'', exe,
       ''--'' @ ''new-exe'', stg_FilePath m, ''--'' @ ''meta'', pendingMetaPath cfg, ''--'' @ ''config'', cfgPath,
       ''--'' @ ''target-version'', stg_Version m]"
    by (simp add: helper_args_def)
  moreover have "parse_flags
      [''--'' @ ''service-name'', a, ''--'' @ ''target-exe'', b, ''--'' @ ''new-exe'', c, ''--'' @ ''meta'', d,
       ''--'' @ ''config'', e, ''--'' @ ''target-version'', g] [] =
     Some (gm_put ''target-version'' g (gm_put ''config'' e (gm_put ''meta'' d (gm_put ''new-exe'' c
       (gm_put ''target-exe'' b (gm_put ''service-name'' a []))))))" for a b c d e g
    by (subst parse_flag, simp add: flag_names_def)+ (simp only: parse_flags.simps)
  ultimately show ?thesis by simp
qed

text \<open>The helper understands what the service tells it: whatever the paths, the version and the service
  name are (empty, with spaces, or looking like flags), reading the command line the service starts
  the helper with gives exactly those values back.\<close>

theorem helper_args_roundtrip:
  "map_option (\<lambda>f. map (\<lambda>n. flag_String f n ''?'')
       [''service-name'', ''target-exe'', ''new-exe'', ''meta'', ''config'', ''target-version''])
     (parse_flags (helper_args cfg cfgPath exe m) []) =
   Some [upc_ServiceName (cfg_Update cfg), exe, stg_FilePath m, pendingMetaPath cfg, cfgPath, stg_Version m]"
  by (simp add: parse_helper_args flag_String_def gm_defs)

lemma run_helper_args:
  "run_helper env (helper_args cfg cfgPath exe m) s =
     (if exe = [] \<or> stg_FilePath m = [] \<or> cfgPath = [] \<or> stg_Version m = []
      then (Fatal ''missing required args'', Untouched, s)
      else if ux_open env \<noteq> None then (Fatal ''open service'', Untouched, s)
      else if waitForState SvcStopped (ux_stopping env) \<noteq> None then (Fatal ''wait stop'', StopRequested, s)
      else install_update env exe (stg_FilePath m) (pendingMetaPath cfg) cfgPath (stg_Version m) s)"
  by (simp add: run_helper_def parse_helper_args flag_String_def gm_defs Let_def)

subsection \<open>The executable is never lost\<close>

lemma copyFile_frame: "q \<noteq> dst \<Longrightarrow> snd (copyFile orc src dst s) q = s q"
  by (auto simp: copyFile_def Let_def split: option.split)

lemma copyFile_ok:
  assumes "copyFile orc src dst s = (None, s')" and "src \<noteq> dst"
  shows "s src \<noteq> None \<and> s' = s(dst := s src)"
  using assms by (auto simp: copyFile_def Let_def os_MkdirAll_def split: option.splits if_splits io_fault.splits)

lemma swapFile_frame: "q \<notin> {dst, dst @ ''.new'', src} \<Longrightarrow> snd (swapFile orc src dst s) q = s q"
  using copyFile_frame [of q "dst @ ''.new''" orc src s]
  by (auto simp: swapFile_def osfs.rename_frame osfs.remove_frame split: prod.splits option.splits)
    (metis osfs.rename_frame osfs.remove_frame snd_conv)+

lemma swapFile_ok:
  assumes "swapFile orc src dst s = (None, s')" and "src \<noteq> dst" and "src \<noteq> dst @ ''.new''"
  shows "s src \<noteq> None \<and> s' dst = s src"
proof -
  obtain err s1 where c: "copyFile orc src (dst @ ''.new'') s = (err, s1)" by fastforce
  with assms(1) have err: "err = None" by (auto simp: swapFile_def split: option.splits)
  from copyFile_ok [OF c [unfolded err] assms(3)] have s1: "s src \<noteq> None" "s1 = s(dst @ ''.new'' := s src)" by auto
  let ?s2 = "snd (os_Remove orc dst s1)"
  obtain e2 s3 where r: "os_Rename orc (dst @ ''.new'') dst ?s2 = (e2, s3)" by fastforce
  with assms(1) c err have e2: "e2 = None" and s': "s' = snd (os_Remove orc src s3)"
    by (auto simp: swapFile_def split: option.splits)
  have "s3 dst = ?s2 (dst @ ''.new'')" using osfs.rename_dst [of orc "dst @ ''.new''" dst ?s2] r e2 by simp
  also have "\<dots> = s src" using osfs.remove_frame [of "dst @ ''.new''" dst orc s1] s1 by simp
  finally show ?thesis using s1 osfs.remove_frame [of dst src orc s3] assms(2) s' by simp
qed

lemma swapFile_failed:
  assumes "swapFile orc src dst s = (Some err, s')" and "src \<noteq> dst" and "src \<noteq> dst @ ''.new''"
  shows "s' src = s src \<and> s' dst \<in> {s dst, None}"
proof -
  obtain e s1 where c: "copyFile orc src (dst @ ''.new'') s = (e, s1)" by fastforce
  have s1: "s1 src = s src" "s1 dst = s dst"
    using copyFile_frame [of src "dst @ ''.new''" orc src s] copyFile_frame [of dst "dst @ ''.new''" orc src s] c assms(3)
    by simp_all
  show ?thesis
  proof (cases e)
    case (Some x)
    with assms(1) c s1 show ?thesis by (simp add: swapFile_def)
  next
    case None
    let ?s2 = "snd (os_Remove orc dst s1)"
    obtain e2 s3 where r: "os_Rename orc (dst @ ''.new'') dst ?s2 = (e2, s3)" by fastforce
    with assms(1) c None have "e2 \<noteq> None" and "s' = s3" by (auto simp: swapFile_def split: option.splits)
    then have "s' = ?s2" using osfs.rename_fail [of orc "dst @ ''.new''" dst ?s2] r by simp
    then show ?thesis
      using s1 osfs.remove_frame [of src dst orc s1] osfs.remove_at [of orc dst s1] assms(2) by auto
  qed
qed

lemma backup_name_fresh [simp]:
  "backup_name env t \<noteq> t" "backup_name env t \<noteq> t @ ''.new''" "t \<noteq> backup_name env t"
  by (simp_all add: backup_name_def)

text \<open>A rollback puts the old executable back, or leaves it where it was saved.\<close>

lemma rollback_keeps:
  assumes "s (backup_name env t) = Some old"
  shows "snd (swapFile orc (backup_name env t) t s) t = Some old \<or>
    snd (swapFile orc (backup_name env t) t s) (backup_name env t) = Some old"
proof -
  obtain e s' where w: "swapFile orc (backup_name env t) t s = (e, s')" by fastforce
  with assms swapFile_ok [of orc "backup_name env t" t s s'] swapFile_failed [of orc "backup_name env t" t s _ s']
  show ?thesis by (cases e) auto
qed

lemma updateConfigVersion_frame: "q \<noteq> path \<Longrightarrow> snd (updateConfigVersion env path v s) q = s q"
  by (auto simp: updateConfigVersion_def Save_def os_MkdirAll_def os_WriteFile_frame split: sum.split)

lemma install_update_cases:
  assumes "install_update env t n mp cp v s = (res, svc, s')" and "s t = Some old"
    and "n \<notin> {t, t @ ''.new'', backup_name env t}" and "cp \<notin> {t, backup_name env t}" and "mp \<notin> {t, backup_name env t}"
  obtains (backup) "res = Fatal ''backup copy''" "svc = Stopped" "s' t = Some old"
  | (replace) "res = Fatal ''replace failed''" "svc = Stopped" "s' t = Some old \<or> s' (backup_name env t) = Some old"
  | (start) s4 where "res = Fatal ''start failed''" "s4 (backup_name env t) = Some old" "ux_start env \<noteq> None"
      "s' = snd (swapFile (ux_orc2 env) (backup_name env t) t s4)"
  | (ok) "res = Completed" "svc = Started" "s n \<noteq> None" "s' t = s n" "s' (backup_name env t) = Some old"
proof -
  let ?b = "backup_name env t"
  obtain e1 s1 where c: "copyFile (ux_orc env) t ?b s = (e1, s1)" by fastforce
  show thesis
  proof (cases e1)
    case (Some err)
    with assms c copyFile_frame [of t ?b "ux_orc env" t s] show thesis by (intro backup) (simp_all add: install_update_def)
  next
    case None
    from copyFile_ok [OF c [unfolded None]] assms(2) have s1: "s1 ?b = Some old" "s1 n = s n"
      using assms(3) by auto
    obtain e2 s2 where w: "swapFile (ux_orc env) n t s1 = (e2, s2)" by fastforce
    have b2: "s2 ?b = Some old"
      using swapFile_frame [of ?b t n "ux_orc env" s1] w s1 assms(3) by auto
    show thesis
    proof (cases e2)
      case (Some err)
      with assms(1) c None w have "res = Fatal ''replace failed''" "svc = Stopped"
        "s' = snd (swapFile (ux_orc2 env) ?b t s2)" by (auto simp: install_update_def)
      with rollback_keeps [of s2 env t old "ux_orc2 env"] b2 show thesis by (intro replace) auto
    next
      case e2: None
      have t2: "s n \<noteq> None" "s2 t = s n" using swapFile_ok [OF w [unfolded e2]] assms(3) s1 by auto
      define s4 where "s4 = (if mp \<noteq> [] then snd (os_Remove (ux_orc env) mp (snd (updateConfigVersion env cp v s2)))
        else snd (updateConfigVersion env cp v s2))"
      have keep: "s4 q = s2 q" if "q \<in> {t, ?b}" for q
        using that assms(4,5) osfs.remove_frame [of q mp] updateConfigVersion_frame [of q cp]
        by (auto simp: s4_def)
      from assms(1) c None w e2 have r: "restart_service env t s4 = (res, svc, s')"
        by (simp add: install_update_def s4_def Let_def)
      show thesis
      proof (cases "ux_start env")
        case None
        with r keep [of t] keep [of ?b] t2 b2 show thesis by (intro ok) (auto simp: restart_service_eq)
      next
        case (Some err)
        with r keep [of ?b] b2 show thesis by (intro start [of s4]) (auto simp: restart_service_eq)
      qed
    qed
  qed
qed

text \<open>C5. The agent's executable is never lost: whatever fails while the helper runs (the backup, the
  replacement, the rollback itself, the service control manager), the old executable is afterwards
  in its place or under the name of the backup; and when the helper reports success the service has
  been started on the new one, with the old one kept as the backup.\<close>

theorem helper_keeps_executable:
  assumes "run_helper env (helper_args cfg cfgPath exe m) s = (res, svc, s')" and "s exe = Some old"
    and "stg_FilePath m \<notin> {exe, exe @ ''.new'', backup_name env exe}"
    and "cfgPath \<notin> {exe, backup_name env exe}" and "pendingMetaPath cfg \<notin> {exe, backup_name env exe}"
  shows "(s' exe = Some old \<or> s' (backup_name env exe) = Some old) \<and>
    (res = Completed \<longrightarrow> svc = Started \<and> s (stg_FilePath m) \<noteq> None \<and> s' exe = s (stg_FilePath m) \<and>
       s' (backup_name env exe) = Some old)"
proof (cases "install_update env exe (stg_FilePath m) (pendingMetaPath cfg) cfgPath (stg_Version m) s = (res, svc, s')")
  case True
  from True assms(2-5) show ?thesis
  proof (cases rule: install_update_cases)
    case (start s4)
    with rollback_keeps [of s4 env exe old "ux_orc2 env"] show ?thesis by auto
  qed auto
next
  case False
  with assms show ?thesis by (auto simp: run_helper_args split: if_splits)
qed

text \<open>
  Two failures the rollback does not undo. When the new file cannot be put in place the old one is
  back, but the service, which the helper has stopped, is not started again. When the service does
  not start, the old executable runs again, but under a configuration that already names the new
  version: the server sees the new version, and does not offer the update again.
\<close>

lemma failed_replacement_leaves_service_stopped:
  assumes "run_helper env (helper_args cfg cfgPath exe m) s = (Fatal msg, svc, s')"
    and "msg \<in> {''backup copy'', ''replace failed''}"
  shows "svc = Stopped"
  using assms by (auto simp: run_helper_args install_update_def restart_service_eq Let_def
      split: if_splits prod.splits option.splits)

lemma copyFile_no_faults: "s src = Some d \<Longrightarrow> src \<noteq> dst \<Longrightarrow> copyFile no_faults src dst s = (None, s(dst \<mapsto> d))"
  by (simp add: copyFile_def os_MkdirAll_def no_faults_def Let_def)

lemma swapFile_no_faults:
  assumes "s src = Some d" and "src \<noteq> dst" and "src \<noteq> dst @ ''.new''"
  shows "swapFile no_faults src dst s = (None, s(dst \<mapsto> d, dst @ ''.new'' := None, src := None))"
proof -
  have c: "copyFile no_faults src (dst @ ''.new'') s = (None, s(dst @ ''.new'' \<mapsto> d))"
    using assms by (intro copyFile_no_faults) auto
  show ?thesis using assms unfolding swapFile_def c
    by (auto simp: os_Rename_def os_Remove_def no_faults_def fun_eq_iff)
qed

subsection \<open>An update from the hand-over to the new version\<close>

lemma overrides_version:
  "ApplyRuntimeOverrides env (c\<lparr>cfg_Agent := (cfg_Agent c)\<lparr>agt_Version := v\<rparr>\<rparr>) =
     (ApplyRuntimeOverrides env c)\<lparr>cfg_Agent := (cfg_Agent (ApplyRuntimeOverrides env c))\<lparr>agt_Version := v\<rparr>\<rparr>"
proof -
  let ?ver = "\<lambda>c. c\<lparr>cfg_Agent := (cfg_Agent c)\<lparr>agt_Version := v\<rparr>\<rparr> :: Config"
  have url: "set_server_url w (?ver c) = ?ver (set_server_url w c)" for w c
    by (cases "w = []") (simp_all add: set_server_url_def)
  have key: "set_secret_key w (?ver c) = ?ver (set_secret_key w c)" for w c
    by (cases "w = []") (simp_all add: set_secret_key_def)
  show ?thesis unfolding ApplyRuntimeOverrides_eq url key ..
qed

lemma pendingMetaPath_nonempty: "pendingMetaPath cfg \<noteq> []"
  by (simp add: pendingMetaPath_def filepath_Join_def)

text \<open>The configuration written back with another version is the one read, with that version.\<close>

lemma Load_new_version:
  assumes "Load orc um env path s = Inr c" and "v \<noteq> []"
    and "um b = Inr (c\<lparr>cfg_Agent := (cfg_Agent c)\<lparr>agt_Version := v\<rparr>\<rparr>)" and "s' path = Some b"
  shows "Load no_faults um env path s' = Inr (c\<lparr>cfg_Agent := (cfg_Agent c)\<lparr>agt_Version := v\<rparr>\<rparr>)"
proof -
  let ?c = "c\<lparr>cfg_Agent := (cfg_Agent c)\<lparr>agt_Version := v\<rparr>\<rparr>"
  obtain c0 where c: "c = ApplyRuntimeOverrides env (ApplyDefaults c0)" and e: "effective c"
    using assms(1) by (auto simp: Load_Inr)
  have "defaulted c" by (simp add: c)
  then have "ApplyDefaults ?c = ?c" by (intro ApplyDefaults_fixed) (simp add: defaulted_def)
  moreover have "ApplyRuntimeOverrides env c = c" by (simp add: c overrides_idem)
  then have "ApplyRuntimeOverrides env ?c = ?c" by (simp only: overrides_version)
  moreover have "effective ?c" using e assms(2) by (simp add: effective_def)
  ultimately show ?thesis using assms(3,4) by (auto simp: Load_Inr os_defs)
qed

lemma isNewerVersion_irrefl: "\<not> isNewerVersion v v"
  by (simp add: isNewerVersion_def split: option.split)

text \<open>C4. A self-update ends with the announced version and is not repeated: when the service hands over to
  the helper, the service stops and starts and the disk works, the helper succeeds; the executable has
  the hash the server announced, the metadata is gone, and the configuration, otherwise unchanged,
  loads with the new version, with which the same offer, unless forced, is not staged again.\<close>

theorem update_end_to_end:
  assumes "applyIfPending uenv cfg cfgPath exe s = (Some ErrUpdateRestart, [(h, args)])"
    and "s exe = Some old" and "Load no_faults (ux_unmarshal env) (ux_host env) cfgPath s = Inr cfg0"
    and "\<forall>v. \<exists>b. ux_marshal env (cfg0\<lparr>cfg_Agent := (cfg_Agent cfg0)\<lparr>agt_Version := v\<rparr>\<rparr>) = Inr b \<and>
      ux_unmarshal env b = Inr (cfg0\<lparr>cfg_Agent := (cfg_Agent cfg0)\<lparr>agt_Version := v\<rparr>\<rparr>)"
    and "ux_orc env = no_faults" and "ux_open env = None" and "waitForState SvcStopped (ux_stopping env) = None"
    and "ux_start env = None" and "cfgPath \<noteq> []"
    and "\<forall>m. loadStagedUpdate uenv (pendingMetaPath cfg) s = Inr m \<longrightarrow>
      distinct [exe, exe @ ''.new'', backup_name env exe, stg_FilePath m, cfgPath, pendingMetaPath cfg]"
  shows "\<exists>m s' d. loadStagedUpdate uenv (pendingMetaPath cfg) s = Inr m \<and>
    run_helper env args s = (Completed, Started, s') \<and> s' exe = Some d \<and> hash_matches (ue_sha uenv) (stg_Hash m) d \<and>
    s' (pendingMetaPath cfg) = None \<and>
    Load no_faults (ux_unmarshal env) (ux_host env) cfgPath s' =
      Inr (cfg0\<lparr>cfg_Agent := (cfg_Agent cfg0)\<lparr>agt_Version := stg_Version m\<rparr>\<rparr>) \<and>
    (\<forall>hb s''. jstring hb ''latest_agent_version'' = stg_Version m \<and> \<not> update_mode_force hb \<longrightarrow>
       StageIfNeeded uenv (cfg0\<lparr>cfg_Agent := (cfg_Agent cfg0)\<lparr>agt_Version := stg_Version m\<rparr>\<rparr>) hb s'' = (None, s''))"
proof -
  from assms(1) obtain m where m: "loadStagedUpdate uenv (pendingMetaPath cfg) s = Inr m"
    and ok: "staged_ok uenv cfg m s" and args: "args = helper_args cfg cfgPath exe m" and exe: "exe \<noteq> []"
    by (cases rule: applyIfPending_started) auto
  have ne: "stg_Version m \<noteq> []" "stg_FilePath m \<noteq> []"
    using m by (auto simp: loadStagedUpdate_def split: sum.splits option.splits if_splits)
  obtain d where d: "s (stg_FilePath m) = Some d" "hash_matches (ue_sha uenv) (stg_Hash m) d"
    using ok by (auto simp: staged_ok_def split: option.splits)
  let ?n = "stg_FilePath m" and ?b = "backup_name env exe" and ?mp = "pendingMetaPath cfg"
    and ?cfg1 = "cfg0\<lparr>cfg_Agent := (cfg_Agent cfg0)\<lparr>agt_Version := stg_Version m\<rparr>\<rparr>"
  have dist: "distinct [exe, exe @ ''.new'', ?b, ?n, cfgPath, ?mp]" using assms(10) m by blast
  obtain b1 where b1: "ux_marshal env ?cfg1 = Inr b1" "ux_unmarshal env b1 = Inr ?cfg1" using assms(4) by blast
  define s1 where "s1 = s(?b \<mapsto> old)"
  define s2 where "s2 = s1(exe \<mapsto> d, exe @ ''.new'' := None, ?n := None)"
  have c: "copyFile no_faults exe ?b s = (None, s1)" unfolding s1_def using assms(2) by (intro copyFile_no_faults) auto
  have w: "swapFile no_faults ?n exe s1 = (None, s2)"
    unfolding s2_def using d dist by (intro swapFile_no_faults) (auto simp: s1_def)
  have "s2 cfgPath = s cfgPath" using dist by (auto simp: s2_def s1_def)
  then have l2: "Load no_faults (ux_unmarshal env) (ux_host env) cfgPath s2 = Inr cfg0"
    using assms(3) by (simp add: Load_def os_ReadFile_def no_faults_def)
  then have u: "snd (updateConfigVersion env cfgPath (stg_Version m) s2) = s2(cfgPath \<mapsto> b1)"
    by (simp add: updateConfigVersion_def assms(5) Save_def b1 os_WriteFile_def no_faults_def)
  define s' where "s' = (if ?mp \<noteq> [] then snd (os_Remove no_faults ?mp (s2(cfgPath \<mapsto> b1))) else s2(cfgPath \<mapsto> b1))"
  have mp: "?mp \<noteq> []" using pendingMetaPath_nonempty .
  then have "s' q = (if q = ?mp then None else if q = cfgPath then Some b1 else s2 q)" for q
    using dist by (auto simp: s'_def os_Remove_def no_faults_def)
  then have s': "s' exe = Some d" "s' ?mp = None" "s' cfgPath = Some b1" using dist by (auto simp: s2_def)
  have "run_helper env args s = (Completed, Started, s')"
    unfolding args run_helper_args install_update_def restart_service_eq
    by (simp add: exe ne assms(5-9) c w u s'_def Let_def)
  moreover have "Load no_faults (ux_unmarshal env) (ux_host env) cfgPath s' = Inr ?cfg1"
    by (rule Load_new_version) (use assms(3) ne(1) b1(2) s'(3) in simp_all)
  moreover have "StageIfNeeded uenv ?cfg1 hb s'' = (None, s'')"
    if "jstring hb ''latest_agent_version'' = stg_Version m" "\<not> update_mode_force hb" for hb s''
    using that by (intro StageIfNeeded_idle) (simp add: update_offered_def isNewerVersion_irrefl)
  ultimately show ?thesis using m d(2) s' by blast
qed

subsection \<open>An example\<close>

definition sample_helper :: helper_env where
  "sample_helper = \<lparr>ux_orc = no_faults, ux_orc2 = no_faults, ux_marshal = (\<lambda>c. Inr (agt_Version (cfg_Agent c))),
     ux_unmarshal = (\<lambda>b. Inr (sample_update_config\<lparr>cfg_Agent := (cfg_Agent sample_update_config)\<lparr>agt_Version := b\<rparr>\<rparr>)),
     ux_host = plain_host, ux_stamp = ''1'', ux_open = None, ux_stopping = [Inr SvcStopPending, Inr SvcStopped],
     ux_start = None, ux_start2 = None, ux_starting = [Inr SvcStartPending, Inr SvcRunning]\<rparr>"

definition helper_files :: fs where
  "helper_files = [stagedPath sample_update_config ''1.10.0'' \<mapsto> ''NEW'', pendingMetaPath sample_update_config \<mapsto> ''META'',
     ''svc.exe'' \<mapsto> ''OLD'', ''c.yaml'' \<mapsto> ''1.9.0'']"

definition sample_staged_meta :: StagedUpdate where
  "sample_staged_meta = staged_meta sample_upd sample_update_config sample_update_offer"

lemma helper_example:
  "applyIfPending sample_upd sample_update_config ''c.yaml'' ''svc.exe'' helper_files =
     (Some ErrUpdateRestart, [(upc_HelperPath (cfg_Update sample_update_config),
        helper_args sample_update_config ''c.yaml'' ''svc.exe'' sample_staged_meta)])"
  "loadStagedUpdate sample_upd (pendingMetaPath sample_update_config) helper_files = Inr sample_staged_meta"
  "distinct [''svc.exe'', ''svc.exe'' @ ''.new'', backup_name sample_helper ''svc.exe'', stg_FilePath sample_staged_meta,
     ''c.yaml'', pendingMetaPath sample_update_config]"
  "waitForState SvcStopped (ux_stopping sample_helper) = None"
  "Load no_faults (ux_unmarshal sample_helper) (ux_host sample_helper) ''c.yaml'' helper_files = Inr sample_update_config"
  by code_simp+

theorem update_end_to_end_witness:
  "\<exists>s'. run_helper sample_helper (helper_args sample_update_config ''c.yaml'' ''svc.exe'' sample_staged_meta) helper_files =
     (Completed, Started, s') \<and> s' ''svc.exe'' \<noteq> None"
proof -
  have simps: "ux_orc sample_helper = no_faults" "ux_open sample_helper = None" "ux_start sample_helper = None"
    "helper_files ''svc.exe'' = Some ''OLD''" "''c.yaml'' \<noteq> []"
    by (simp_all add: sample_helper_def helper_files_def)
  have codec: "\<forall>v. \<exists>b. ux_marshal sample_helper (sample_update_config\<lparr>cfg_Agent := (cfg_Agent sample_update_config)\<lparr>agt_Version := v\<rparr>\<rparr>) = Inr b \<and>
      ux_unmarshal sample_helper b = Inr (sample_update_config\<lparr>cfg_Agent := (cfg_Agent sample_update_config)\<lparr>agt_Version := v\<rparr>\<rparr>)"
    by (simp add: sample_helper_def)
  have paths: "\<forall>m. loadStagedUpdate sample_upd (pendingMetaPath sample_update_config) helper_files = Inr m \<longrightarrow>
      distinct [''svc.exe'', ''svc.exe'' @ ''.new'', backup_name sample_helper ''svc.exe'', stg_FilePath m, ''c.yaml'',
        pendingMetaPath sample_update_config]"
    using helper_example(2,3) by (metis sum.inject(2))
  from update_end_to_end [OF helper_example(1) simps(4) helper_example(5) codec simps(1,2) helper_example(4) simps(3,5) paths]
  show ?thesis by blast
qed

theorem helper_keeps_executable_witness:
  "\<exists>res svc s'. run_helper (sample_helper\<lparr>ux_start := Some io_error\<rparr>)
       (helper_args sample_update_config ''c.yaml'' ''svc.exe'' sample_staged_meta) helper_files = (res, svc, s') \<and>
     (s' ''svc.exe'' = Some ''OLD'' \<or> s' (backup_name sample_helper ''svc.exe'') = Some ''OLD'')"
proof -
  let ?env = "sample_helper\<lparr>ux_start := Some io_error\<rparr>"
  obtain res svc s' where r: "run_helper ?env (helper_args sample_update_config ''c.yaml'' ''svc.exe'' sample_staged_meta) helper_files = (res, svc, s')"
    by (metis prod_cases3)
  have "helper_files ''svc.exe'' = Some ''OLD''" "backup_name ?env ''svc.exe'' = backup_name sample_helper ''svc.exe''"
    by (simp_all add: helper_files_def backup_name_def)
  with helper_keeps_executable [OF r, of "''OLD''"] helper_example(3) r show ?thesis by auto
qed

text \<open>The start that fails: the old executable is back, and the configuration names the new version.\<close>

lemma rollback_keeps_new_version:
  "(case run_helper (sample_helper\<lparr>ux_start := Some io_error\<rparr>)
       (helper_args sample_update_config ''c.yaml'' ''svc.exe'' sample_staged_meta) helper_files of
      (res, svc, s') \<Rightarrow> (res, svc, s' ''svc.exe'', s' ''c.yaml'')) =
   (Fatal ''start failed'', Started, Some ''OLD'', Some ''1.10.0'')"
  by code_simp

end
