(* ===== verification/Logger.thy ===== *)
theory Logger
  imports Go_OS
begin

section \<open>The rotating log (\<open>pkg/utils/logger.go\<close>)\<close>

text \<open>
  The writer behind the agent's log: it appends to one file, and before a write that would exceed the
  size limit it renames the file to \<open>.1\<close>, after moving each older backup up by one. The file handle
  is nil, open, or closed; a handle that was closed and not opened again stays in the field \<open>file\<close>,
  where every use of it fails. Each operation takes the oracle of its own file accesses; looking up
  the handle's file and the log's path within one write is one access of it.
\<close>

datatype log_file = NilFile | OpenFile | ClosedFile

record RotatingWriter =
  rw_path :: string
  rw_maxBytes :: int
  rw_maxBackups :: int
  rw_file :: log_file

definition err_closed :: goerr where
  "err_closed = GoErr ''file already closed''"

definition log_open :: "fs_oracle \<Rightarrow> RotatingWriter \<times> fs \<Rightarrow> goerr option \<times> RotatingWriter \<times> fs" where
  "log_open orc = (\<lambda>(w, s).
     case os_MkdirAll orc (filepath_Dir (rw_path w)) of
       Some err \<Rightarrow> (Some err, w, s)
     | None \<Rightarrow>
         if orc (FOpen (rw_path w)) \<noteq> NoFault then (Some io_error, w, s)
         else (None, w\<lparr>rw_file := OpenFile\<rparr>,
               case s (rw_path w) of None \<Rightarrow> s(rw_path w \<mapsto> []) | Some _ \<Rightarrow> s))"

definition NewLogger :: "fs_oracle \<Rightarrow> string \<Rightarrow> int \<Rightarrow> int \<Rightarrow> fs \<Rightarrow> goerr option \<times> RotatingWriter \<times> fs" where
  "NewLogger orc filePath maxSizeMB maxBackups s =
     (let maxSizeMB = (if maxSizeMB \<le> 0 then 10 else maxSizeMB);
          maxBackups = (if maxBackups \<le> 0 then 5 else maxBackups)
      in log_open orc (\<lparr>rw_path = filePath, rw_maxBytes = wrap64 (maxSizeMB * 1024 * 1024),
                        rw_maxBackups = maxBackups, rw_file = NilFile\<rparr>, s))"

definition backup_path :: "string \<Rightarrow> nat \<Rightarrow> string" where
  "backup_path path i = path @ ''.'' @ strconv_Itoa (int i)"

text \<open>The loop of \<open>rotate\<close>, from the oldest backup down.\<close>

fun shift_backups :: "fs_oracle \<Rightarrow> string \<Rightarrow> nat \<Rightarrow> fs \<Rightarrow> goerr option \<times> fs" where
  "shift_backups orc path 0 s = (None, s)"
| "shift_backups orc path (Suc i) s =
     (let src = backup_path path (Suc i); dst = backup_path path (Suc i + 1) in
      if os_Stat orc src s = None
      then (case os_Rename orc src dst (snd (os_Remove orc dst s)) of
              (Some err, s') \<Rightarrow> (Some err, s')
            | (None, s') \<Rightarrow> shift_backups orc path i s')
      else shift_backups orc path i s)"

definition log_rotate :: "fs_oracle \<Rightarrow> RotatingWriter \<times> fs \<Rightarrow> goerr option \<times> RotatingWriter \<times> fs" where
  "log_rotate orc = (\<lambda>(w, s).
     let path = rw_path w; closed = w\<lparr>rw_file := ClosedFile\<rparr>; first = backup_path path 1 in
     if orc (FClose path) \<noteq> NoFault then (Some io_error, closed, s)
     else case shift_backups orc path (nat (rw_maxBackups w)) s of
       (Some err, s1) \<Rightarrow> (Some err, closed, s1)
     | (None, s1) \<Rightarrow>
         let s2 = snd (os_Remove orc first s1) in
         if os_Stat orc path s2 = None
         then (case os_Rename orc path first s2 of
                 (Some err, s3) \<Rightarrow> (Some err, closed, s3)
               | (None, s3) \<Rightarrow> log_open orc (closed, s3))
         else log_open orc (closed, s2))"

definition log_size :: "RotatingWriter \<Rightarrow> fs \<Rightarrow> int" where
  "log_size w s = (case s (rw_path w) of None \<Rightarrow> 0 | Some d \<Rightarrow> int (length d))"

definition rotateIfNeeded :: "fs_oracle \<Rightarrow> int \<Rightarrow> RotatingWriter \<times> fs \<Rightarrow> goerr option \<times> RotatingWriter \<times> fs" where
  "rotateIfNeeded orc incoming = (\<lambda>(w, s).
     if rw_file w = ClosedFile then (Some err_closed, w, s)
     else if orc (FStat (rw_path w)) \<noteq> NoFault then (Some io_error, w, s)
     else if log_size w s + incoming \<le> rw_maxBytes w then (None, w, s)
     else log_rotate orc (w, s))"

definition log_append :: "fs_oracle \<Rightarrow> string \<Rightarrow> RotatingWriter \<times> fs \<Rightarrow> goerr option \<times> RotatingWriter \<times> fs" where
  "log_append orc p = (\<lambda>(w, s).
     let old = (case s (rw_path w) of None \<Rightarrow> [] | Some d \<Rightarrow> d) in
     case orc (FWrite (rw_path w)) of
       NoFault \<Rightarrow> (None, w, s(rw_path w \<mapsto> old @ p))
     | Fault \<Rightarrow> (Some io_error, w, s)
     | FaultAfter n \<Rightarrow> (Some io_error, w, s(rw_path w \<mapsto> old @ take n p)))"

definition log_Write :: "fs_oracle \<Rightarrow> string \<Rightarrow> RotatingWriter \<times> fs \<Rightarrow> goerr option \<times> RotatingWriter \<times> fs" where
  "log_Write orc p = (\<lambda>(w, s).
     case (if rw_file w = NilFile then log_open orc (w, s) else (None, w, s)) of
       (Some err, w1, s1) \<Rightarrow> (Some err, w1, s1)
     | (None, w1, s1) \<Rightarrow>
         (case rotateIfNeeded orc (int (length p)) (w1, s1) of
            (Some err, w2, s2) \<Rightarrow> (Some err, w2, s2)
          | (None, w2, s2) \<Rightarrow> log_append orc p (w2, s2)))"

definition log_Close :: "fs_oracle \<Rightarrow> RotatingWriter \<Rightarrow> goerr option \<times> RotatingWriter" where
  "log_Close orc w =
     (if rw_file w = NilFile then (None, w)
      else (if rw_file w = ClosedFile then Some err_closed
            else if orc (FClose (rw_path w)) \<noteq> NoFault then Some io_error else None,
            w\<lparr>rw_file := NilFile\<rparr>))"

lemmas log_defs = log_open_def log_rotate_def rotateIfNeeded_def log_append_def log_Write_def

subsection \<open>Names of the backups\<close>

lemma backup_path_inj [simp]: "backup_path path i = backup_path path j \<longleftrightarrow> i = j"
  by (simp add: backup_path_def strconv_Itoa_def nat_Itoa_inj)

lemma backup_path_fresh [simp]: "backup_path path i \<noteq> path" "path \<noteq> backup_path path i"
  by (simp_all add: backup_path_def)

subsection \<open>A rotation\<close>

text \<open>The backups move up by one; the one above the oldest numbered position is kept if nothing comes.\<close>

lemma shift_backups_frame:
  "(\<And>i. 1 \<le> i \<Longrightarrow> i \<le> n + 1 \<Longrightarrow> q \<noteq> backup_path path i) \<Longrightarrow> snd (shift_backups orc path n s) q = s q"
proof (induction n arbitrary: s)
  case (Suc n)
  have q: "q \<noteq> backup_path path (Suc n)" "q \<noteq> backup_path path (Suc n + 1)" using Suc.prems by auto
  have IH: "snd (shift_backups orc path n s') q = s' q" for s' using Suc.IH Suc.prems by simp
  obtain e s1 where r: "os_Rename orc (backup_path path (Suc n)) (backup_path path (Suc n + 1))
      (snd (os_Remove orc (backup_path path (Suc n + 1)) s)) = (e, s1)" by fastforce
  have "s1 q = s q"
    using osfs.rename_frame [OF q, of orc "snd (os_Remove orc (backup_path path (Suc n + 1)) s)"]
      osfs.remove_frame [OF q(2), of orc s] r by simp
  with IH r show ?case by (auto simp: Let_def split: option.split)
qed simp

lemma shift_backups_no_faults:
  "fst (shift_backups no_faults path n s) = None \<and>
   snd (shift_backups no_faults path n s) (backup_path path 1) = (if n = 0 then s (backup_path path 1) else None) \<and>
   (\<forall>i. 1 \<le> i \<and> i \<le> n \<longrightarrow> snd (shift_backups no_faults path n s) (backup_path path (i + 1)) =
      (if i = n \<and> s (backup_path path n) = None then s (backup_path path (n + 1)) else s (backup_path path i)))"
proof (induction n arbitrary: s)
  case (Suc n)
  let ?p = "backup_path path"
  define s1 where "s1 = (if s (?p (Suc n)) = None then s else s(?p (Suc n) := None, ?p (Suc n + 1) := s (?p (Suc n))))"
  have step: "shift_backups no_faults path (Suc n) s = shift_backups no_faults path n s1"
    by (auto simp: s1_def Let_def os_defs fun_eq_iff intro!: arg_cong [where f = "shift_backups _ path n"])
  note IH = Suc.IH [of s1]
  have v: "s1 (?p (Suc n)) = None" "i \<le> n \<Longrightarrow> s1 (?p i) = s (?p i)"
    "s1 (?p (Suc n + 1)) = (if s (?p (Suc n)) = None then s (?p (Suc n + 1)) else s (?p (Suc n)))" for i
    by (auto simp: s1_def)
  have top: "snd (shift_backups no_faults path n s1) (?p (Suc n + 1)) = s1 (?p (Suc n + 1))"
    by (rule shift_backups_frame) simp
  have first: "snd (shift_backups no_faults path n s1) (?p 1) = None"
    using IH v(1) by (cases "n = 0") auto
  have mid: "snd (shift_backups no_faults path n s1) (?p (i + 1)) = s (?p i)" if "1 \<le> i" "i \<le> n" for i
  proof -
    from IH that have "snd (shift_backups no_faults path n s1) (?p (i + 1)) =
        (if i = n \<and> s1 (?p n) = None then s1 (?p (n + 1)) else s1 (?p i))" by blast
    with v(1) v(2) [OF that(2)] show ?thesis by auto
  qed
  have "snd (shift_backups no_faults path n s1) (?p (i + 1)) =
      (if i = Suc n \<and> s (?p (Suc n)) = None then s (?p (Suc n + 1)) else s (?p i))" if "1 \<le> i" "i \<le> Suc n" for i
    using that mid [of i] top v(3) by (cases "i = Suc n") auto
  with IH first show ?case unfolding step by simp
qed simp

text \<open>A rotation keeps every log it can: with a working disk it moves the full log to \<open>.1\<close> and each backup
  one up, starts an empty log, and touches nothing else. It keeps one backup more than \<open>maxBackups\<close>:
  the file numbered \<open>maxBackups + 1\<close> is what was numbered \<open>maxBackups\<close>.\<close>

theorem log_rotation:
  assumes "1 \<le> rw_maxBackups w" and "s (rw_path w) = Some d" and "n = nat (rw_maxBackups w)"
  shows "\<exists>s'. log_rotate no_faults (w, s) = (None, w\<lparr>rw_file := OpenFile\<rparr>, s') \<and>
    s' (rw_path w) = Some [] \<and> s' (backup_path (rw_path w) 1) = Some d \<and>
    (\<forall>i. 1 \<le> i \<and> i \<le> n \<and> s (backup_path (rw_path w) i) \<noteq> None \<longrightarrow>
       s' (backup_path (rw_path w) (i + 1)) = s (backup_path (rw_path w) i)) \<and>
    (\<forall>q. q \<noteq> rw_path w \<and> (\<forall>i. 1 \<le> i \<and> i \<le> n + 1 \<longrightarrow> q \<noteq> backup_path (rw_path w) i) \<longrightarrow> s' q = s q)"
proof -
  let ?path = "rw_path w"
  obtain e s1 where sh: "shift_backups no_faults ?path n s = (e, s1)" by fastforce
  note shift = shift_backups_no_faults [of ?path n s, unfolded sh fst_conv snd_conv]
  have e: "e = None" and free: "s1 (backup_path ?path 1) = None" using shift assms(1,3) by auto
  have frame: "s1 q = s q" if "\<forall>i. 1 \<le> i \<and> i \<le> n + 1 \<longrightarrow> q \<noteq> backup_path ?path i" for q
    using shift_backups_frame [of n q ?path no_faults s] that sh by simp
  then have log: "s1 ?path = Some d" using assms(2) by simp
  define s' where "s' = s1(?path := Some [], backup_path ?path 1 := Some d)"
  have rm: "snd (os_Remove no_faults (backup_path ?path 1) s1) = s1"
    using free by (simp add: os_defs)
  have "log_rotate no_faults (w, s) = (None, w\<lparr>rw_file := OpenFile\<rparr>, s')"
  proof -
    have st: "os_Stat no_faults ?path s1 = None" using log by (simp add: os_defs)
    have mv: "os_Rename no_faults ?path (backup_path ?path 1) s1 = (None, s1(?path := None, backup_path ?path 1 := Some d))"
      using log by (simp add: os_defs)
    have op: "log_open no_faults (w\<lparr>rw_file := ClosedFile\<rparr>, s1(?path := None, backup_path ?path 1 := Some d)) =
        (None, w\<lparr>rw_file := OpenFile\<rparr>, s')"
      by (auto simp: log_open_def os_MkdirAll_def no_faults_def s'_def fun_eq_iff)
    have cl: "no_faults (FClose ?path) = NoFault" by (simp add: no_faults_def)
    show ?thesis
      unfolding log_rotate_def Let_def prod.case using cl sh e rm st mv op assms(3) by simp
  qed
  moreover have "s' (backup_path ?path (i + 1)) = s (backup_path ?path i)"
    if "1 \<le> i" "i \<le> n" "s (backup_path ?path i) \<noteq> None" for i
    using shift that by (auto simp: s'_def)
  moreover have "s' q = s q" if "q \<noteq> ?path" "\<forall>i. 1 \<le> i \<and> i \<le> n + 1 \<longrightarrow> q \<noteq> backup_path ?path i" for q
    using frame [OF that(2)] that by (simp add: s'_def)
  ultimately show ?thesis by (auto simp: s'_def)
qed

subsection \<open>Writing\<close>

text \<open>
  A rotation that fails leaves a closed handle in the writer, and from then on every write fails: the
  agent logs nothing more until it is started again, since the standard logger ignores the error.
\<close>

lemma failed_rotation_closes:
  "log_rotate orc (w, s) = (Some err, w', s') \<Longrightarrow> rw_file w' = ClosedFile"
  by (auto simp: log_rotate_def log_open_def Let_def split: if_splits prod.splits option.splits)

lemma closed_log_stays_closed:
  assumes "rw_file w = ClosedFile"
  shows "log_Write orc p (w, s) = (Some err_closed, w, s)"
  using assms by (simp add: log_Write_def rotateIfNeeded_def)

lemma log_rotate_frame:
  assumes "log_rotate orc (w, s) = (e, w', s')" and "orc (FStat (rw_path w)) = NoFault"
  shows "rw_path w' = rw_path w \<and> rw_maxBytes w' = rw_maxBytes w \<and> (e = None \<longrightarrow> log_size w' s' = 0)"
proof -
  let ?path = "rw_path w" and ?closed = "w\<lparr>rw_file := ClosedFile\<rparr>"
  have op: "rw_path w' = ?path \<and> rw_maxBytes w' = rw_maxBytes w \<and> (e = None \<longrightarrow> log_size w' s' = 0)"
    if "log_open orc (?closed, s1) = (e, w', s')" and "s1 ?path = None" for s1
    using that by (auto simp: log_open_def log_size_def split: if_splits option.splits)
  obtain e1 s1 where sh: "shift_backups orc ?path (nat (rw_maxBackups w)) s = (e1, s1)" by fastforce
  define s2 where "s2 = snd (os_Remove orc (backup_path ?path 1) s1)"
  obtain e3 s3 where mv: "os_Rename orc ?path (backup_path ?path 1) s2 = (e3, s3)" by fastforce
  have gone: "s3 ?path = None" if "e3 = None"
    using osfs.rename_ok [of orc ?path "backup_path ?path 1" s2] mv that by simp
  have "(e, w', s') = (if orc (FClose ?path) \<noteq> NoFault then (Some io_error, ?closed, s)
      else if e1 \<noteq> None then (e1, ?closed, s1)
      else if s2 ?path \<noteq> None then (if e3 \<noteq> None then (e3, ?closed, s3) else log_open orc (?closed, s3))
      else log_open orc (?closed, s2))"
    using assms(1) sh mv os_Stat_no_fault [of orc ?path s2] assms(2)
    by (auto simp: log_rotate_def Let_def s2_def split: option.splits if_splits)
  then show ?thesis using op gone by (auto split: if_splits)
qed

lemma log_Write_ok:
  assumes "log_Write orc p (w, s) = (None, w', s')" and "int (length p) \<le> rw_maxBytes w"
  shows "log_size w' s' \<le> rw_maxBytes w \<and> (\<exists>old. s' (rw_path w) = Some (old @ p))"
proof -
  have opened: "rw_path w1 = rw_path w0 \<and> rw_maxBytes w1 = rw_maxBytes w0"
    if "log_open orc (w0, s0) = (e, w1, s1)" for w0 s0 e w1 s1
    using that by (auto simp: log_open_def split: if_splits option.splits)
  have sized: "rw_path w2 = rw_path w1 \<and> rw_maxBytes w2 = rw_maxBytes w1 \<and>
      (e = None \<longrightarrow> log_size w2 s2 + int (length p) \<le> rw_maxBytes w1)"
    if r: "rotateIfNeeded orc (int (length p)) (w1, s1) = (e, w2, s2)" and "rw_maxBytes w1 = rw_maxBytes w" for w1 s1 e w2 s2
  proof (cases "log_rotate orc (w1, s1) = (e, w2, s2)")
    case False
    with r show ?thesis by (auto simp: rotateIfNeeded_def split: if_splits)
  next
    case True
    moreover from this r have "orc (FStat (rw_path w1)) = NoFault \<or> (w2 = w1 \<and> e \<noteq> None)"
      by (auto simp: rotateIfNeeded_def split: if_splits)
    ultimately show ?thesis using assms(2) that(2) log_rotate_frame by fastforce
  qed
  obtain e1 w1 s1 where o1: "(if rw_file w = NilFile then log_open orc (w, s) else (None, w, s)) = (e1, w1, s1)"
    by (metis prod_cases3)
  with opened have w1: "rw_path w1 = rw_path w" "rw_maxBytes w1 = rw_maxBytes w" by (auto split: if_splits)
  obtain e2 w2 s2 where r2: "rotateIfNeeded orc (int (length p)) (w1, s1) = (e2, w2, s2)" by (metis prod_cases3)
  note size = sized [OF r2 w1(2)]
  have W: "(None, w', s') = (if e1 \<noteq> None then (e1, w1, s1) else if e2 \<noteq> None then (e2, w2, s2) else log_append orc p (w2, s2))"
    using assms(1) o1 r2 by (auto simp: log_Write_def split: option.splits)
  from W have none: "e1 = None" "e2 = None" and a: "log_append orc p (w2, s2) = (None, w', s')" by (auto split: if_splits)
  define old where "old = (case s2 (rw_path w2) of None \<Rightarrow> [] | Some d \<Rightarrow> d)"
  from a have "w' = w2" "s' = s2(rw_path w2 \<mapsto> old @ p)"
    by (auto simp: log_append_def old_def Let_def split: io_fault.splits)
  moreover have "log_size w2 s2 = int (length old)" by (simp add: log_size_def old_def split: option.split)
  ultimately show ?thesis using size none(2) w1 by (auto simp: log_size_def)
qed

text \<open>C40. The log respects its limit: whatever fails, a write of no more bytes than the limit that reports
  success leaves a log of at most the limit, ending in what was written; and when a write that would
  exceed the limit meets a rotation that fails, at whatever step, it reports that error, and so does every
  later write, whatever the disk does then.\<close>

theorem log_write_bounded:
  "(log_Write orc p (w, s) = (None, w', s') \<and> int (length p) \<le> rw_maxBytes w \<longrightarrow>
      log_size w' s' \<le> rw_maxBytes w \<and> (\<exists>old. s' (rw_path w) = Some (old @ p))) \<and>
   (rw_file w = OpenFile \<and> orc (FStat (rw_path w)) = NoFault \<and> rw_maxBytes w < log_size w s + int (length p) \<and>
    log_rotate orc (w, s) = (Some err, w2, s2) \<longrightarrow>
      log_Write orc p (w, s) = (Some err, w2, s2) \<and>
      (\<forall>orc3 p3 s3. log_Write orc3 p3 (w2, s3) = (Some err_closed, w2, s3)))"
proof (intro conjI impI)
  assume "log_Write orc p (w, s) = (None, w', s') \<and> int (length p) \<le> rw_maxBytes w"
  then have "log_size w' s' \<le> rw_maxBytes w \<and> (\<exists>old. s' (rw_path w) = Some (old @ p))"
    using log_Write_ok by blast
  then show "log_size w' s' \<le> rw_maxBytes w" "\<exists>old. s' (rw_path w) = Some (old @ p)" by blast+
next
  assume r: "rw_file w = OpenFile \<and> orc (FStat (rw_path w)) = NoFault \<and> rw_maxBytes w < log_size w s + int (length p) \<and>
    log_rotate orc (w, s) = (Some err, w2, s2)"
  then show "log_Write orc p (w, s) = (Some err, w2, s2)"
    by (simp add: log_Write_def rotateIfNeeded_def)
  from r have "rw_file w2 = ClosedFile" using failed_rotation_closes by blast
  then show "\<forall>orc3 p3 s3. log_Write orc3 p3 (w2, s3) = (Some err_closed, w2, s3)"
    using closed_log_stays_closed by blast
qed

subsection \<open>Examples\<close>

definition sample_log :: RotatingWriter where
  "sample_log = \<lparr>rw_path = ''a.log'', rw_maxBytes = 5, rw_maxBackups = 2, rw_file = OpenFile\<rparr>"

definition sample_logs :: fs where
  "sample_logs = [''a.log'' \<mapsto> ''full'', backup_path ''a.log'' 2 \<mapsto> ''old'']"

theorem log_rotation_witness:
  "\<exists>s'. log_rotate no_faults (sample_log, sample_logs) = (None, sample_log\<lparr>rw_file := OpenFile\<rparr>, s') \<and>
     s' (backup_path ''a.log'' 1) = Some ''full'' \<and> s' (backup_path ''a.log'' 3) = Some ''old''"
proof -
  have p: "rw_path sample_log = ''a.log''" "1 \<le> rw_maxBackups sample_log" "2 = nat (rw_maxBackups sample_log)"
    by (simp_all add: sample_log_def)
  have f: "sample_logs (rw_path sample_log) = Some ''full''" "sample_logs (backup_path ''a.log'' 2) = Some ''old''"
    by (simp_all add: sample_logs_def p(1))
  obtain s' where r: "log_rotate no_faults (sample_log, sample_logs) = (None, sample_log\<lparr>rw_file := OpenFile\<rparr>, s')"
    and one: "s' (backup_path ''a.log'' 1) = Some ''full''"
    and up: "\<forall>i. 1 \<le> i \<and> i \<le> 2 \<and> sample_logs (backup_path ''a.log'' i) \<noteq> None \<longrightarrow>
       s' (backup_path ''a.log'' (i + 1)) = sample_logs (backup_path ''a.log'' i)"
    using log_rotation [of sample_log sample_logs "''full''" 2] p f(1) by metis
  from up [rule_format, of 2] f(2) have "s' (backup_path ''a.log'' (2 + 1)) = Some ''old''" by simp
  then have "s' (backup_path ''a.log'' 3) = Some ''old''" by (simp only: numeral_plus_one semiring_norm)
  with r one show ?thesis by (intro exI [of _ s']) simp
qed

text \<open>A write that fits, and one that meets a rotation whose close fails.\<close>

definition bad_close :: fs_oracle where
  "bad_close = (\<lambda>e. if e = FClose ''a.log'' then Fault else NoFault)"

theorem log_write_bounded_witness:
  "log_size (fst (snd (log_Write no_faults ''new'' (sample_log, [''a.log'' \<mapsto> ''full'']))))
     (snd (snd (log_Write no_faults ''new'' (sample_log, [''a.log'' \<mapsto> ''full''])))) \<le> 5 \<and>
   log_Write no_faults ''x'' (fst (snd (log_Write bad_close ''new'' (sample_log, [''a.log'' \<mapsto> ''full'']))), Map.empty) =
     (Some err_closed, sample_log\<lparr>rw_file := ClosedFile\<rparr>, Map.empty)"
proof
  obtain err w' s' where w: "log_Write no_faults ''new'' (sample_log, [''a.log'' \<mapsto> ''full'']) = (err, w', s')"
    by (metis prod_cases3)
  have "Option.is_none (fst (log_Write no_faults ''new'' (sample_log, [''a.log'' \<mapsto> ''full''])))" by code_simp
  with w have "log_Write no_faults ''new'' (sample_log, [''a.log'' \<mapsto> ''full'']) = (None, w', s')"
    by (simp add: Option.is_none_def)
  moreover have "int (length ''new'') \<le> rw_maxBytes sample_log" "rw_maxBytes sample_log = 5"
    by (simp_all add: sample_log_def)
  ultimately show "log_size (fst (snd (log_Write no_faults ''new'' (sample_log, [''a.log'' \<mapsto> ''full'']))))
     (snd (snd (log_Write no_faults ''new'' (sample_log, [''a.log'' \<mapsto> ''full''])))) \<le> 5"
    using conjunct1 [OF log_write_bounded, of no_faults "''new''" sample_log "[''a.log'' \<mapsto> ''full'']" w' s'] w by simp
next
  let ?s = "[''a.log'' \<mapsto> ''full''] :: fs"
  have "rw_file sample_log = OpenFile" "bad_close (FStat (rw_path sample_log)) = NoFault"
    "rw_maxBytes sample_log < log_size sample_log ?s + int (length ''new'')"
    "log_rotate bad_close (sample_log, ?s) = (Some io_error, sample_log\<lparr>rw_file := ClosedFile\<rparr>, ?s)"
    by (simp_all add: sample_log_def bad_close_def log_size_def log_rotate_def Let_def)
  then show "log_Write no_faults ''x'' (fst (snd (log_Write bad_close ''new'' (sample_log, ?s))), Map.empty) =
     (Some err_closed, sample_log\<lparr>rw_file := ClosedFile\<rparr>, Map.empty)"
    using conjunct2 [OF log_write_bounded, of sample_log bad_close "?s" "''new''" io_error "sample_log\<lparr>rw_file := ClosedFile\<rparr>" ?s] by simp
qed

end
