(* ===== verification/Ipc.thy ===== *)
theory Ipc
  imports ApiClient TaskQueue RemoteSession
begin

section \<open>The named pipe between the service and the tray (\<open>internal/ipc\<close>, \<open>buildIPCHandler\<close>)\<close>

text \<open>
  The messages of the pipe and their JSON form, the two ends of a connection (\<open>handleConnection\<close> and
  \<open>SendRequest\<close>), the accept loop, and the handler of the service. What \<open>encoding/json\<close> writes and
  reads as text is a parameter; the pipe is a function from what was sent to what comes back. A value
  of type \<open>any\<close> in a message is its JSON value, \<open>nil\<close> is \<open>JNull\<close>, and a map has its keys in order,
  the way they are written.
\<close>

subsection \<open>Messages\<close>

record IpcRequest =
  iq_Action :: string
  iq_AppID :: int
  iq_Timestamp :: string
  iq_Data :: json

record IpcResponse =
  ip_Status :: string
  ip_Message :: string
  ip_Data :: json

definition NewRequest :: "string \<Rightarrow> string \<Rightarrow> int \<Rightarrow> IpcRequest" where
  "NewRequest now action appID = \<lparr>iq_Action = action, iq_AppID = appID, iq_Timestamp = now, iq_Data = JNull\<rparr>"

definition omit_any :: "string \<Rightarrow> json \<Rightarrow> payload" where
  "omit_any k v = (if v = JNull then [] else [(k, v)])"

lemma decode_entries_omit_any:
  "decode_entries st (omit_any k v) r = (if v = JNull then Some r else st k v r)"
  by (simp add: omit_any_def split: option.splits)

definition encode_IpcRequest :: "IpcRequest \<Rightarrow> json" where
  "encode_IpcRequest r = JObj ([(''action'', JStr (iq_Action r))] @ omit_int ''app_id'' (iq_AppID r) @
     omit_string ''timestamp'' (iq_Timestamp r) @ omit_any ''data'' (iq_Data r))"

definition set_ipc_request_field :: "string \<Rightarrow> json \<Rightarrow> IpcRequest \<Rightarrow> IpcRequest option" where
  "set_ipc_request_field f v r =
     (if f = ''action'' then map_option (\<lambda>s. r\<lparr>iq_Action := s\<rparr>) (decode_string (iq_Action r) v)
      else if f = ''app_id'' then map_option (\<lambda>n. r\<lparr>iq_AppID := n\<rparr>) (decode_int (iq_AppID r) v)
      else if f = ''timestamp'' then map_option (\<lambda>s. r\<lparr>iq_Timestamp := s\<rparr>) (decode_string (iq_Timestamp r) v)
      else if f = ''data'' then Some (r\<lparr>iq_Data := v\<rparr>)
      else Some r)"

definition decode_IpcRequest :: "json \<Rightarrow> IpcRequest option" where
  "decode_IpcRequest v = decode_struct [''action'', ''app_id'', ''timestamp'', ''data''] set_ipc_request_field
     \<lparr>iq_Action = [], iq_AppID = 0, iq_Timestamp = [], iq_Data = JNull\<rparr> v"

definition encode_IpcResponse :: "IpcResponse \<Rightarrow> json" where
  "encode_IpcResponse r = JObj ([(''status'', JStr (ip_Status r))] @ omit_string ''message'' (ip_Message r) @
     omit_any ''data'' (ip_Data r))"

definition set_ipc_response_field :: "string \<Rightarrow> json \<Rightarrow> IpcResponse \<Rightarrow> IpcResponse option" where
  "set_ipc_response_field f v r =
     (if f = ''status'' then map_option (\<lambda>s. r\<lparr>ip_Status := s\<rparr>) (decode_string (ip_Status r) v)
      else if f = ''message'' then map_option (\<lambda>s. r\<lparr>ip_Message := s\<rparr>) (decode_string (ip_Message r) v)
      else if f = ''data'' then Some (r\<lparr>ip_Data := v\<rparr>)
      else Some r)"

definition decode_IpcResponse :: "json \<Rightarrow> IpcResponse option" where
  "decode_IpcResponse v = decode_struct [''status'', ''message'', ''data''] set_ipc_response_field
     \<lparr>ip_Status = [], ip_Message = [], ip_Data = JNull\<rparr> v"

subsection \<open>Codecs\<close>

interpretation request_codec: message_codec encode_IpcRequest decode_IpcRequest "\<lambda>r. int64_range (iq_AppID r)"
proof
  fix m :: IpcRequest
  assume "int64_range (iq_AppID m)"
  then show "decode_IpcRequest (encode_IpcRequest m) = Some m"
    by (cases m) (simp add: decode_IpcRequest_def encode_IpcRequest_def decode_struct_def decode_omit
      decode_entries_omit_any set_ipc_request_field_def)
qed

interpretation response_codec: message_codec encode_IpcResponse decode_IpcResponse "\<lambda>r. True"
proof
  fix m :: IpcResponse
  show "decode_IpcResponse (encode_IpcResponse m) = Some m"
    by (cases m) (simp add: decode_IpcResponse_def encode_IpcResponse_def decode_struct_def decode_omit
      decode_entries_omit_any set_ipc_response_field_def)
qed

subsection \<open>The two ends of a connection\<close>

text \<open>A handler answers a request; what it sets going is the second component.\<close>

type_synonym 'e ipc_handler = "IpcRequest \<Rightarrow> IpcResponse \<times> 'e list"

definition with_status :: "IpcResponse \<Rightarrow> IpcResponse" where
  "with_status resp = (if ip_Status resp = [] then resp\<lparr>ip_Status := ''ok''\<rparr> else resp)"

definition handleConnection :: "wire \<Rightarrow> 'e ipc_handler \<Rightarrow> string \<Rightarrow> string \<times> 'e list" where
  "handleConnection w handler t =
     (case wire_receive w decode_IpcRequest t of
        Inl err \<Rightarrow> (wire_send w encode_IpcResponse
          \<lparr>ip_Status = ''error'', ip_Message = ''invalid request'', ip_Data = JNull\<rparr>, [])
      | Inr req \<Rightarrow> (case handler req of
          (resp, started) \<Rightarrow> (wire_send w encode_IpcResponse (with_status resp), started)))"

text \<open>The pipe as a client sees it: dialling and writing may fail; the text that comes back is empty when
  the other end hangs up.\<close>

record ipc_pipe =
  pp_dial :: "goerr option"
  pp_write :: "goerr option"
  pp_reply :: "string \<Rightarrow> string"

definition SendRequest :: "wire \<Rightarrow> ipc_pipe \<Rightarrow> IpcRequest \<Rightarrow> goerr + IpcResponse" where
  "SendRequest w p req =
     (case pp_dial p of
        Some err \<Rightarrow> Inl err
      | None \<Rightarrow>
          (case pp_write p of
             Some err \<Rightarrow> Inl err
           | None \<Rightarrow> wire_receive w decode_IpcResponse (pp_reply p (wire_send w encode_IpcRequest req))))"

text \<open>
  The accept loop: a connection is served in a goroutine of its own, a failed accept ends the loop
  only when the server has been closed. Closing happens once; a second \<open>Close\<close> has no error.
\<close>

datatype accept_event = Accepted string | AcceptFailed bool

fun acceptLoop :: "wire \<Rightarrow> 'e ipc_handler \<Rightarrow> accept_event list \<Rightarrow> (string \<times> 'e list) list" where
  "acceptLoop w h [] = []"
| "acceptLoop w h (Accepted t # es) = handleConnection w h t # acceptLoop w h es"
| "acceptLoop w h (AcceptFailed closed # es) = (if closed then [] else acceptLoop w h es)"

definition pipe_Close :: "goerr option \<Rightarrow> bool \<Rightarrow> goerr option \<times> bool" where
  "pipe_Close listener closed = (if closed then (None, closed) else (listener, True))"

text \<open>A client whose pipe is served by \<open>h\<close>.\<close>

definition served_by :: "wire \<Rightarrow> 'e ipc_handler \<Rightarrow> ipc_pipe" where
  "served_by w h = \<lparr>pp_dial = None, pp_write = None, pp_reply = (\<lambda>t. fst (handleConnection w h t))\<rparr>"

subsection \<open>The remote session as the pipe shows it\<close>

fun session_state_text :: "SessionState \<Rightarrow> string" where
  "session_state_text StateIdle = ''idle''"
| "session_state_text StatePending = ''pending_approval''"
| "session_state_text StateApproved = ''approved''"
| "session_state_text StateConnecting = ''connecting''"
| "session_state_text StateActive = ''active''"

text \<open>\<open>State\<close> and \<open>CurrentSessionID\<close> of a manager that may be \<open>nil\<close>.\<close>

definition sm_State :: "SessionManager option \<Rightarrow> SessionState" where
  "sm_State sm = (case sm of None \<Rightarrow> StateIdle | Some m \<Rightarrow> sm_state m)"

definition sm_CurrentSessionID :: "SessionManager option \<Rightarrow> int" where
  "sm_CurrentSessionID sm = (case sm of None \<Rightarrow> 0 | Some m \<Rightarrow> sm_session m)"

text \<open>
  \<open>helperProcessStatus\<close>: the first record of the output of \<open>tasklist\<close>; the reader of CSV is a
  parameter. The error of \<open>Atoi\<close> is ignored: what is not a number reads as 0, a number that is too
  large as the largest \<open>int\<close>.
\<close>

definition Atoi_value :: "string \<Rightarrow> int" where
  "Atoi_value s =
     (let neg = strings_HasPrefix s ''-'';
          ds = (if neg \<or> strings_HasPrefix s ''+'' then tl s else s)
      in if ds = [] \<or> \<not> list_all char_digit ds then 0
         else saturate64 (if neg then - digits_value ds else digits_value ds))"

definition no_tasks_message :: string where
  "no_tasks_message = ''INFO: No tasks are running which match the specified criteria.''"

definition helperProcessStatus :: "(string \<Rightarrow> string list option) \<Rightarrow> string option \<Rightarrow> bool \<times> int" where
  "helperProcessStatus csv out =
     (case out of
        None \<Rightarrow> (False, 0)
      | Some text \<Rightarrow>
          (let line = strings_TrimSpace text in
           if line = [] \<or> strings_EqualFold line no_tasks_message then (False, 0)
           else case csv line of
             None \<Rightarrow> (True, 0)
           | Some rec \<Rightarrow>
               if length rec < 2 then (True, 0)
               else (True, Atoi_value (strings_TrimSpace (rec ! 1)))))"

definition CurrentRemoteSupportStatus :: "bool \<times> int \<Rightarrow> SessionManager option \<Rightarrow> RemoteSupportStatus" where
  "CurrentRemoteSupportStatus helper sm =
     \<lparr>rss_State = session_state_text (sm_State sm), rss_SessionID = sm_CurrentSessionID sm,
      rss_HelperRunning = fst helper, rss_HelperPID = snd helper\<rparr>"

subsection \<open>The handler of the service\<close>

text \<open>A slice that is \<open>nil\<close> is written as an empty array here; both are read as no apps.\<close>

definition encode_StoreApp :: "StoreApp \<Rightarrow> json" where
  "encode_StoreApp a = JObj
     [(''id'', jint (sa_ID a)), (''display_name'', JStr (sa_DisplayName a)), (''version'', JStr (sa_Version a)),
      (''description'', JStr (sa_Description a)), (''icon_url'', JStr (sa_IconURL a)),
      (''file_size_mb'', jint (sa_FileSizeMB a)), (''category'', JStr (sa_Category a)),
      (''installed'', JBool (sa_Installed a)), (''install_state'', JStr (sa_InstallState a)),
      (''error_message'', JStr (sa_ErrorMessage a)), (''conflict_detected'', JBool (sa_ConflictDetected a)),
      (''conflict_confidence'', JStr (sa_ConflictConfidence a)), (''conflict_message'', JStr (sa_ConflictMessage a)),
      (''installed_version'', JStr (sa_InstalledVersion a)), (''can_uninstall'', JBool (sa_CanUninstall a))]"

definition encode_StoreResponse :: "StoreResponse \<Rightarrow> json" where
  "encode_StoreResponse r = JObj [(''apps'', JArr (map encode_StoreApp (st_Apps r)))]"

text \<open>What the handler closes over: the client, the start time as text, what \<open>tasklist\<close> says of the
  helper, and the server; the goroutine it may start is one of the session's.\<close>

record ipc_env =
  ie_api :: api_env
  ie_client :: ApiClient
  ie_startedAt :: string
  ie_helper :: "bool \<times> int"

definition ipc_error :: "string \<Rightarrow> IpcResponse" where
  "ipc_error msg = \<lparr>ip_Status = ''error'', ip_Message = msg, ip_Data = JNull\<rparr>"

definition ipc_get_status :: "ipc_env \<Rightarrow> Config \<Rightarrow> TaskQueue \<Rightarrow> IpcResponse" where
  "ipc_get_status env cfg q = \<lparr>ip_Status = ''ok'', ip_Message = [], ip_Data = JObj
     [(''agent_uuid'', JStr (agt_UUID (cfg_Agent cfg))), (''agent_version'', JStr (agt_Version (cfg_Agent cfg))),
      (''pending_tasks'', jint (PendingCount q)), (''service'', JStr ''running''),
      (''started_at'', JStr (ie_startedAt env))]\<rparr>"

definition ipc_get_store :: "ipc_env \<Rightarrow> Config \<Rightarrow> IpcResponse" where
  "ipc_get_store env cfg =
     (case GetStore (ie_api env) (ie_client env) (agt_UUID (cfg_Agent cfg)) (agt_SecretKey (cfg_Agent cfg)) of
        Inl err \<Rightarrow> ipc_error (error_Error err)
      | Inr store \<Rightarrow> \<lparr>ip_Status = ''ok'', ip_Message = [], ip_Data = encode_StoreResponse store\<rparr>)"

definition ipc_install :: "ipc_env \<Rightarrow> Config \<Rightarrow> IpcRequest \<Rightarrow> IpcResponse" where
  "ipc_install env cfg req =
     (if iq_AppID req \<le> 0 then ipc_error ''app_id is required''
      else case RequestStoreInstall (ie_api env) (ie_client env) (agt_UUID (cfg_Agent cfg))
                  (agt_SecretKey (cfg_Agent cfg)) (iq_AppID req) of
        Inl err \<Rightarrow> ipc_error (error_Error err)
      | Inr resp \<Rightarrow>
          \<lparr>ip_Status = ''ok'',
           ip_Message = (if mr_Message resp \<noteq> [] then mr_Message resp else ''install request queued''),
           ip_Data = JObj [(''queue_status'', JStr (if mr_Status resp \<noteq> [] then mr_Status resp else ''queued''))]\<rparr>)"

definition ipc_remote_status :: "ipc_env \<Rightarrow> SessionManager option \<Rightarrow> bool option \<Rightarrow> IpcResponse" where
  "ipc_remote_status env sm enabled =
     (if sm = None \<or> enabled \<noteq> Some True
      then \<lparr>ip_Status = ''ok'', ip_Message = [], ip_Data = JObj [(''enabled'', JBool False), (''state'', JStr ''disabled'')]\<rparr>
      else \<lparr>ip_Status = ''ok'', ip_Message = [], ip_Data = JObj
        [(''enabled'', JBool True), (''helper_pid'', jint (snd (ie_helper env))),
         (''helper_running'', JBool (fst (ie_helper env))), (''session_id'', jint (sm_CurrentSessionID sm)),
         (''state'', JStr (session_state_text (sm_State sm)))]\<rparr>)"

definition ipc_remote_end :: "SessionManager option \<Rightarrow> IpcResponse \<times> rs_pc list" where
  "ipc_remote_end sm =
     (if sm = None then (ipc_error ''remote support disabled'', [])
      else (\<lparr>ip_Status = ''ok'', ip_Message = ''session end requested'', ip_Data = JNull\<rparr>, [EndRead ''user'']))"

definition buildIPCHandler ::
    "ipc_env \<Rightarrow> Config \<Rightarrow> TaskQueue \<Rightarrow> SessionManager option \<Rightarrow> bool option \<Rightarrow> rs_pc ipc_handler" where
  "buildIPCHandler env cfg q sm enabled req =
     (let action = strings_ToLower (iq_Action req) in
      if action = ''get_status'' then (ipc_get_status env cfg q, [])
      else if action = ''get_store'' then (ipc_get_store env cfg, [])
      else if action = ''install_from_store'' then (ipc_install env cfg req, [])
      else if action = ''remote_support_status'' then (ipc_remote_status env sm enabled, [])
      else if action = ''remote_support_end'' then ipc_remote_end sm
      else (ipc_error ''unknown action'', []))"

lemmas ipc_defs = ipc_get_status_def ipc_get_store_def ipc_install_def ipc_remote_status_def ipc_remote_end_def
  ipc_error_def

subsection \<open>What the pipe promises\<close>

lemma handler_status: "ip_Status (fst (buildIPCHandler env cfg q sm enabled req)) \<in> {''ok'', ''error''}"
  by (simp add: buildIPCHandler_def ipc_defs Let_def split: sum.split)

lemma with_status_handler [simp]:
  "with_status (fst (buildIPCHandler env cfg q sm enabled req)) = fst (buildIPCHandler env cfg q sm enabled req)"
  using handler_status [of env cfg q sm enabled req] by (auto simp: with_status_def)

text \<open>The requests that make the service call the server.\<close>

definition forwards :: "IpcRequest \<Rightarrow> bool" where
  "forwards req \<longleftrightarrow> strings_ToLower (iq_Action req) = ''get_store'' \<or>
     strings_ToLower (iq_Action req) = ''install_from_store'' \<and> 0 < iq_AppID req"

text \<open>C36. What a client of the pipe can bring about is limited: an answer is always \<open>ok\<close> or \<open>error\<close>, an
  action the service does not know is an error, the only thing a request sets going is the end of the
  remote session in the user's name, and the server hears of it only for the store and for an install
  of a positive app id: any other answer is the same whatever the server would say.\<close>

theorem ipc_policy:
  assumes "buildIPCHandler env cfg q sm enabled req = (resp, started)"
  shows "ip_Status resp \<in> {''ok'', ''error''} \<and>
    (ip_Status resp = ''ok'' \<longrightarrow> strings_ToLower (iq_Action req) \<in>
       {''get_status'', ''get_store'', ''install_from_store'', ''remote_support_status'', ''remote_support_end''}) \<and>
    started = (if strings_ToLower (iq_Action req) = ''remote_support_end'' \<and> sm \<noteq> None then [EndRead ''user''] else []) \<and>
    (\<not> forwards req \<longrightarrow> (\<forall>api. buildIPCHandler (env\<lparr>ie_api := api\<rparr>) cfg q sm enabled req = (resp, started)))"
proof (intro conjI)
  show "ip_Status resp \<in> {''ok'', ''error''}"
    using handler_status [of env cfg q sm enabled req] assms by simp
  show "ip_Status resp = ''ok'' \<longrightarrow> strings_ToLower (iq_Action req) \<in>
      {''get_status'', ''get_store'', ''install_from_store'', ''remote_support_status'', ''remote_support_end''}"
    using assms by (auto simp: buildIPCHandler_def ipc_error_def Let_def split: if_splits)
  show "started = (if strings_ToLower (iq_Action req) = ''remote_support_end'' \<and> sm \<noteq> None then [EndRead ''user''] else [])"
    using assms by (auto simp: buildIPCHandler_def ipc_remote_end_def Let_def split: if_splits)
  show "\<not> forwards req \<longrightarrow> (\<forall>api. buildIPCHandler (env\<lparr>ie_api := api\<rparr>) cfg q sm enabled req = (resp, started))"
    using assms unfolding forwards_def
    by (auto simp: buildIPCHandler_def ipc_get_status_def ipc_install_def ipc_remote_status_def Let_def)
qed

text \<open>A request over the pipe is answered by what the handler says to that very request: nothing of the
  action, the app id or the answer is lost on the way there and back.\<close>

theorem ipc_exchange:
  assumes "int64_range (iq_AppID req)"
    and "wire_ok w (encode_IpcRequest req)"
    and "wire_ok w (encode_IpcResponse (fst (buildIPCHandler env cfg q sm enabled req)))"
  shows "SendRequest w (served_by w (buildIPCHandler env cfg q sm enabled)) req =
    Inr (fst (buildIPCHandler env cfg q sm enabled req))"
  using request_codec.received [OF assms(1,2)] response_codec.received [OF TrueI assms(3)]
  by (simp add: SendRequest_def served_by_def handleConnection_def split_def)

text \<open>A wire for a few known values, each written as its number.\<close>

definition sample_wire :: "json list \<Rightarrow> wire" where
  "sample_wire vs =
     (let pr = (\<lambda>v. nat_Itoa (length (takeWhile (\<lambda>x. x \<noteq> v) vs)))
      in \<lparr>iw_print = pr,
          iw_first = (\<lambda>t. case map_of (map (\<lambda>v. (pr v, v)) vs) t of None \<Rightarrow> Inl (GoErr ''EOF'') | Some v \<Rightarrow> Inr v)\<rparr>)"

lemma map_of_inj: "inj_on f (set vs) \<Longrightarrow> v \<in> set vs \<Longrightarrow> map_of (map (\<lambda>v. (f v, v)) vs) (f v) = Some v"
  by (induction vs) (auto simp: inj_on_def)

lemma index_nth: "v \<in> set vs \<Longrightarrow> vs ! length (takeWhile (\<lambda>x. x \<noteq> v) vs) = v"
  by (induction vs) auto

lemma index_inj: "inj_on (\<lambda>v. length (takeWhile (\<lambda>x. x \<noteq> v) vs)) (set vs)"
  by (rule inj_on_inverseI [of _ "(!) vs"]) (rule index_nth)

lemma wire_ok_sample: "v \<in> set vs \<Longrightarrow> wire_ok (sample_wire vs) v"
proof -
  assume v: "v \<in> set vs"
  let ?pr = "\<lambda>v. nat_Itoa (length (takeWhile (\<lambda>x. x \<noteq> v) vs))"
  have "inj_on ?pr (set vs)"
    using index_inj [of vs] unfolding inj_on_def by (metis nat_Itoa_inj)
  from map_of_inj [OF this v] show ?thesis by (simp add: wire_ok_def sample_wire_def Let_def)
qed

definition sample_ipc :: ipc_env where
  "sample_ipc = \<lparr>ie_api = refusing_env, ie_client = sample_client, ie_startedAt = ''2026-01-01T00:00:00Z'',
     ie_helper = (False, 0)\<rparr>"

definition sample_handler :: "rs_pc ipc_handler" where
  "sample_handler = buildIPCHandler sample_ipc Default (NewTaskQueue 3) (Some NewSessionManager) (Some True)"

theorem ipc_policy_witness:
  "snd (sample_handler (NewRequest ''now'' ''Remote_Support_End'' 0)) = [EndRead ''user''] \<and>
   ip_Status (fst (sample_handler (NewRequest ''now'' ''reboot'' 0))) \<in> {''ok'', ''error''}"
proof
  have not_fwd: "strings_ToLower ''Remote_Support_End'' = ''remote_support_end''" by code_simp
  show "snd (sample_handler (NewRequest ''now'' ''Remote_Support_End'' 0)) = [EndRead ''user'']"
    using ipc_policy [OF surjective_pairing, of sample_ipc Default "NewTaskQueue 3" "Some NewSessionManager" "Some True"
        "NewRequest ''now'' ''Remote_Support_End'' 0"] not_fwd
    unfolding sample_handler_def NewRequest_def by simp
  show "ip_Status (fst (sample_handler (NewRequest ''now'' ''reboot'' 0))) \<in> {''ok'', ''error''}"
    using ipc_policy [OF surjective_pairing, of sample_ipc Default "NewTaskQueue 3" "Some NewSessionManager" "Some True"
        "NewRequest ''now'' ''reboot'' 0"]
    unfolding sample_handler_def by blast
qed

theorem ipc_exchange_witness:
  "\<exists>w. SendRequest w (served_by w sample_handler) (NewRequest ''now'' ''get_status'' 0) =
     Inr (ipc_get_status sample_ipc Default (NewTaskQueue 3))"
proof -
  let ?req = "NewRequest ''now'' ''get_status'' 0" and ?resp = "ipc_get_status sample_ipc Default (NewTaskQueue 3)"
  let ?w = "sample_wire [encode_IpcRequest ?req, encode_IpcResponse ?resp]"
  have "strings_ToLower ''get_status'' = ''get_status''" by code_simp
  then have h: "sample_handler ?req = (?resp, [])"
    by (simp add: sample_handler_def buildIPCHandler_def NewRequest_def)
  have "SendRequest ?w (served_by ?w sample_handler) ?req = Inr (fst (sample_handler ?req))"
    unfolding sample_handler_def
    by (rule ipc_exchange)
      (simp_all add: NewRequest_def int64_range_def wire_ok_sample h [unfolded sample_handler_def NewRequest_def])
  with h show ?thesis by (metis fst_conv)
qed

end
