(* ===== verification/Tray.thy ===== *)
theory Tray
  imports Ipc Config
begin

section \<open>The tray (\<open>internal/tray\<close>, \<open>cmd/tray\<close>)\<close>

text \<open>
  The part of the tray that is not drawing: the status it shows, from the answer of the service over
  the pipe and the health of the server; the store list and what its buttons say; and the command line
  of \<open>cmd/tray\<close>. What is shown is a list of effects on the notification area. The widgets, the icons
  and the message loop are not modelled. Texts outside ASCII are given by the bytes of their UTF-8 form.
\<close>

subsection \<open>Snapshots and labels\<close>

record StatusSnapshot =
  ss_Service :: string
  ss_StartedAt :: string
  ss_PendingTasks :: int
  ss_AgentVersion :: string
  ss_AgentUUID :: string

definition status_fields :: "string list" where
  "status_fields = [''service'', ''started_at'', ''pending_tasks'', ''agent_version'', ''agent_uuid'']"

definition set_status_field :: "string \<Rightarrow> json \<Rightarrow> StatusSnapshot \<Rightarrow> StatusSnapshot option" where
  "set_status_field f v r =
     (if f = ''service'' then map_option (\<lambda>s. r\<lparr>ss_Service := s\<rparr>) (decode_string (ss_Service r) v)
      else if f = ''started_at'' then map_option (\<lambda>s. r\<lparr>ss_StartedAt := s\<rparr>) (decode_string (ss_StartedAt r) v)
      else if f = ''pending_tasks'' then map_option (\<lambda>n. r\<lparr>ss_PendingTasks := n\<rparr>) (decode_int (ss_PendingTasks r) v)
      else if f = ''agent_version'' then map_option (\<lambda>s. r\<lparr>ss_AgentVersion := s\<rparr>) (decode_string (ss_AgentVersion r) v)
      else if f = ''agent_uuid'' then map_option (\<lambda>s. r\<lparr>ss_AgentUUID := s\<rparr>) (decode_string (ss_AgentUUID r) v)
      else Some r)"

definition decode_StatusSnapshot :: "json \<Rightarrow> StatusSnapshot option" where
  "decode_StatusSnapshot v = decode_struct status_fields set_status_field
     \<lparr>ss_Service = [], ss_StartedAt = [], ss_PendingTasks = 0, ss_AgentVersion = [], ss_AgentUUID = []\<rparr> v"

definition statusTooltip :: "StatusSnapshot \<Rightarrow> string" where
  "statusTooltip s =
     (let status = strings_TrimSpace (ss_Service s);
          status = (if status = [] then ''unknown'' else status)
      in ''AppCenter Agent - '' @ status @ '' (pending: '' @ strconv_Itoa (ss_PendingTasks s) @ '')'')"

definition statusTitle :: "StatusSnapshot \<Rightarrow> string" where
  "statusTitle s = (if ss_Service s = ''running'' then ''AppCenter'' else ''AppCenter (offline)'')"

text \<open>The tray's own view of an app of the store.\<close>

record TrayApp =
  ta_ID :: int
  ta_DisplayName :: string
  ta_Version :: string
  ta_Description :: string
  ta_IconURL :: string
  ta_FileSizeMB :: int
  ta_Category :: string
  ta_Installed :: bool
  ta_InstalledVersion :: string
  ta_CanUninstall :: bool

definition zero_TrayApp :: TrayApp where
  "zero_TrayApp = \<lparr>ta_ID = 0, ta_DisplayName = [], ta_Version = [], ta_Description = [], ta_IconURL = [],
     ta_FileSizeMB = 0, ta_Category = [], ta_Installed = False, ta_InstalledVersion = [], ta_CanUninstall = False\<rparr>"

definition tray_app_fields :: "string list" where
  "tray_app_fields = [''id'', ''display_name'', ''version'', ''description'', ''icon_url'', ''file_size_mb'', ''category'',
     ''installed'', ''installed_version'', ''can_uninstall'']"

definition set_tray_app_field :: "string \<Rightarrow> json \<Rightarrow> TrayApp \<Rightarrow> TrayApp option" where
  "set_tray_app_field f v a =
     (if f = ''id'' then map_option (\<lambda>n. a\<lparr>ta_ID := n\<rparr>) (decode_int (ta_ID a) v)
      else if f = ''display_name'' then map_option (\<lambda>s. a\<lparr>ta_DisplayName := s\<rparr>) (decode_string (ta_DisplayName a) v)
      else if f = ''version'' then map_option (\<lambda>s. a\<lparr>ta_Version := s\<rparr>) (decode_string (ta_Version a) v)
      else if f = ''description'' then map_option (\<lambda>s. a\<lparr>ta_Description := s\<rparr>) (decode_string (ta_Description a) v)
      else if f = ''icon_url'' then map_option (\<lambda>s. a\<lparr>ta_IconURL := s\<rparr>) (decode_string (ta_IconURL a) v)
      else if f = ''file_size_mb'' then map_option (\<lambda>n. a\<lparr>ta_FileSizeMB := n\<rparr>) (decode_int (ta_FileSizeMB a) v)
      else if f = ''category'' then map_option (\<lambda>s. a\<lparr>ta_Category := s\<rparr>) (decode_string (ta_Category a) v)
      else if f = ''installed'' then map_option (\<lambda>b. a\<lparr>ta_Installed := b\<rparr>) (decode_bool (ta_Installed a) v)
      else if f = ''installed_version''
        then map_option (\<lambda>s. a\<lparr>ta_InstalledVersion := s\<rparr>) (decode_string (ta_InstalledVersion a) v)
      else if f = ''can_uninstall'' then map_option (\<lambda>b. a\<lparr>ta_CanUninstall := b\<rparr>) (decode_bool (ta_CanUninstall a) v)
      else Some a)"

definition decode_TrayApp :: "json \<Rightarrow> TrayApp option" where
  "decode_TrayApp v = decode_struct tray_app_fields set_tray_app_field zero_TrayApp v"

text \<open>\<open>StorePayload\<close>: only its apps.\<close>

definition decode_StorePayload :: "json \<Rightarrow> TrayApp list option" where
  "decode_StorePayload v = decode_struct [''apps''] (\<lambda>f x as. decode_slice decode_TrayApp x) [] v"

definition appLabel :: "TrayApp \<Rightarrow> string" where
  "appLabel app =
     (let installedMark = (if ta_Installed app then '' [installed]'' else []) in
      if ta_Version app = [] then strconv_Itoa (ta_ID app) @ '' - '' @ ta_DisplayName app @ installedMark
      else strconv_Itoa (ta_ID app) @ '' - '' @ ta_DisplayName app @ '' '' @ ta_Version app @ installedMark)"

subsection \<open>Health of the server\<close>

definition resolveConfigPathForTray :: "(string \<Rightarrow> string) \<Rightarrow> string" where
  "resolveConfigPathForTray getenv =
     (if getenv ''APPCENTER_CONFIG'' \<noteq> [] then getenv ''APPCENTER_CONFIG''
      else strings_Join [''C:'', ''ProgramData'', ''AppCenter'', ''config.yaml''] backslash)"

text \<open>What the tray meets: files and configuration, whether a URL parses, and the server within 3 seconds.\<close>

record health_env =
  hv_orc :: fs_oracle
  hv_unmarshal :: "string \<Rightarrow> goerr + Config"
  hv_host :: host_env
  hv_newRequest :: "string \<Rightarrow> goerr option"
  hv_do :: transport

definition CheckServerHealth :: "health_env \<Rightarrow> fs \<Rightarrow> bool \<times> string" where
  "CheckServerHealth env s =
     (case Load (hv_orc env) (hv_unmarshal env) (hv_host env)
             (resolveConfigPathForTray (he_getenv (hv_host env))) s of
        Inl err \<Rightarrow> (False, ''config load failed: '' @ error_Error err)
      | Inr cfg \<Rightarrow>
          (let base = strings_TrimRight (srv_URL (cfg_Server cfg)) ''/'' in
           if base = [] then (False, ''server.url is empty'')
           else case hv_newRequest env (base @ ''/health'') of
             Some err \<Rightarrow> (False, ''request build failed: '' @ error_Error err)
           | None \<Rightarrow>
               (case hv_do env \<lparr>rq_Method = ''GET'', rq_URL = base @ ''/health'', rq_Header = [], rq_Body = []\<rparr> of
                  Inl err \<Rightarrow> (False, ''request failed: '' @ error_Error err)
                | Inr resp \<Rightarrow>
                    if rs_StatusCode resp \<noteq> 200 then (False, ''health status='' @ rs_Status resp)
                    else (True, ''ok''))))"

subsection \<open>The notification area\<close>

datatype tray_effect =
    SetIcon string
  | SetTitle string
  | SetTooltip string
  | StoreLaunched string "string list"
  | TrayQuit

text \<open>The tray app: the state of the icon that is shown, and what it has shown.\<close>

record TrayState =
  tr_lastIconState :: string
  tr_shown :: "tray_effect list"

definition NewApp :: TrayState where
  "NewApp = \<lparr>tr_lastIconState = [], tr_shown = []\<rparr>"

definition tray_show :: "tray_effect list \<Rightarrow> TrayState \<Rightarrow> TrayState" where
  "tray_show es t = t\<lparr>tr_shown := tr_shown t @ es\<rparr>"

text \<open>The three icons, named after the functions that draw them.\<close>

definition icon_for :: "string \<Rightarrow> string" where
  "icon_for st = (if st = ''ok'' then ''connected'' else if st = ''server_down'' then ''disconnected'' else ''serviceDown'')"

definition setIconState :: "string \<Rightarrow> TrayState \<Rightarrow> TrayState" where
  "setIconState st t =
     (if tr_lastIconState t = st then t
      else tray_show [SetIcon (icon_for st)] (t\<lparr>tr_lastIconState := st\<rparr>))"

definition offline_title :: string where
  "offline_title = ''AppCenter ('' @ [CHR 0xC3, CHR 0xA7] @ ''evrimd'' @
     [CHR 0xC4, CHR 0xB1, CHR 0xC5, CHR 0x9F, CHR 0xC4, CHR 0xB1] @ '')''"

definition unreachable_text :: string where
  "unreachable_text = ''ula'' @ [CHR 0xC5, CHR 0x9F, CHR 0xC4, CHR 0xB1] @ ''lam'' @ [CHR 0xC4, CHR 0xB1] @ ''yor''"

definition offline_tooltip :: string where
  "offline_tooltip = ''AppCenter Agent - servise '' @ unreachable_text"

definition unreadable_tooltip :: string where
  "unreadable_tooltip = ''AppCenter Agent - durum okunamad'' @ [CHR 0xC4, CHR 0xB1]"

definition server_down_suffix :: string where
  "server_down_suffix = '' (sunucuya '' @ unreachable_text @ '')''"

text \<open>\<open>refreshStatus\<close>, given the answer of the service and the health of the server.\<close>

definition refreshStatus :: "goerr + IpcResponse \<Rightarrow> bool \<Rightarrow> TrayState \<Rightarrow> TrayState" where
  "refreshStatus answer serverOK t =
     (case (case answer of Inl err \<Rightarrow> None | Inr resp \<Rightarrow> if ip_Status resp \<noteq> ''ok'' then None else Some resp) of
        None \<Rightarrow> tray_show [SetTitle offline_title, SetTooltip offline_tooltip] (setIconState ''service_down'' t)
      | Some resp \<Rightarrow>
          (case decode_StatusSnapshot (json_Remarshal (ip_Data resp)) of
             None \<Rightarrow> tray_show [SetTooltip unreadable_tooltip] (setIconState ''service_down'' t)
           | Some s \<Rightarrow>
               tray_show [SetTitle (statusTitle s),
                   SetTooltip (statusTooltip s @ (if serverOK then [] else server_down_suffix))]
                 (setIconState (if serverOK then ''ok'' else ''server_down'') t)))"

text \<open>\<open>launchStoreWindowProcess\<close>: the path of the running program, the disk, and whether starting works.\<close>

definition launchStoreWindowProcess ::
    "fs_oracle \<Rightarrow> fs \<Rightarrow> goerr + string \<Rightarrow> (string \<Rightarrow> string list \<Rightarrow> goerr option) \<Rightarrow>
     goerr option \<times> tray_effect list" where
  "launchStoreWindowProcess orc s exe start =
     (case exe of
        Inl err \<Rightarrow> (Some err, [])
      | Inr exe \<Rightarrow>
          (let storeUI = filepath_Join (filepath_Dir exe) ''appcenter-store-ui.exe'';
               (prog, args) = (if os_Stat orc storeUI s = None then (storeUI, []) else (exe, [''open_store_legacy'']))
           in case start prog args of None \<Rightarrow> (None, [StoreLaunched prog args]) | Some err \<Rightarrow> (Some err, [])))"

text \<open>
  \<open>onReady\<close>, and the events it waits for: the ticker and the menu. After a click on quit the goroutine
  of the menu is gone, while the ticker goes on until the process ends.
\<close>

datatype tray_event =
    TrayTick "goerr + IpcResponse" bool
  | RefreshClicked "goerr + IpcResponse" bool
  | StoreClicked "tray_effect list"
  | QuitClicked

definition onReady :: "TrayState \<Rightarrow> TrayState" where
  "onReady t = tray_show [SetTitle ''AppCenter'', SetTooltip ''AppCenter Agent''] (setIconState ''service_down'' t)"

fun tray_event_step :: "tray_event \<Rightarrow> bool \<times> TrayState \<Rightarrow> bool \<times> TrayState" where
  "tray_event_step (TrayTick answer ok) (quit, t) = (quit, refreshStatus answer ok t)"
| "tray_event_step (RefreshClicked answer ok) (quit, t) = (quit, if quit then t else refreshStatus answer ok t)"
| "tray_event_step (StoreClicked launched) (quit, t) = (quit, if quit then t else tray_show launched t)"
| "tray_event_step QuitClicked (quit, t) = (True, if quit then t else tray_show [TrayQuit] t)"

definition tray_Run :: "tray_event list \<Rightarrow> bool \<times> TrayState" where
  "tray_Run evs = fold tray_event_step evs (False, onReady NewApp)"

subsection \<open>The store window\<close>

definition loadStoreApps :: "goerr + IpcResponse \<Rightarrow> goerr + TrayApp list" where
  "loadStoreApps answer =
     (case answer of
        Inl err \<Rightarrow> Inl err
      | Inr resp \<Rightarrow>
          if ip_Status resp \<noteq> ''ok''
          then Inl (GoErr (if ip_Message resp \<noteq> [] then ip_Message resp else ''bilinmeyen hata''))
          else case decode_StorePayload (json_Remarshal (ip_Data resp)) of
            None \<Rightarrow> Inl (GoErr ''json: cannot unmarshal'')
          | Some as \<Rightarrow> Inr as)"

definition readQueueStatus :: "json \<Rightarrow> string" where
  "readQueueStatus data =
     (case as_map data of
        None \<Rightarrow> []
      | Some m \<Rightarrow>
          (case jget m ''queue_status'' of
             None \<Rightarrow> []
           | Some v \<Rightarrow> (case as_string v of None \<Rightarrow> [] | Some s \<Rightarrow> strings_ToLower (strings_TrimSpace s))))"

definition store_search :: "string \<Rightarrow> TrayApp list \<Rightarrow> TrayApp list" where
  "store_search text as =
     (let q = strings_ToLower text in
      filter (\<lambda>a. q = [] \<or> strings_Contains (strings_ToLower (ta_DisplayName a)) q \<or>
        strings_Contains (strings_ToLower (ta_Description a)) q \<or>
        strings_Contains (strings_ToLower (ta_Category a)) q) as)"

text \<open>The button of a card: its text and whether it can be clicked; a message box when an install fails.\<close>

record store_button =
  sb_text :: string
  sb_enabled :: bool

definition check_mark :: string where "check_mark = [CHR 0xE2, CHR 0x9C, CHR 0x93]"

definition installed_text :: string where
  "installed_text = check_mark @ '' Y'' @ [CHR 0xC3, CHR 0xBC] @ ''kl'' @ [CHR 0xC3, CHR 0xBC]"

definition queued_text :: string where
  "queued_text = ''Kuyru'' @ [CHR 0xC4, CHR 0x9F] @ ''a al'' @ [CHR 0xC4, CHR 0xB1] @ ''nd'' @ [CHR 0xC4, CHR 0xB1] @
     '' '' @ check_mark"

definition install_failed_text :: "string \<Rightarrow> string \<Rightarrow> string" where
  "install_failed_text appName detail =
     appName @ '' kurulamad'' @ [CHR 0xC4, CHR 0xB1] @ '':'' @ [CHR 0x0A] @ detail"

definition card_button :: "TrayApp \<Rightarrow> store_button" where
  "card_button app =
     (if ta_Installed app then \<lparr>sb_text = installed_text, sb_enabled = False\<rparr>
      else \<lparr>sb_text = ''Kur'', sb_enabled = True\<rparr>)"

definition install_clicked :: "TrayApp \<Rightarrow> goerr + IpcResponse \<Rightarrow> store_button \<times> string option" where
  "install_clicked app answer =
     (let again = \<lparr>sb_text = ''Kur'', sb_enabled = True\<rparr> in
      case answer of
        Inl err \<Rightarrow> (again, Some (install_failed_text (ta_DisplayName app) (error_Error err)))
      | Inr resp \<Rightarrow>
          if ip_Status resp \<noteq> ''ok''
          then (again, Some (install_failed_text (ta_DisplayName app)
                  (if ip_Message resp \<noteq> [] then ip_Message resp else ''Bilinmeyen hata'')))
          else let queueStatus = readQueueStatus (ip_Data resp) in
            if queueStatus = ''already_installed'' then (\<lparr>sb_text = installed_text, sb_enabled = False\<rparr>, None)
            else if queueStatus = ''already_queued'' then (\<lparr>sb_text = ''Kuyrukta'', sb_enabled = False\<rparr>, None)
            else (\<lparr>sb_text = queued_text, sb_enabled = False\<rparr>, None))"

definition card_version :: "TrayApp \<Rightarrow> string" where
  "card_version app =
     (if ta_Installed app \<and> ta_InstalledVersion app \<noteq> [] \<and> ta_InstalledVersion app \<noteq> ta_Version app
      then ''v'' @ ta_InstalledVersion app @ '' '' @ [CHR 0xE2, CHR 0x86, CHR 0x92] @ '' '' @ ta_Version app
      else ''v'' @ ta_Version app)"

text \<open>The window's corner, from the work area (left, upper, right, bottom); the window is 460 by 600.\<close>

definition store_corner :: "int \<times> int \<times> int \<times> int \<Rightarrow> (int \<times> int) option" where
  "store_corner wa =
     (case wa of (left, upper, right, bottom) \<Rightarrow>
        if right > left \<and> bottom > upper
        then Some (max (right - 460 - 12) (left + 4), max (bottom - 600 - 12) (upper + 4))
        else None)"

subsection \<open>The command line\<close>

text \<open>
  \<open>cmd/tray\<close>: without arguments it is the tray, otherwise one action. The result is the JSON value
  printed, the line on standard error, and the exit code. An empty argument vector is a panic.
\<close>

record cli_env =
  ce_tray :: "goerr option"
  ce_store :: "goerr option"
  ce_native :: "goerr option"
  ce_health :: "bool \<times> string"
  ce_now :: string
  ce_send :: "IpcRequest \<Rightarrow> goerr + IpcResponse"

record cli_result =
  cr_out :: "json option"
  cr_err :: string
  cr_exit :: int

definition cli_failed :: "string \<Rightarrow> goerr \<Rightarrow> cli_result" where
  "cli_failed what err = \<lparr>cr_out = None, cr_err = what @ '' error: '' @ error_Error err, cr_exit = 1\<rparr>"

definition cli_ran :: "string \<Rightarrow> goerr option \<Rightarrow> cli_result" where
  "cli_ran what r = (case r of None \<Rightarrow> \<lparr>cr_out = None, cr_err = [], cr_exit = 0\<rparr> | Some err \<Rightarrow> cli_failed what err)"

definition cli_appID :: "string \<Rightarrow> string list \<Rightarrow> int" where
  "cli_appID action args =
     (if action = ''install_from_store'' \<and> length args > 2
      then case strconv_Atoi (args ! 2) of None \<Rightarrow> 0 | Some v \<Rightarrow> v
      else 0)"

definition cli_main :: "cli_env \<Rightarrow> string list \<Rightarrow> cli_result option" where
  "cli_main env args =
     (if length args = 1 then Some (cli_ran ''tray'' (ce_tray env))
      else if args = [] then None
      else Some (
        let action = strings_ToLower (args ! 1) in
        if action = ''open_store'' then cli_ran action (ce_store env)
        else if action = ''open_store_legacy'' then cli_ran action (ce_native env)
        else if action = ''check_server''
        then \<lparr>cr_out = Some (JObj [(''detail'', JStr (snd (ce_health env))),
                 (''server_reachable'', JBool (fst (ce_health env))), (''status'', JStr ''ok'')]),
              cr_err = [], cr_exit = (if fst (ce_health env) then 0 else 2)\<rparr>
        else case ce_send env (NewRequest (ce_now env) action (cli_appID action args)) of
          Inl err \<Rightarrow> cli_failed ''ipc'' err
        | Inr resp \<Rightarrow> \<lparr>cr_out = Some (encode_IpcResponse resp), cr_err = [],
              cr_exit = (if strings_ToLower (ip_Status resp) = ''error'' then 2 else 0)\<rparr>))"

subsection \<open>What the tray shows\<close>

lemma sort_key_sorted: "sorted (map f xs) \<Longrightarrow> sort_key f xs = xs"
  by (induction xs) (auto simp: insort_is_Cons)

lemma status_keys_sorted: "sorted [''agent_uuid'', ''agent_version'', ''pending_tasks'', ''service'', ''started_at'']"
  by code_simp

lemma status_decoded:
  assumes "int64_range (PendingCount q)"
  shows "decode_StatusSnapshot (json_Remarshal (ip_Data (ipc_get_status env cfg q))) =
    Some \<lparr>ss_Service = ''running'', ss_StartedAt = ie_startedAt env, ss_PendingTasks = PendingCount q,
      ss_AgentVersion = agt_Version (cfg_Agent cfg), ss_AgentUUID = agt_UUID (cfg_Agent cfg)\<rparr>"
proof -
  have "json_Remarshal (ip_Data (ipc_get_status env cfg q)) = ip_Data (ipc_get_status env cfg q)"
    using status_keys_sorted
    by (simp add: ipc_get_status_def jint_def sort_key_sorted del: sorted_wrt.simps sorted_simps)
  with assms show ?thesis
    by (simp add: ipc_get_status_def jint_def decode_StatusSnapshot_def decode_struct_def status_fields_def
        set_status_field_def)
qed

text \<open>When the pipe fails the tray says that the service is down.\<close>

lemma tray_shows_down:
  assumes "pp_dial p \<noteq> None \<or> pp_write p \<noteq> None \<or> isl (iw_first w (pp_reply p (wire_send w encode_IpcRequest req)))"
  shows "tr_lastIconState (refreshStatus (SendRequest w p req) serverOK t) = ''service_down'' \<and>
    (\<exists>shown. tr_shown (refreshStatus (SendRequest w p req) serverOK t) =
       shown @ [SetTitle offline_title, SetTooltip offline_tooltip])"
proof -
  have "isl (SendRequest w p req)"
    using assms by (auto simp: SendRequest_def wire_receive_def isl_def split: option.split)
  then show ?thesis
    by (auto simp: isl_def refreshStatus_def setIconState_def tray_show_def)
qed

text \<open>C15. Tray and service agree: while the service serves the pipe, a refresh gives the title of a running
  service and a tooltip with its number of pending tasks, and the icon says whether the server can be
  reached. Nothing else is shown, and the icon is set again only when it changes.\<close>

theorem tray_shows_service:
  assumes "int64_range (PendingCount q)"
    and "wire_ok w (encode_IpcRequest (NewRequest now ''get_status'' 0))"
    and "wire_ok w (encode_IpcResponse (ipc_get_status env cfg q))"
  shows "refreshStatus (SendRequest w (served_by w (buildIPCHandler env cfg q sm enabled)) (NewRequest now ''get_status'' 0))
      serverOK t =
    (let icon = if serverOK then ''ok'' else ''server_down'' in
     tray_show [SetTitle ''AppCenter'',
         SetTooltip (''AppCenter Agent - running (pending: '' @ strconv_Itoa (PendingCount q) @ '')'' @
           (if serverOK then [] else server_down_suffix))]
       (if tr_lastIconState t = icon then t
        else tray_show [SetIcon (icon_for icon)] (t\<lparr>tr_lastIconState := icon\<rparr>)))"
proof -
  let ?req = "NewRequest now ''get_status'' 0"
  have "strings_ToLower ''get_status'' = ''get_status''" by code_simp
  then have h: "fst (buildIPCHandler env cfg q sm enabled ?req) = ipc_get_status env cfg q"
    by (simp add: buildIPCHandler_def NewRequest_def)
  have "int64_range (iq_AppID ?req)" by (simp add: NewRequest_def int64_range_def)
  from ipc_exchange [OF this assms(2)] assms(3)
  have sent: "SendRequest w (served_by w (buildIPCHandler env cfg q sm enabled)) ?req = Inr (ipc_get_status env cfg q)"
    by (simp add: h)
  have "strings_TrimSpace ''running'' = ''running''" by code_simp
  then show "refreshStatus (SendRequest w (served_by w (buildIPCHandler env cfg q sm enabled)) ?req) serverOK t =
    (let icon = if serverOK then ''ok'' else ''server_down'' in
     tray_show [SetTitle ''AppCenter'',
         SetTooltip (''AppCenter Agent - running (pending: '' @ strconv_Itoa (PendingCount q) @ '')'' @
           (if serverOK then [] else server_down_suffix))]
       (if tr_lastIconState t = icon then t
        else tray_show [SetIcon (icon_for icon)] (t\<lparr>tr_lastIconState := icon\<rparr>)))"
    using status_decoded [OF assms(1), of env cfg] unfolding sent refreshStatus_def setIconState_def
    by (simp add: ipc_get_status_def statusTitle_def statusTooltip_def Let_def)
qed

theorem tray_shows_service_witness:
  "\<exists>w. refreshStatus (SendRequest w (served_by w sample_handler) (NewRequest ''now'' ''get_status'' 0)) False (onReady NewApp) =
     tray_show [SetTitle ''AppCenter'', SetTooltip (''AppCenter Agent - running (pending: 0)'' @ server_down_suffix)]
       (tray_show [SetIcon ''disconnected''] ((onReady NewApp)\<lparr>tr_lastIconState := ''server_down''\<rparr>))"
proof -
  let ?req = "NewRequest ''now'' ''get_status'' 0" and ?resp = "ipc_get_status sample_ipc Default (NewTaskQueue 3)"
  let ?w = "sample_wire [encode_IpcRequest ?req, encode_IpcResponse ?resp]"
  have zero: "strconv_Itoa 0 = ''0''" and pending: "PendingCount (NewTaskQueue 3) = 0"
    by (simp_all add: strconv_Itoa_def nat_Itoa.simps digit_char_def PendingCount_def NewTaskQueue_def)
  have start: "tr_lastIconState (onReady NewApp) = ''service_down''"
    by (simp add: onReady_def NewApp_def setIconState_def tray_show_def)
  show ?thesis
    using tray_shows_service [where now = "''now''" and q = "NewTaskQueue 3" and w = ?w and env = sample_ipc
        and cfg = Default and sm = "Some NewSessionManager" and enabled = "Some True" and serverOK = False
        and t = "onReady NewApp"]
    unfolding sample_handler_def
    by (intro exI [of _ ?w])
      (simp add: wire_ok_sample pending zero start int64_range_def icon_for_def)
qed

text \<open>
  The icon is always the one of the last refresh: the icon that is shown is that of the state on record,
  and no icon is set twice in a row.
\<close>

fun icons_of :: "tray_effect list \<Rightarrow> string list" where
  "icons_of [] = []"
| "icons_of (SetIcon i # es) = i # icons_of es"
| "icons_of (_ # es) = icons_of es"

definition icon_current :: "TrayState \<Rightarrow> bool" where
  "icon_current t \<longleftrightarrow> tr_lastIconState t \<in> {''service_down'', ''server_down'', ''ok''} \<and>
     icons_of (tr_shown t) \<noteq> [] \<and> last (icons_of (tr_shown t)) = icon_for (tr_lastIconState t) \<and>
     distinct_adj (icons_of (tr_shown t))"

lemma icons_of_append [simp]: "icons_of (es @ es') = icons_of es @ icons_of es'"
  by (induction es rule: icons_of.induct) auto

lemma icon_current_show: "icons_of es = [] \<Longrightarrow> icon_current (tray_show es t) \<longleftrightarrow> icon_current t"
  by (simp add: icon_current_def tray_show_def)

lemma icon_current_set:
  assumes "icon_current t" and "st \<in> {''service_down'', ''server_down'', ''ok''}"
  shows "icon_current (setIconState st t)"
  using assms by (auto simp: icon_current_def setIconState_def tray_show_def icon_for_def distinct_adj_append_iff)

lemma icon_current_refresh: "icon_current t \<Longrightarrow> icon_current (refreshStatus answer ok t)"
  by (auto simp: refreshStatus_def icon_current_show icon_current_set split: option.split)

lemma tray_icon_current:
  assumes "\<And>es. StoreClicked es \<in> set evs \<Longrightarrow> icons_of es = []"
  shows "icon_current (snd (tray_Run evs))"
proof -
  have "icon_current (snd (fold tray_event_step evs (quit, t)))" if "icon_current t" for quit t
    using that assms
  proof (induction evs arbitrary: quit t)
    case (Cons e evs)
    from Cons.prems have "icon_current (snd (tray_event_step e (quit, t)))"
      by (cases e) (auto simp: icon_current_show icon_current_refresh)
    with Cons.IH [of "snd (tray_event_step e (quit, t))" "fst (tray_event_step e (quit, t))"] Cons.prems(2)
    show ?case by simp
  qed simp
  moreover have "icon_current (onReady NewApp)"
    by (simp add: icon_current_def onReady_def NewApp_def setIconState_def tray_show_def)
  ultimately show ?thesis by (simp add: tray_Run_def)
qed

text \<open>
  The command line tells apart by its exit code what a script has to know: an action the service
  answers with an error ends with 2, a pipe that cannot be reached with 1.
\<close>

lemma cli_exit_codes:
  assumes "action \<notin> {''open_store'', ''open_store_legacy'', ''check_server''}" and "strings_ToLower a = action"
    and "cli_main env (prog # a # args) = Some r"
  shows "cr_exit r = (case ce_send env (NewRequest (ce_now env) action (cli_appID action (prog # a # args))) of
      Inl err \<Rightarrow> 1 | Inr resp \<Rightarrow> if strings_ToLower (ip_Status resp) = ''error'' then 2 else 0)"
  using assms by (auto simp: cli_main_def Let_def cli_failed_def split: sum.splits)

end
