(* ===== verification/Base64.thy ===== *)
theory Base64
  imports Main
begin

section \<open>Base64 (\<open>encoding/base64\<close>, \<open>StdEncoding\<close>)\<close>

text \<open>
  The encoding of bytes that the legacy store window puts into its script, and the decoding that
  PowerShell does there. Three bytes are four characters of an alphabet of 64; the last group is
  filled up with equals signs.
\<close>

definition b64_alphabet :: string where
  "b64_alphabet = ''ABCDEFGHIJKLMNOPQRSTUVWXYZabcdefghijklmnopqrstuvwxyz0123456789+/''"

definition b64_char :: "nat \<Rightarrow> char" where
  "b64_char n = b64_alphabet ! n"

definition byte :: "char \<Rightarrow> nat" where
  "byte c = of_char c"

fun b64_encode :: "string \<Rightarrow> string" where
  "b64_encode [] = []"
| "b64_encode [a] =
     (let n = byte a * 16 in [b64_char (n div 64), b64_char (n mod 64), CHR ''='', CHR ''=''])"
| "b64_encode [a, b] =
     (let n = (byte a * 256 + byte b) * 4
      in [b64_char (n div 4096), b64_char (n div 64 mod 64), b64_char (n mod 64), CHR ''=''])"
| "b64_encode (a # b # c # s) =
     (let n = byte a * 65536 + byte b * 256 + byte c
      in b64_char (n div 262144) # b64_char (n div 4096 mod 64) # b64_char (n div 64 mod 64) # b64_char (n mod 64) #
         b64_encode s)"

subsection \<open>Decoding\<close>

fun index_of :: "char \<Rightarrow> string \<Rightarrow> nat option" where
  "index_of c [] = None"
| "index_of c (d # s) = (if c = d then Some 0 else map_option Suc (index_of c s))"

definition b64_val :: "char \<Rightarrow> nat option" where
  "b64_val c = index_of c b64_alphabet"

definition b64_vals :: "string \<Rightarrow> nat option" where
  "b64_vals s = fold (\<lambda>c acc. case (acc, b64_val c) of (Some n, Some v) \<Rightarrow> Some (n * 64 + v) | _ \<Rightarrow> None) s (Some 0)"

definition unbyte :: "nat \<Rightarrow> char" where
  "unbyte n = char_of (n mod 256)"

text \<open>Padding ends the text; anything that is not a sequence of whole groups is an error.\<close>

fun b64_decode :: "string \<Rightarrow> string option" where
  "b64_decode [] = Some []"
| "b64_decode (w # x # y # z # s) =
     (if z = CHR ''='' then
        (if s \<noteq> [] then None
         else if y = CHR ''='' then map_option (\<lambda>n. [unbyte (n div 16)]) (b64_vals [w, x])
         else map_option (\<lambda>n. [unbyte (n div 1024), unbyte (n div 4)]) (b64_vals [w, x, y]))
      else
        (case (b64_vals [w, x, y, z], b64_decode s) of
           (Some n, Some t) \<Rightarrow> Some (unbyte (n div 65536) # unbyte (n div 256) # unbyte n # t)
         | _ \<Rightarrow> None))"
| "b64_decode _ = None"

subsection \<open>Round trip\<close>

lemma b64_table: "list_all (\<lambda>n. b64_val (b64_char n) = Some n \<and> b64_char n \<noteq> CHR ''='') [0..<64]"
  by code_simp

lemma b64_val_char [simp]: "n < 64 \<Longrightarrow> b64_val (b64_char n) = Some n"
  and b64_char_pad [simp]: "n < 64 \<Longrightarrow> b64_char n \<noteq> CHR ''=''"
  using b64_table by (auto simp: list_all_iff)

lemma byte_bound [simp]: "byte c < 256"
  by (simp add: byte_def)

lemma unbyte_byte [simp]: "unbyte (byte c) = c"
  by (simp add: unbyte_def byte_def)

lemma unbyte_add [simp]: "unbyte (256 * m + byte c) = c" "unbyte (m * 256 + byte c) = c"
  by (simp_all add: unbyte_def byte_def)

lemma b64_vals_chars:
  "m < 64 \<Longrightarrow> n < 64 \<Longrightarrow> b64_vals [b64_char m, b64_char n] = Some (m * 64 + n)"
  "k < 64 \<Longrightarrow> m < 64 \<Longrightarrow> n < 64 \<Longrightarrow> b64_vals [b64_char k, b64_char m, b64_char n] = Some ((k * 64 + m) * 64 + n)"
  "j < 64 \<Longrightarrow> k < 64 \<Longrightarrow> m < 64 \<Longrightarrow> n < 64 \<Longrightarrow>
     b64_vals [b64_char j, b64_char k, b64_char m, b64_char n] = Some (((j * 64 + k) * 64 + m) * 64 + n)"
  by (simp_all add: b64_vals_def)

lemma digits64:
  fixes n :: nat
  shows "n div 64 * 64 + n mod 64 = n"
    and "(n div 4096 * 64 + n div 64 mod 64) * 64 + n mod 64 = n"
    and "((n div 262144 * 64 + n div 4096 mod 64) * 64 + n div 64 mod 64) * 64 + n mod 64 = n"
proof -
  have step: "m div 64 * 64 + m mod 64 = m" for m :: nat by simp
  have a: "n div 4096 = n div 64 div 64" "n div 262144 = n div 4096 div 64" by (simp_all add: div_mult2_eq [symmetric])
  show "n div 64 * 64 + n mod 64 = n" by (rule step)
  show two: "(n div 4096 * 64 + n div 64 mod 64) * 64 + n mod 64 = n"
    by (simp only: a(1) step)
  show "((n div 262144 * 64 + n div 4096 mod 64) * 64 + n div 64 mod 64) * 64 + n mod 64 = n"
    by (simp only: a(2) step two)
qed

text \<open>What the characters of one group stand for, and the bytes that are cut out of it.\<close>

lemma b64_vals_group:
  "n < 4096 \<Longrightarrow> b64_vals [b64_char (n div 64), b64_char (n mod 64)] = Some n"
  "n < 262144 \<Longrightarrow> b64_vals [b64_char (n div 4096), b64_char (n div 64 mod 64), b64_char (n mod 64)] = Some n"
  "n < 16777216 \<Longrightarrow>
     b64_vals [b64_char (n div 262144), b64_char (n div 4096 mod 64), b64_char (n div 64 mod 64), b64_char (n mod 64)] = Some n"
proof -
  have m: "m mod 64 < 64" for m :: nat by simp
  show "b64_vals [b64_char (n div 64), b64_char (n mod 64)] = Some n" if "n < 4096"
  proof -
    from that have d: "n div 64 < 64" by (simp add: less_mult_imp_div_less)
    show ?thesis by (simp only: b64_vals_chars(1) [OF d m] digits64)
  qed
  show "b64_vals [b64_char (n div 4096), b64_char (n div 64 mod 64), b64_char (n mod 64)] = Some n" if "n < 262144"
  proof -
    from that have d: "n div 4096 < 64" by (simp add: less_mult_imp_div_less)
    show ?thesis by (simp only: b64_vals_chars(2) [OF d m m] digits64)
  qed
  show "b64_vals [b64_char (n div 262144), b64_char (n div 4096 mod 64), b64_char (n div 64 mod 64), b64_char (n mod 64)] =
      Some n" if "n < 16777216"
  proof -
    from that have d: "n div 262144 < 64" by (simp add: less_mult_imp_div_less)
    show ?thesis by (simp only: b64_vals_chars(3) [OF d m m m] digits64)
  qed
qed

lemma byte_split: "(m * 256 + byte c) div 256 = m"
  using byte_bound [of c] by (simp add: div_add1_eq)

lemma three_bytes:
  fixes a b c :: char
  defines "n \<equiv> byte a * 65536 + byte b * 256 + byte c"
  shows "n < 16777216" and "unbyte (n div 65536) = a" and "unbyte (n div 256) = b" and "unbyte n = c"
proof -
  have n: "n = (byte a * 256 + byte b) * 256 + byte c" by (simp add: n_def)
  have d: "n div 256 = byte a * 256 + byte b" unfolding n by (rule byte_split)
  have e: "n div 65536 = byte a"
    using byte_split [of "byte a" b] by (simp only: d [symmetric] div_mult2_eq [symmetric]) simp
  show "unbyte (n div 65536) = a" "unbyte (n div 256) = b" by (simp_all only: d e unbyte_add unbyte_byte)
  show "unbyte n = c" unfolding n by (rule unbyte_add)
  have "byte a \<le> 255" "byte b \<le> 255" "byte c \<le> 255"
    using byte_bound [of a] byte_bound [of b] byte_bound [of c] by linarith+
  then show "n < 16777216" unfolding n_def by linarith
qed

lemma two_bytes:
  fixes a b :: char
  defines "n \<equiv> (byte a * 256 + byte b) * 4"
  shows "n < 262144" and "unbyte (n div 1024) = a" and "unbyte (n div 4) = b"
proof -
  have d: "n div 4 = byte a * 256 + byte b" by (simp add: n_def)
  have e: "n div 1024 = byte a"
    using byte_split [of "byte a" b] by (simp only: d [symmetric] div_mult2_eq [symmetric]) simp
  show "unbyte (n div 1024) = a" "unbyte (n div 4) = b" by (simp_all only: d e unbyte_add unbyte_byte)
  have "byte a \<le> 255" "byte b \<le> 255"
    using byte_bound [of a] byte_bound [of b] by linarith+
  moreover have "n = byte a * 1024 + byte b * 4" by (simp add: n_def)
  ultimately show "n < 262144" by linarith
qed

theorem b64_roundtrip: "b64_decode (b64_encode s) = Some s"
proof (induction s rule: b64_encode.induct)
  case (2 a)
  define n where "n = byte a * 16"
  have "n < 4096" "n div 16 = byte a" using byte_bound [of a] by (simp_all add: n_def del: byte_bound)
  then show ?case
    by (simp add: n_def [symmetric] Let_def b64_vals_group)
next
  case (3 a b)
  define n where "n = (byte a * 256 + byte b) * 4"
  have "n < 262144" "unbyte (n div 1024) = a" "unbyte (n div 4) = b"
    unfolding n_def by (rule two_bytes)+
  moreover have "b64_encode [a, b] = [b64_char (n div 4096), b64_char (n div 64 mod 64), b64_char (n mod 64), CHR ''='']"
    by (simp only: n_def b64_encode.simps Let_def)
  ultimately show ?case
    by (simp add: b64_vals_group div_less_iff_less_mult del: b64_encode.simps)
next
  case (4 a b c s)
  define n where "n = byte a * 65536 + byte b * 256 + byte c"
  have "n < 16777216" "unbyte (n div 65536) = a" "unbyte (n div 256) = b" "unbyte n = c"
    unfolding n_def by (rule three_bytes)+
  with 4 show ?case
    by (simp add: n_def [symmetric] Let_def b64_vals_group div_less_iff_less_mult)
qed simp

text \<open>The text of the encoding is made of characters of the alphabet and equals signs only.\<close>

lemma b64_encode_chars: "set (b64_encode s) \<subseteq> insert (CHR ''='') (set b64_alphabet)"
proof -
  have c: "b64_char n \<in> set b64_alphabet" if "n < 64" for n
    unfolding b64_char_def by (rule nth_mem) (use that in \<open>simp add: b64_alphabet_def\<close>)
  show ?thesis
  proof (induction s rule: b64_encode.induct)
    case (2 a)
    define n where "n = byte a * 16"
    have "n < 4096" using byte_bound [of a] by (simp add: n_def del: byte_bound)
    then show ?case by (simp add: n_def [symmetric] Let_def c div_less_iff_less_mult)
  next
    case (3 a b)
    define n where "n = (byte a * 256 + byte b) * 4"
    have "n < 262144" unfolding n_def by (rule two_bytes)
    moreover have "b64_encode [a, b] = [b64_char (n div 4096), b64_char (n div 64 mod 64), b64_char (n mod 64), CHR ''='']"
      by (simp only: n_def b64_encode.simps Let_def)
    ultimately show ?case by (simp add: c div_less_iff_less_mult del: b64_encode.simps)
  next
    case (4 a b c' s)
    define n where "n = byte a * 65536 + byte b * 256 + byte c'"
    have "n < 16777216" unfolding n_def by (rule three_bytes)
    with 4 show ?case by (simp add: n_def [symmetric] Let_def c div_less_iff_less_mult)
  qed simp
qed

end
