(* ===== verification/StoreNative.thy ===== *)
theory StoreNative
  imports Tray RemoteHelper Base64
begin

section \<open>The legacy store window (\<open>internal/tray/store_native_windows.go\<close>)\<close>

text \<open>
  \<open>open_store_legacy\<close> asks the command line of the tray for the store, writes a PowerShell script that
  shows it, and runs the script. What comes from outside, the apps and the path of the command line,
  goes into the script as base64 in single quotes. The script is the text of the code, byte by byte; of
  what PowerShell does with it only the reading of the two literals is modelled.
\<close>

subsection \<open>The answer of the command line\<close>

text \<open>The apps of the answer; a slice that is \<open>nil\<close> is told from an empty one, since it is written as \<open>null\<close>.\<close>

record ipcStoreResponse =
  isr_Status :: string
  isr_Message :: string
  isr_Apps :: "TrayApp list option"

definition decode_apps :: "json \<Rightarrow> TrayApp list option option" where
  "decode_apps v = (case v of JNull \<Rightarrow> Some None | _ \<Rightarrow> map_option Some (decode_slice decode_TrayApp v))"

definition set_store_response_field :: "string \<Rightarrow> json \<Rightarrow> ipcStoreResponse \<Rightarrow> ipcStoreResponse option" where
  "set_store_response_field f v r =
     (if f = ''status'' then map_option (\<lambda>s. r\<lparr>isr_Status := s\<rparr>) (decode_string (isr_Status r) v)
      else if f = ''message'' then map_option (\<lambda>s. r\<lparr>isr_Message := s\<rparr>) (decode_string (isr_Message r) v)
      else if f = ''data'' then map_option (\<lambda>as. r\<lparr>isr_Apps := as\<rparr>)
        (decode_struct [''apps''] (\<lambda>_ x _. decode_apps x) (isr_Apps r) v)
      else Some r)"

definition decode_ipcStoreResponse :: "json \<Rightarrow> ipcStoreResponse option" where
  "decode_ipcStoreResponse v = decode_struct [''status'', ''message'', ''data''] set_store_response_field
     \<lparr>isr_Status = [], isr_Message = [], isr_Apps = None\<rparr> v"

definition encode_TrayApp :: "TrayApp \<Rightarrow> json" where
  "encode_TrayApp a = JObj
     [(''id'', jint (ta_ID a)), (''display_name'', JStr (ta_DisplayName a)), (''version'', JStr (ta_Version a)),
      (''description'', JStr (ta_Description a)), (''icon_url'', JStr (ta_IconURL a)),
      (''file_size_mb'', jint (ta_FileSizeMB a)), (''category'', JStr (ta_Category a)),
      (''installed'', JBool (ta_Installed a)), (''installed_version'', JStr (ta_InstalledVersion a)),
      (''can_uninstall'', JBool (ta_CanUninstall a))]"

definition encode_apps :: "TrayApp list option \<Rightarrow> json" where
  "encode_apps as = (case as of None \<Rightarrow> JNull | Some as \<Rightarrow> JArr (map encode_TrayApp as))"

subsection \<open>The script\<close>

definition script_lines :: "string list \<Rightarrow> string" where
  "script_lines ls = concat (map (\<lambda>l. l @ [CHR 0x0A]) ls)"

definition store_script_head :: string where
  "store_script_head = script_lines [
     ''$ErrorActionPreference='Stop'' @ [CHR 0x27],
     ''if (-not [Environment]::UserInteractive) { throw 'Store UI requires interactive user session (RDP/Console).' }'',
     ''Add-Type -AssemblyName System.Windows.Forms'',
     ''Add-Type -AssemblyName System.Drawing'']"

definition store_script_ui :: string where
  "store_script_ui = script_lines [
     ''$form = New-Object System.Windows.Forms.Form'',
     ''$form.Text = 'AppCenter Store'' @ [CHR 0x27],
     ''$form.StartPosition = 'CenterScreen'' @ [CHR 0x27],
     ''$form.Size = New-Object System.Drawing.Size(780,560)'',
     ''$form.TopMost = $true'',
     ''$txt = New-Object System.Windows.Forms.TextBox'',
     ''$txt.Location = New-Object System.Drawing.Point(10,10)'',
     ''$txt.Size = New-Object System.Drawing.Size(620,24)'',
     ''$btnInstall = New-Object System.Windows.Forms.Button'',
     ''$btnInstall.Text = 'Kur'' @ [CHR 0x27],
     ''$btnInstall.Location = New-Object System.Drawing.Point(640,9)'',
     ''$btnInstall.Size = New-Object System.Drawing.Size(120,26)'',
     ''$grid = New-Object System.Windows.Forms.DataGridView'',
     ''$grid.Location = New-Object System.Drawing.Point(10,42)'',
     ''$grid.Size = New-Object System.Drawing.Size(750,470)'',
     ''$grid.ReadOnly = $true'',
     ''$grid.SelectionMode = 'FullRowSelect'' @ [CHR 0x27],
     ''$grid.MultiSelect = $false'',
     ''$grid.AutoGenerateColumns = $false'',
     ''$grid.AllowUserToAddRows = $false'',
     ''$grid.AllowUserToDeleteRows = $false'',
     ''$grid.RowHeadersVisible = $false'',
     ''$binding = New-Object System.Windows.Forms.BindingSource'',
     ''$allRows = New-Object System.Collections.ArrayList'',
     ''foreach ($a in $apps) {'',
     ''  [void]$allRows.Add([PSCustomObject]@'' @
     ''{id=$a.id; name=$a.display_name; version=$a.version; installed=([bool]$a.installed); category=$a.category; desc=$a.description; size_mb=$a.file_size_mb})'',
     ''}'',
     ''$cols = @('',
     ''  @'' @ ''{Name='ID'; DataPropertyName='id'; Width=60},'',
     ''  @'' @ ''{Name='Uygulama'; DataPropertyName='name'; Width=220},'',
     ''  @'' @ ''{Name='Versiyon'; DataPropertyName='version'; Width=90},'',
     ''  @'' @ ''{Name='Y'' @ [CHR 0xC3, CHR 0xBC] @ ''kl'' @ [CHR 0xC3, CHR 0xBC] @ [CHR 0x27] @
     ''; DataPropertyName='installed'; Width=70},'',
     ''  @'' @ ''{Name='Kategori'; DataPropertyName='category'; Width=120},'',
     ''  @'' @ ''{Name='Boyut(MB)'; DataPropertyName='size_mb'; Width=85},'',
     ''  @'' @ ''{Name='A'' @ [CHR 0xC3, CHR 0xA7, CHR 0xC4, CHR 0xB1] @
     ''klama'; DataPropertyName='desc'; Width=200}'',
     '')'',
     ''foreach ($c in $cols) { $col = New-Object System.Windows.Forms.DataGridViewTextBoxColumn; $col.Name=$c.Name; $col.DataPropertyName=$c.DataPropertyName; $col.Width=$c.Width; [void]$grid.Columns.Add($col) }'',
     ''function Apply-Filter {'',
     ''  $q = ($txt.Text | ForEach-Object { $_.ToLowerInvariant() })'',
     ''  $rows = New-Object System.Collections.ArrayList'',
     ''  foreach($r in $allRows){'',
     ''    if([string]::IsNullOrWhiteSpace($q) -or ($r.name -as [string]).ToLowerInvariant().Contains($q) -or ($r.desc -as [string]).ToLowerInvariant().Contains($q) -or ($r.category -as [string]).ToLowerInvariant().Contains($q)){ [void]$rows.Add($r) }'',
     ''  }'',
     ''  $binding.DataSource = $rows'',
     ''  $grid.DataSource = $binding'',
     ''}'',
     ''$txt.Add_TextChanged({ Apply-Filter })'',
     ''$btnInstall.Add_Click({'',
     ''  if ($grid.SelectedRows.Count -eq 0) { [System.Windows.Forms.MessageBox]::Show('' @
     [CHR 0x27, CHR 0xC3, CHR 0x96] @ ''nce bir uygulama se'' @ [CHR 0xC3, CHR 0xA7] @
     ''in.','AppCenter Store',[System.Windows.Forms.MessageBoxButtons]::OK,[System.Windows.Forms.MessageBoxIcon]::Information) | Out-Null; return }'',
     ''  $row = $grid.SelectedRows[0].DataBoundItem'',
     ''  if ($null -eq $row) { return }'',
     ''  $id = [int]$row.id'',
     ''  $name = [string]$row.name'',
     ''  $out = & $cli install_from_store $id 2>&1 | Out-String'',
     ''  [System.Windows.Forms.MessageBox]::Show(($name + '' @ [CHR 0x22, CHR 0x5C] @ ''n'' @ [CHR 0x5C] @ ''n'' @
     [CHR 0x22] @ '' + $out),'Kurulum '' @ [CHR 0xC4, CHR 0xB0] @ ''ste'' @ [CHR 0xC4, CHR 0x9F] @
     ''i',[System.Windows.Forms.MessageBoxButtons]::OK,[System.Windows.Forms.MessageBoxIcon]::Information) | Out-Null'',
     ''})'',
     ''$form.Controls.Add($txt)'',
     ''$form.Controls.Add($btnInstall)'',
     ''$form.Controls.Add($grid)'',
     ''$form.Add_Shown({ $form.Activate() })'',
     ''Apply-Filter'',
     ''[void]$form.ShowDialog()'']"

definition from_base64 :: string where
  "from_base64 = ''[System.Text.Encoding]::UTF8.GetString([System.Convert]::FromBase64String(''"

definition store_script :: "string \<Rightarrow> string \<Rightarrow> string" where
  "store_script appsJSON cliPath =
     store_script_head @
     ''$apps = '' @ from_base64 @ quote_char # b64_encode appsJSON @ quote_char # '')) | ConvertFrom-Json'' @ [CHR 0x0A] @
     ''$cli  = '' @ from_base64 @ quote_char # b64_encode cliPath @ quote_char # ''))'' @ [CHR 0x0A] @
     store_script_ui"

subsection \<open>Opening the window\<close>

text \<open>
  \<open>nv_run\<close> is \<open>CombinedOutput\<close> of a program with its arguments; \<open>nv_sprintf\<close> is what \<open>fmt\<close> makes of a
  format without arguments that has a percent sign in it.
\<close>

record native_env =
  nv_exe :: "goerr + string"
  nv_orc :: fs_oracle
  nv_run :: "string \<Rightarrow> string list \<Rightarrow> string \<times> goerr option"
  nv_unmarshal :: "string \<Rightarrow> goerr + json"
  nv_marshal :: "json \<Rightarrow> string"
  nv_tempDir :: string
  nv_sprintf :: "string \<Rightarrow> string"

definition fmt_Errorf :: "(string \<Rightarrow> string) \<Rightarrow> string \<Rightarrow> goerr" where
  "fmt_Errorf sprintf msg = GoErr (if CHR ''%'' \<in> set msg then sprintf msg else msg)"

definition run_failed :: "string \<Rightarrow> goerr \<Rightarrow> string \<Rightarrow> goerr" where
  "run_failed what err out = GoErr (what @ '' failed: '' @ error_Error err @ '' ('' @ out @ '')'')"

definition native_cliPath :: "native_env \<Rightarrow> string \<Rightarrow> fs \<Rightarrow> string" where
  "native_cliPath env exePath s =
     (let cli = filepath_Join (filepath_Dir exePath) ''appcenter-tray-cli.exe''
      in if os_Stat (nv_orc env) cli s \<noteq> None then exePath else cli)"

definition native_psPath :: "native_env \<Rightarrow> string" where
  "native_psPath env = filepath_Join (nv_tempDir env) ''appcenter-store-native.ps1''"

definition powershell_args :: "string \<Rightarrow> string list" where
  "powershell_args psPath = [''-NoProfile'', ''-STA'', ''-ExecutionPolicy'', ''Bypass'', ''-File'', psPath]"

text \<open>The store the command line prints, checked.\<close>

definition native_store :: "native_env \<Rightarrow> string \<Rightarrow> goerr + TrayApp list option" where
  "native_store env cliPath =
     (case nv_run env cliPath [''get_store''] of
        (out, Some err) \<Rightarrow> Inl (run_failed ''get_store'' err out)
      | (out, None) \<Rightarrow>
          (case nv_unmarshal env out of
             Inl err \<Rightarrow> Inl (GoWrap ''invalid store response'' err)
           | Inr v \<Rightarrow>
               (case decode_ipcStoreResponse v of
                  None \<Rightarrow> Inl (GoWrap ''invalid store response'' (GoErr ''json: cannot unmarshal''))
                | Some resp \<Rightarrow>
                    if isr_Status resp \<noteq> ''ok''
                    then Inl (fmt_Errorf (nv_sprintf env)
                      (if isr_Message resp = [] then ''store unavailable'' else isr_Message resp))
                    else Inr (isr_Apps resp))))"

text \<open>The result, the programs that were run, and the disk.\<close>

definition OpenStoreNativeUIStandalone ::
    "native_env \<Rightarrow> fs \<Rightarrow> goerr option \<times> (string \<times> string list) list \<times> fs" where
  "OpenStoreNativeUIStandalone env s =
     (case nv_exe env of
        Inl err \<Rightarrow> (Some err, [], s)
      | Inr exePath \<Rightarrow>
          let cliPath = native_cliPath env exePath s; asked = (cliPath, [''get_store'']) in
          case native_store env cliPath of
            Inl err \<Rightarrow> (Some err, [asked], s)
          | Inr apps \<Rightarrow>
              let psPath = native_psPath env in
              (case os_WriteFile (nv_orc env) psPath (store_script (nv_marshal env (encode_apps apps)) cliPath) s of
                 (Some err, s') \<Rightarrow> (Some err, [asked], s')
               | (None, s') \<Rightarrow>
                   let shown = (''powershell.exe'', powershell_args psPath) in
                   (case nv_run env (fst shown) (snd shown) of
                      (out, Some err) \<Rightarrow> (Some (run_failed ''native store ui'' err out), [asked, shown], s')
                    | (out, None) \<Rightarrow> (None, [asked, shown], s'))))"

subsection \<open>What the script is given\<close>

text \<open>
  The two assignments at the head of the script, read the way PowerShell reads a single-quoted literal
  and decoded: the text of the apps and the path of the command line.
\<close>

definition strip :: "string \<Rightarrow> string \<Rightarrow> string option" where
  "strip p s = (if take (length p) s = p then Some (drop (length p) s) else None)"

definition read_base64 :: "string \<Rightarrow> string \<Rightarrow> (string \<times> string) option" where
  "read_base64 var s =
     (case strip (var @ from_base64 @ [quote_char]) s of
        None \<Rightarrow> None
      | Some s \<Rightarrow>
          (case ps_literal s of
             None \<Rightarrow> None
           | Some (l, rest) \<Rightarrow> map_option (\<lambda>v. (v, rest)) (b64_decode l)))"

definition script_data :: "string \<Rightarrow> (string \<times> string) option" where
  "script_data s =
     (case strip store_script_head s of
        None \<Rightarrow> None
      | Some s \<Rightarrow>
          (case read_base64 ''$apps = '' s of
             None \<Rightarrow> None
           | Some (apps, s) \<Rightarrow>
               (case strip ('')) | ConvertFrom-Json'' @ [CHR 0x0A]) s of
                  None \<Rightarrow> None
                | Some s \<Rightarrow> map_option (\<lambda>(cli, rest). (apps, cli)) (read_base64 ''$cli  = '' s))))"

lemma strip_append [simp]: "strip p (p @ s) = Some s"
  by (simp add: strip_def)

lemma strip_append2: "strip (p @ q) (p @ q @ s) = Some s"
  using strip_append [of "p @ q" s] by simp

lemma b64_unquoted: "psSingleQuote (b64_encode s) = b64_encode s" "CHR 0xE2 \<notin> set (b64_encode s)"
proof -
  have plain: "quote_char \<notin> set (b64_encode s)" "CHR 0xE2 \<notin> set (b64_encode s)"
    using b64_encode_chars [of s] by (auto simp: b64_alphabet_def quote_char_def)
  then show "CHR 0xE2 \<notin> set (b64_encode s)" by simp
  have "psSingleQuote t = t" if "quote_char \<notin> set t" for t
    using that by (induction t) (auto simp: psSingleQuote_def)
  with plain show "psSingleQuote (b64_encode s) = b64_encode s" by simp
qed

lemma read_base64_encoded:
  assumes "ps_quote rest = None"
  shows "read_base64 var (var @ from_base64 @ quote_char # b64_encode s @ quote_char # rest) = Some (s, rest)"
proof -
  have "strip (var @ from_base64 @ [quote_char]) (var @ from_base64 @ quote_char # b64_encode s @ quote_char # rest) =
      Some (b64_encode s @ quote_char # rest)"
    using strip_append [of "var @ from_base64 @ [quote_char]"] by simp
  moreover have "ps_literal (b64_encode s @ quote_char # rest) = Some (b64_encode s, rest)"
    using psSingleQuote_read [OF b64_unquoted(2) assms, of s] by (simp add: b64_unquoted(1))
  ultimately show ?thesis by (simp add: read_base64_def b64_roundtrip)
qed

text \<open>Nothing the server or the installation path contains can get out of the legacy store's script:
  whatever the JSON of the apps and the path of the command line are, the script's two literals are
  read by PowerShell and decoded as exactly these two texts.\<close>

lemma script_data_written: "script_data (store_script appsJSON cliPath) = Some (appsJSON, cliPath)"
proof -
  have q: "ps_quote ('')) | ConvertFrom-Json'' @ t) = None" "ps_quote (''))'' @ t) = None" for t
    by (simp_all add: ps_quote_def quote_char_def)
  show ?thesis
    unfolding script_data_def store_script_def
    by (simp only: strip_append strip_append2 option.case prod.case read_base64_encoded [OF q(1)]
        read_base64_encoded [OF q(2)] option.map)
qed

text \<open>What the command line prints for the store of the service is read as the same apps, in order.\<close>

definition tray_view :: "StoreApp \<Rightarrow> TrayApp" where
  "tray_view a = \<lparr>ta_ID = sa_ID a, ta_DisplayName = sa_DisplayName a, ta_Version = sa_Version a,
     ta_Description = sa_Description a, ta_IconURL = sa_IconURL a, ta_FileSizeMB = sa_FileSizeMB a,
     ta_Category = sa_Category a, ta_Installed = sa_Installed a, ta_InstalledVersion = sa_InstalledVersion a,
     ta_CanUninstall = sa_CanUninstall a\<rparr>"

definition store_app_ok :: "StoreApp \<Rightarrow> bool" where
  "store_app_ok a \<longleftrightarrow> int64_range (sa_ID a) \<and> int64_range (sa_FileSizeMB a)"

lemma known_fields: "list_all (\<lambda>k. field_of tray_app_fields k = Some k) tray_app_fields"
  by (simp add: list_all_iff)

lemma unknown_fields:
  "list_all (\<lambda>k. field_of tray_app_fields k = None)
     [''install_state'', ''error_message'', ''conflict_detected'', ''conflict_confidence'', ''conflict_message'']"
  by code_simp

lemmas tray_app_keys =
  known_fields [unfolded tray_app_fields_def list.pred_inject, folded tray_app_fields_def]
  unknown_fields [unfolded list.pred_inject]

lemma tray_app_decoded:
  assumes "store_app_ok a"
  shows "decode_TrayApp (encode_StoreApp a) = Some (tray_view a)"
  using assms
  by (simp add: decode_TrayApp_def decode_struct_def encode_StoreApp_def tray_app_keys
      set_tray_app_field_def jint_def zero_TrayApp_def tray_view_def store_app_ok_def)

lemma tray_apps_decoded: "list_all store_app_ok as \<Longrightarrow> decode_all decode_TrayApp (map encode_StoreApp as) = Some (map tray_view as)"
  by (induction as) (simp_all add: tray_app_decoded)

lemma service_store_decoded:
  assumes "GetStore (ie_api env) (ie_client env) (agt_UUID (cfg_Agent cfg)) (agt_SecretKey (cfg_Agent cfg)) = Inr store"
    and "list_all store_app_ok (st_Apps store)"
  shows "decode_ipcStoreResponse (encode_IpcResponse (ipc_get_store env cfg)) =
    Some \<lparr>isr_Status = ''ok'', isr_Message = [], isr_Apps = Some (map tray_view (st_Apps store))\<rparr>"
proof -
  have "decode_apps (JArr (map encode_StoreApp (st_Apps store))) = Some (Some (map tray_view (st_Apps store)))"
    using tray_apps_decoded [OF assms(2)] by (simp add: decode_apps_def decode_slice_def)
  then show ?thesis
    by (simp add: assms(1) ipc_get_store_def encode_IpcResponse_def encode_StoreResponse_def omit_string_def omit_any_def
        decode_ipcStoreResponse_def decode_struct_def set_store_response_field_def)
qed

text \<open>C39. The legacy window shows what the service said: PowerShell is started only after the command line
  answered with a store, and then the script it runs holds, as PowerShell reads it, the JSON of exactly
  those apps and the path of the program that was asked; nothing else was run.\<close>

theorem native_store_shows:
  assumes "OpenStoreNativeUIStandalone env s = (r, cmds, s')"
    and "(''powershell.exe'', powershell_args (native_psPath env)) \<in> set cmds"
  shows "\<exists>exe apps. nv_exe env = Inr exe \<and> native_store env (native_cliPath env exe s) = Inr apps \<and>
    cmds = [(native_cliPath env exe s, [''get_store'']), (''powershell.exe'', powershell_args (native_psPath env))] \<and>
    map_option script_data (s' (native_psPath env)) =
      Some (Some (nv_marshal env (encode_apps apps), native_cliPath env exe s)) \<and>
    (r = None \<longleftrightarrow> snd (nv_run env ''powershell.exe'' (powershell_args (native_psPath env))) = None)"
proof -
  obtain exe where exe: "nv_exe env = Inr exe"
    using assms by (cases "nv_exe env") (auto simp: OpenStoreNativeUIStandalone_def)
  let ?cli = "native_cliPath env exe s" and ?ps = "powershell_args (native_psPath env)"
  have not_asked: "?ps \<noteq> [''get_store'']" by (simp add: powershell_args_def)
  obtain apps where apps: "native_store env ?cli = Inr apps"
    using assms not_asked exe
    by (cases "native_store env ?cli") (auto simp: OpenStoreNativeUIStandalone_def Let_def)
  let ?w = "os_WriteFile (nv_orc env) (native_psPath env) (store_script (nv_marshal env (encode_apps apps)) ?cli) s"
  have w: "?w = (None, s')"
    using assms not_asked exe apps
    by (cases ?w) (auto simp: OpenStoreNativeUIStandalone_def Let_def split: option.splits prod.splits)
  then have "s' = s(native_psPath env \<mapsto> store_script (nv_marshal env (encode_apps apps)) ?cli)"
    using os_WriteFile_ok by (metis fst_conv snd_conv)
  moreover have "cmds = [(?cli, [''get_store'']), (''powershell.exe'', ?ps)]"
    "r = None \<longleftrightarrow> snd (nv_run env ''powershell.exe'' ?ps) = None"
    using assms(1) exe apps w
    by (auto simp: OpenStoreNativeUIStandalone_def Let_def split: option.splits prod.splits)
  ultimately show ?thesis using exe apps by (auto simp: script_data_written)
qed

definition native_sample :: native_env where
  "native_sample = \<lparr>nv_exe = Inr ''t'', nv_orc = no_faults,
     nv_run = (\<lambda>p as. (if as = [''get_store''] then ''{}'' else [], None)),
     nv_unmarshal = (\<lambda>t. Inr (JObj [(''status'', JStr ''ok'')])),
     nv_marshal = (\<lambda>v. ''null''), nv_tempDir = ''tmp'', nv_sprintf = id\<rparr>"

lemma native_sample_store: "native_store native_sample cli = Inr None"
  by (simp add: native_store_def native_sample_def decode_ipcStoreResponse_def decode_struct_def set_store_response_field_def)

lemma native_sample_run:
  "OpenStoreNativeUIStandalone native_sample Map.empty =
     (None, [(''t'', [''get_store'']), (''powershell.exe'', powershell_args (native_psPath native_sample))],
      [native_psPath native_sample \<mapsto> store_script ''null'' ''t''])"
proof -
  have "nv_exe native_sample = Inr ''t''" "nv_orc native_sample = no_faults" "nv_marshal native_sample v = ''null''"
    "nv_run native_sample p (powershell_args q) = ([], None)" "native_cliPath native_sample ''t'' Map.empty = ''t''" for v p q
    by (simp_all add: native_sample_def powershell_args_def native_cliPath_def os_Stat_def no_faults_def)
  then show ?thesis
    by (simp add: OpenStoreNativeUIStandalone_def native_sample_store os_WriteFile_def no_faults_def Let_def)
qed

theorem native_store_shows_witness:
  "script_data (store_script ''null'' ''t'') = Some (''null'', ''t'')"
  using native_store_shows [OF native_sample_run] by (auto simp: native_sample_def)

end
