(* ===== verification/Go_Runes.thy ===== *)
theory Go_Runes
  imports Go_Prelude
begin

section \<open>Strings as runes\<close>

text \<open>
  \<open>[]rune(s)\<close> splits a text into characters of UTF-8. A rune is here the list of bytes that
  \<open>string(r)\<close> writes for it; a byte that belongs to no character is the replacement character.
\<close>

definition chr_code :: "char \<Rightarrow> nat" where
  "chr_code c = of_char c"

definition cont_byte :: "char \<Rightarrow> bool" where
  "cont_byte c \<longleftrightarrow> 128 \<le> chr_code c \<and> chr_code c \<le> 191"

text \<open>The bytes that may follow the first one of a character of three or four bytes.\<close>

definition second_byte :: "char \<Rightarrow> char \<Rightarrow> bool" where
  "second_byte b c \<longleftrightarrow> cont_byte c \<and>
     (chr_code b = 224 \<longrightarrow> 160 \<le> chr_code c) \<and> (chr_code b = 237 \<longrightarrow> chr_code c \<le> 159) \<and>
     (chr_code b = 240 \<longrightarrow> 144 \<le> chr_code c) \<and> (chr_code b = 244 \<longrightarrow> chr_code c \<le> 143)"

text \<open>The number of bytes of the character a text begins with, 0 when it begins with none.\<close>

fun utf8_width :: "string \<Rightarrow> nat" where
  "utf8_width [] = 0"
| "utf8_width (b # s) =
     (let n = chr_code b in
      if n < 128 then 1
      else if n < 194 then 0
      else if n < 224 then (case s of c # _ \<Rightarrow> if cont_byte c then 2 else 0 | _ \<Rightarrow> 0)
      else if n < 240 then (case s of c # d # _ \<Rightarrow> if second_byte b c \<and> cont_byte d then 3 else 0 | _ \<Rightarrow> 0)
      else if n < 245 then
        (case s of c # d # e # _ \<Rightarrow> if second_byte b c \<and> cont_byte d \<and> cont_byte e then 4 else 0 | _ \<Rightarrow> 0)
      else 0)"

definition rune_error :: string where
  "rune_error = [CHR 0xEF, CHR 0xBF, CHR 0xBD]"

function runes :: "string \<Rightarrow> string list" where
  "runes [] = []"
| "runes (b # s) =
     (case utf8_width (b # s) of
        0 \<Rightarrow> rune_error # runes s
      | Suc n \<Rightarrow> (b # take n s) # runes (drop n s))"
  by pat_completeness auto
termination by (relation "measure length") auto

definition of_runes :: "string list \<Rightarrow> string" where
  "of_runes rs = concat rs"

text \<open>A text that is UTF-8, and one that is a single character of it.\<close>

definition valid_utf8 :: "string \<Rightarrow> bool" where
  "valid_utf8 s \<longleftrightarrow> of_runes (runes s) = s"

definition is_rune :: "string \<Rightarrow> bool" where
  "is_rune r \<longleftrightarrow> r \<noteq> [] \<and> utf8_width r = length r"

lemma utf8_width_le: "utf8_width s \<le> length s"
  by (cases s rule: utf8_width.cases) (auto simp: Let_def split: list.splits)

lemma utf8_width_append: "utf8_width s \<noteq> 0 \<Longrightarrow> utf8_width (s @ t) = utf8_width s"
  by (cases s rule: utf8_width.cases) (auto simp: Let_def split: list.splits if_splits)

lemma utf8_width_take: "utf8_width s = Suc n \<Longrightarrow> utf8_width (take (Suc n) s) = Suc n"
  by (cases s rule: utf8_width.cases) (auto simp: Let_def split: list.splits if_splits)

lemma is_rune_error: "is_rune rune_error"
  by (simp add: is_rune_def rune_error_def chr_code_def cont_byte_def second_byte_def)

lemma runes_are_runes: "r \<in> set (runes s) \<Longrightarrow> is_rune r"
proof (induction s rule: runes.induct)
  case (2 b s)
  show ?case
  proof (cases "utf8_width (b # s)")
    case 0
    with 2 show ?thesis by (auto simp: is_rune_error simp del: utf8_width.simps)
  next
    case (Suc n)
    then have "utf8_width (b # take n s) = Suc n" "n \<le> length s"
      using utf8_width_take [OF Suc] utf8_width_le [of "b # s"] by simp_all
    then have "is_rune (b # take n s)" by (simp add: is_rune_def del: utf8_width.simps)
    with 2 Suc show ?thesis by (auto simp del: utf8_width.simps)
  qed
qed simp

text \<open>A list of characters is read as it was written.\<close>

lemma runes_append_rune: "is_rune r \<Longrightarrow> runes (r @ s) = r # runes s"
proof (cases r)
  case (Cons b t)
  assume "is_rune r"
  then have "utf8_width (b # t) = Suc (length t)" by (simp add: is_rune_def Cons del: utf8_width.simps)
  moreover from this have "utf8_width (b # t @ s) = Suc (length t)"
    using utf8_width_append [of "b # t" s] by (simp del: utf8_width.simps)
  ultimately show ?thesis by (simp add: Cons del: utf8_width.simps)
qed (simp add: is_rune_def)

lemma runes_of_runes: "list_all is_rune rs \<Longrightarrow> runes (of_runes rs) = rs"
  by (induction rs) (simp_all add: of_runes_def runes_append_rune)

lemma runes_idem [simp]: "runes (of_runes (runes s)) = runes s"
  by (rule runes_of_runes) (simp add: list_all_iff runes_are_runes)

lemma valid_utf8_of_runes: "list_all is_rune rs \<Longrightarrow> valid_utf8 (of_runes rs)"
  by (simp add: valid_utf8_def runes_of_runes)

end
