(* ===== verification/StoreWindow.thy ===== *)
theory StoreWindow
  imports Tray Go_Runes
begin

section \<open>The store window (\<open>internal/tray/store_window_windows.go\<close>)\<close>

text \<open>
  What the window shows and how it changes: a card for each app, the search field that hides cards, and
  the install buttons, each of which starts a goroutine that asks the service and hands the answer back
  to the thread of the window. Widgets are the values they show; the GUI library decides whether a widget
  is created, and that a disabled button is not clicked. The margins and sizes inside a card are left out.
\<close>

subsection \<open>Cards\<close>

record card_view =
  cv_name :: string
  cv_version :: string
  cv_size :: "string option"
  cv_button :: store_button
  cv_description :: "string option"
  cv_visible :: bool

definition ellipsis :: string where "ellipsis = [CHR 0xE2, CHR 0x80, CHR 0xA6]"

definition card_description :: "TrayApp \<Rightarrow> string option" where
  "card_description app =
     (let desc = ta_Description app in
      if desc \<noteq> []
      then Some (if length (runes desc) > 78 then of_runes (take 78 (runes desc)) @ ellipsis else desc)
      else None)"

definition card_size :: "TrayApp \<Rightarrow> string option" where
  "card_size app = (if ta_FileSizeMB app > 0 then Some (strconv_Itoa (ta_FileSizeMB app) @ '' MB'') else None)"

text \<open>\<open>buildAppCard\<close>; only the creation of the card itself can fail it.\<close>

definition buildAppCard :: "goerr option \<Rightarrow> TrayApp \<Rightarrow> goerr + card_view" where
  "buildAppCard created app =
     (case created of
        Some err \<Rightarrow> Inl err
      | None \<Rightarrow> Inr \<lparr>cv_name = ta_DisplayName app, cv_version = card_version app, cv_size = card_size app,
          cv_button = card_button app, cv_description = card_description app, cv_visible = True\<rparr>)"

subsection \<open>The window\<close>

text \<open>
  A window with its cards, the answers its goroutines are waiting for, by the index of the card, the
  requests it has sent, and the message boxes it has shown. Without a window the result is the box.
\<close>

record card_entry =
  en_app :: TrayApp
  en_card :: card_view

record store_window =
  sw_header :: string
  sw_position :: "(int \<times> int) option"
  sw_entries :: "card_entry list"
  sw_waiting :: "nat list"
  sw_sent :: "int list"
  sw_boxes :: "string list"

definition store_header :: "nat \<Rightarrow> string" where
  "store_header n = ''AppCenter Store  '' @ [CHR 0xC2, CHR 0xB7] @ ''  '' @ strconv_Itoa (int n) @ '' uygulama''"

definition load_failed_text :: "goerr \<Rightarrow> string" where
  "load_failed_text err = ''Ma'' @ [CHR 0xC4, CHR 0x9F] @ ''aza y'' @ [CHR 0xC3, CHR 0xBC] @ ''klenemedi:'' @
     [CHR 0x0A, CHR 0x0A] @ error_Error err"

definition create_failed_text :: "goerr \<Rightarrow> string" where
  "create_failed_text err = ''Pencere acilamadi:'' @ [CHR 0x0A, CHR 0x0A] @ error_Error err"

text \<open>
  The tree of widgets that is handed to the library: margins (left, top, right, bottom) and spacing of a
  box, fonts as family, size and weight. The cards are put into the innermost composite.
\<close>

datatype box_layout = VBox "int \<times> int \<times> int \<times> int" int | HBox "int \<times> int \<times> int \<times> int" int

datatype widget =
    Composite box_layout "widget list"
  | ScrollView box_layout "widget list"
  | LabelWidget string "string \<times> int \<times> bool"
  | LineEdit string "string \<times> int"
  | HSpacer
  | HSeparator

record main_window =
  mw_Title :: string
  mw_MinSize :: "int \<times> int"
  mw_MaxSize :: "int \<times> int"
  mw_Layout :: box_layout
  mw_Children :: "widget list"

definition storeWinW :: int where "storeWinW = 460"
definition storeWinH :: int where "storeWinH = 600"

definition store_main_window :: "nat \<Rightarrow> main_window" where
  "store_main_window n = \<lparr>mw_Title = ''AppCenter Store'', mw_MinSize = (storeWinW, storeWinH),
     mw_MaxSize = (storeWinW, storeWinH), mw_Layout = VBox (12, 12, 12, 12) 8,
     mw_Children =
       [Composite (HBox (0, 0, 0, 0) 6) [LabelWidget (store_header n) (''Segoe UI'', 12, True), HSpacer],
        LineEdit ''Uygulama ara...'' (''Segoe UI'', 10),
        HSeparator,
        ScrollView (VBox (0, 0, 0, 0) 0) [Composite (VBox (0, 0, 0, 0) 0) []]]\<rparr>"

text \<open>The cards that were created, in the order of the apps; \<open>created i\<close> is the fate of the i-th one.\<close>

definition build_entries :: "(nat \<Rightarrow> goerr option) \<Rightarrow> TrayApp list \<Rightarrow> card_entry list" where
  "build_entries created apps =
     List.map_filter (\<lambda>(i, app). case buildAppCard (created i) app of
         Inl err \<Rightarrow> None | Inr view \<Rightarrow> Some \<lparr>en_app = app, en_card = view\<rparr>) (enumerate 0 apps)"

definition runStoreWindow ::
    "goerr + IpcResponse \<Rightarrow> (main_window \<Rightarrow> goerr option) \<Rightarrow> (nat \<Rightarrow> goerr option) \<Rightarrow> (int \<times> int \<times> int \<times> int) option \<Rightarrow>
     string + store_window" where
  "runStoreWindow answer create created workArea =
     (case loadStoreApps answer of
        Inl err \<Rightarrow> Inl (load_failed_text err)
      | Inr apps \<Rightarrow>
          (case create (store_main_window (length apps)) of
             Some err \<Rightarrow> Inl (create_failed_text err)
           | None \<Rightarrow> Inr \<lparr>sw_header = store_header (length apps),
               sw_position = (case workArea of None \<Rightarrow> None | Some wa \<Rightarrow> store_corner wa),
               sw_entries = build_entries created apps, sw_waiting = [], sw_sent = [], sw_boxes = []\<rparr>))"

subsection \<open>Events of the window\<close>

definition installing_text :: string where "installing_text = ''Kuruluyor'' @ ellipsis"

text \<open>The text typed into the search field, a click on the button of a card, and the answer to a request.\<close>

datatype store_event =
    SearchTyped string
  | InstallClicked nat
  | InstallAnswered nat "goerr + IpcResponse"

definition matches :: "string \<Rightarrow> TrayApp \<Rightarrow> bool" where
  "matches text app = (store_search text [app] \<noteq> [])"

definition set_button :: "nat \<Rightarrow> store_button \<Rightarrow> card_entry list \<Rightarrow> card_entry list" where
  "set_button i b es = es[i := (es ! i)\<lparr>en_card := (en_card (es ! i))\<lparr>cv_button := b\<rparr>\<rparr>]"

fun store_step :: "store_event \<Rightarrow> store_window \<Rightarrow> store_window" where
  "store_step (SearchTyped text) w =
     w\<lparr>sw_entries := map (\<lambda>e. e\<lparr>en_card := (en_card e)\<lparr>cv_visible := matches text (en_app e)\<rparr>\<rparr>) (sw_entries w)\<rparr>"
| "store_step (InstallClicked i) w =
     (let e = sw_entries w ! i in
      if i < length (sw_entries w) \<and> sb_enabled (cv_button (en_card e)) \<and> cv_visible (en_card e)
      then w\<lparr>sw_entries := set_button i \<lparr>sb_text = installing_text, sb_enabled = False\<rparr> (sw_entries w),
             sw_waiting := i # sw_waiting w, sw_sent := sw_sent w @ [ta_ID (en_app e)]\<rparr>
      else w)"
| "store_step (InstallAnswered i answer) w =
     (if i \<in> set (sw_waiting w)
      then case install_clicked (en_app (sw_entries w ! i)) answer of
             (b, box) \<Rightarrow> w\<lparr>sw_entries := set_button i b (sw_entries w), sw_waiting := remove1 i (sw_waiting w),
               sw_boxes := sw_boxes w @ (case box of None \<Rightarrow> [] | Some t \<Rightarrow> [t])\<rparr>
      else w)"

definition store_run :: "store_event list \<Rightarrow> store_window \<Rightarrow> store_window" where
  "store_run evs w = fold store_step evs w"

subsection \<open>What a card shows\<close>

text \<open>A description is shown as text of at most 79 characters, cut between characters.\<close>

lemma is_rune_ellipsis: "is_rune ellipsis"
  by (simp add: is_rune_def ellipsis_def chr_code_def cont_byte_def second_byte_def)

lemma card_description_runes:
  assumes "card_description app = Some d"
  shows "length (runes d) \<le> 79 \<and> (valid_utf8 (ta_Description app) \<longrightarrow> valid_utf8 d)"
proof (cases "length (runes (ta_Description app)) > 78")
  case True
  let ?rs = "take 78 (runes (ta_Description app)) @ [ellipsis]"
  have d: "d = of_runes ?rs"
    using True assms by (auto simp: card_description_def of_runes_def Let_def split: if_splits)
  have "list_all is_rune ?rs"
    by (auto simp: list_all_iff is_rune_ellipsis dest: in_set_takeD intro: runes_are_runes)
  then show ?thesis unfolding d by (simp add: runes_of_runes valid_utf8_of_runes del: list_all_append)
next
  case False
  then have "d = ta_Description app"
    using assms by (auto simp: card_description_def Let_def split: if_splits)
  with False show ?thesis by simp
qed

subsection \<open>What the window promises\<close>

text \<open>The text that is in the search field after some events.\<close>

fun typed :: "store_event list \<Rightarrow> string \<Rightarrow> string" where
  "typed [] text = text"
| "typed (SearchTyped t # evs) text = typed evs t"
| "typed (_ # evs) text = typed evs text"

definition card_ok :: "string \<Rightarrow> bool \<Rightarrow> card_entry \<Rightarrow> bool" where
  "card_ok text waiting e \<longleftrightarrow>
     (cv_visible (en_card e) \<longleftrightarrow> matches text (en_app e)) \<and>
     (waiting \<longrightarrow> \<not> ta_Installed (en_app e) \<and>
        cv_button (en_card e) = \<lparr>sb_text = installing_text, sb_enabled = False\<rparr>) \<and>
     (sb_enabled (cv_button (en_card e)) \<longrightarrow> \<not> ta_Installed (en_app e) \<and> sb_text (cv_button (en_card e)) = ''Kur'') \<and>
     (ta_Installed (en_app e) \<longrightarrow> sb_text (cv_button (en_card e)) = installed_text)"

definition window_ok :: "TrayApp list \<Rightarrow> string \<Rightarrow> store_window \<Rightarrow> bool" where
  "window_ok apps text w \<longleftrightarrow>
     map en_app (sw_entries w) = apps \<and> distinct (sw_waiting w) \<and> set (sw_waiting w) \<subseteq> {..<length apps} \<and>
     set (sw_sent w) \<subseteq> ta_ID ` {a \<in> set apps. \<not> ta_Installed a} \<and>
     length (sw_boxes w) + length (sw_waiting w) \<le> length (sw_sent w) \<and>
     (\<forall>i < length (sw_entries w). card_ok text (i \<in> set (sw_waiting w)) (sw_entries w ! i))"

lemma matches_iff: "matches text a \<longleftrightarrow> a \<in> set (store_search text [a])"
  by (auto simp: matches_def store_search_def Let_def)

lemma store_search_matches: "store_search text apps = filter (matches text) apps"
  by (induction apps) (simp_all add: matches_def store_search_def Let_def)

lemma set_button_simps [simp]:
  "length (set_button i b es) = length es"
  "i < length es \<Longrightarrow> map en_app (set_button i b es) = map en_app es"
  "i < length es \<Longrightarrow> j < length es \<Longrightarrow> set_button i b es ! j =
     (if j = i then (es ! i)\<lparr>en_card := (en_card (es ! i))\<lparr>cv_button := b\<rparr>\<rparr> else es ! j)"
proof -
  show "i < length es \<Longrightarrow> map en_app (set_button i b es) = map en_app es"
    by (intro nth_equalityI) (auto simp: set_button_def nth_list_update)
qed (simp_all add: set_button_def)

lemma window_ok_typed:
  assumes "window_ok apps text w"
  shows "window_ok apps t (store_step (SearchTyped t) w)"
  using assms by (auto simp: window_ok_def card_ok_def comp_def)

lemma window_ok_clicked:
  assumes "window_ok apps text w"
  shows "window_ok apps text (store_step (InstallClicked i) w)"
proof -
  let ?e = "sw_entries w ! i"
  have apps: "length apps = length (sw_entries w)" using assms by (auto simp: window_ok_def)
  consider (skip) "store_step (InstallClicked i) w = w"
    | (sent) "i < length (sw_entries w)" "sb_enabled (cv_button (en_card ?e))"
      "store_step (InstallClicked i) w = w\<lparr>sw_entries := set_button i \<lparr>sb_text = installing_text, sb_enabled = False\<rparr> (sw_entries w),
         sw_waiting := i # sw_waiting w, sw_sent := sw_sent w @ [ta_ID (en_app ?e)]\<rparr>"
    by (cases "i < length (sw_entries w) \<and> sb_enabled (cv_button (en_card ?e)) \<and> cv_visible (en_card ?e)")
      (simp_all add: Let_def)
  then show ?thesis
  proof cases
    case skip
    with assms show ?thesis by simp
  next
    case sent
    then have e: "card_ok text (i \<in> set (sw_waiting w)) ?e" "?e \<in> set (sw_entries w)"
      using assms by (auto simp: window_ok_def)
    with sent have "i \<notin> set (sw_waiting w)" "\<not> ta_Installed (en_app ?e)" "en_app ?e \<in> set apps"
      using assms by (auto simp: window_ok_def card_ok_def)
    with assms sent e apps show ?thesis
      unfolding window_ok_def sent(3) by (auto simp: card_ok_def)
  qed
qed

text \<open>The button after an answer.\<close>

lemma install_clicked_button:
  "\<not> sb_enabled (fst (install_clicked app answer)) \<or> sb_text (fst (install_clicked app answer)) = ''Kur''"
  by (auto simp: install_clicked_def Let_def split: sum.split)

lemma window_ok_answered:
  assumes "window_ok apps text w"
  shows "window_ok apps text (store_step (InstallAnswered i answer) w)"
proof (cases "i \<in> set (sw_waiting w)")
  case True
  let ?e = "sw_entries w ! i"
  obtain b box where c: "install_clicked (en_app ?e) answer = (b, box)" by fastforce
  have i: "i < length (sw_entries w)" and apps: "length apps = length (sw_entries w)"
    and d: "distinct (sw_waiting w)"
    using assms True by (auto simp: window_ok_def)
  have "\<forall>j < length (sw_entries w). card_ok text (j \<in> set (sw_waiting w)) (sw_entries w ! j)"
    using assms unfolding window_ok_def by blast
  with i True have e: "card_ok text True ?e" by metis
  have b: "\<not> sb_enabled b \<or> sb_text b = ''Kur''" using install_clicked_button [of "en_app ?e" answer] by (simp add: c)
  have n: "length (sw_waiting w) > 0" using True by auto
  then have "length (case box of None \<Rightarrow> [] | Some t \<Rightarrow> [t]) + length (remove1 i (sw_waiting w)) \<le> length (sw_waiting w)"
    using True by (auto simp: length_remove1 split: option.split)
  with assms True i apps d e b show ?thesis
    unfolding window_ok_def by (auto simp: c card_ok_def)
qed (simp add: assms)

lemma window_ok_run: "window_ok apps q w \<Longrightarrow> window_ok apps (typed evs q) (store_run evs w)"
proof (induction evs q arbitrary: w rule: typed.induct)
  case (2 t evs q)
  from 2(1) [OF window_ok_typed [OF 2(2)]] show ?case by (simp add: store_run_def)
qed (auto simp: store_run_def window_ok_clicked window_ok_answered simp del: store_step.simps)

lemma window_ok_opened:
  assumes "runStoreWindow answer create created workArea = Inr w"
  shows "window_ok (map en_app (sw_entries w)) [] w"
proof -
  have "card_ok [] False e" if "e \<in> set (build_entries created apps)" for e apps
    using that
    by (auto simp: build_entries_def buildAppCard_def List.map_filter_def card_ok_def card_button_def
        matches_def store_search_def strings_ToLower_def split: option.splits)
  then have "card_ok [] False (build_entries created apps ! i)" if "i < length (build_entries created apps)" for i apps
    using that nth_mem by blast
  then show ?thesis
    using assms by (auto simp: runStoreWindow_def window_ok_def split: sum.splits option.splits)
qed

text \<open>Every app the service sent has its card, in order, unless the library fails to make one.\<close>

lemma build_entries_all: "(\<And>i. created i = None) \<Longrightarrow> map en_app (build_entries created apps) = apps"
  by (simp add: build_entries_def buildAppCard_def List.map_filter_def comp_def case_prod_beta)

text \<open>C17. The store window stays true to its apps: in every run of it, whatever is typed, clicked and answered in
  whatever order, the visible cards are exactly the apps the search text in the field selects, an install is
  asked for only for an app that is not installed, at most one request of a card is in flight, its button
  being disabled meanwhile, a button that can be clicked says \<open>Kur\<close>, and no failure is reported twice.\<close>

theorem store_window_run:
  assumes "runStoreWindow answer create created workArea = Inr w0" and "w = store_run evs w0"
  shows "map en_app (filter (\<lambda>e. cv_visible (en_card e)) (sw_entries w)) =
      store_search (typed evs []) (map en_app (sw_entries w0)) \<and>
    set (sw_sent w) \<subseteq> ta_ID ` {a \<in> set (map en_app (sw_entries w0)). \<not> ta_Installed a} \<and>
    distinct (sw_waiting w) \<and> length (sw_boxes w) + length (sw_waiting w) \<le> length (sw_sent w) \<and>
    (\<forall>i < length (sw_entries w).
       (i \<in> set (sw_waiting w) \<longrightarrow> \<not> sb_enabled (cv_button (en_card (sw_entries w ! i)))) \<and>
       (sb_enabled (cv_button (en_card (sw_entries w ! i))) \<longrightarrow>
          \<not> ta_Installed (en_app (sw_entries w ! i)) \<and> sb_text (cv_button (en_card (sw_entries w ! i))) = ''Kur''))"
proof -
  let ?apps = "map en_app (sw_entries w0)"
  have ok: "window_ok ?apps (typed evs []) w"
    unfolding assms(2) by (rule window_ok_run [OF window_ok_opened [OF assms(1)]])
  then have "filter (\<lambda>e. cv_visible (en_card e)) (sw_entries w) = filter (\<lambda>e. matches (typed evs []) (en_app e)) (sw_entries w)"
    by (intro filter_cong) (auto simp: window_ok_def card_ok_def in_set_conv_nth)
  then have "map en_app (filter (\<lambda>e. cv_visible (en_card e)) (sw_entries w)) =
      filter (matches (typed evs [])) (map en_app (sw_entries w))"
    by (simp add: filter_map comp_def)
  also have "map en_app (sw_entries w) = ?apps" using ok by (simp add: window_ok_def)
  finally show ?thesis
    using ok by (auto simp: window_ok_def card_ok_def store_search_matches)
qed

text \<open>A run: one app, a search that finds it, a click, a second click that is without effect, and an error.\<close>

definition sample_app :: TrayApp where
  "sample_app = zero_TrayApp\<lparr>ta_ID := 7, ta_DisplayName := ''Zip''\<rparr>"

definition sample_window :: store_window where
  "sample_window = \<lparr>sw_header = store_header 1, sw_position = None, sw_entries = build_entries (\<lambda>_. None) [sample_app],
     sw_waiting = [], sw_sent = [], sw_boxes = []\<rparr>"

definition sample_store_events :: "store_event list" where
  "sample_store_events = [SearchTyped ''ip'', InstallClicked 0, InstallClicked 0, InstallAnswered 0 (Inl (GoErr ''x''))]"

definition sample_store_answer :: IpcResponse where
  "sample_store_answer = \<lparr>ip_Status = ''ok'', ip_Message = [],
     ip_Data = JObj [(''apps'', JArr [JObj [(''id'', JNum (f64_of_int 7)), (''display_name'', JStr ''Zip'')]])]\<rparr>"

lemma sample_window_opens:
  "runStoreWindow (Inr sample_store_answer) (\<lambda>_. None) (\<lambda>_. None) None = Inr sample_window"
proof -
  have "loadStoreApps (Inr sample_store_answer) = Inr [sample_app]"
    by (simp add: loadStoreApps_def sample_store_answer_def decode_StorePayload_def decode_struct_def decode_slice_def
        decode_TrayApp_def tray_app_fields_def set_tray_app_field_def zero_TrayApp_def sample_app_def int64_range_def
        insort_is_Cons)
  then show ?thesis by (simp add: runStoreWindow_def sample_window_def)
qed

theorem store_window_run_witness:
  "sw_sent (store_run sample_store_events sample_window) = [7] \<and>
   set (sw_sent (store_run sample_store_events sample_window)) \<subseteq> {7} \<and>
   length (sw_boxes (store_run sample_store_events sample_window)) \<le> 1"
proof -
  have "sw_sent (store_run sample_store_events sample_window) = [7]"
    by code_simp
  with store_window_run [OF sample_window_opens refl, of sample_store_events] show ?thesis by simp
qed

subsection \<open>Opening it once\<close>

text \<open>
  \<open>openStoreWindow\<close> and the goroutine it starts, which owns a thread until the window is closed. The
  fields under \<open>storeMu\<close> are the flag and the window to bring to the front; each step is a piece of code
  that holds the lock, or what the goroutine does between two of them. Goroutines have numbers.
\<close>

datatype store_pc = StoreLoading | StoreShowing

record store_lock =
  storeIsOpen :: bool
  storeWinRef :: "nat option"
  store_threads :: "(nat \<times> store_pc) list"

definition store_closed :: store_lock where
  "store_closed = \<lparr>storeIsOpen = False, storeWinRef = None, store_threads = []\<rparr>"

definition store_finished :: "nat \<times> store_pc \<Rightarrow> store_lock \<Rightarrow> store_lock" where
  "store_finished g s = s\<lparr>storeIsOpen := False, storeWinRef := None, store_threads := remove1 g (store_threads s)\<rparr>"

inductive store_lock_step :: "store_lock \<Rightarrow> nat option \<Rightarrow> store_lock \<Rightarrow> bool" where
  OpenNew: "\<not> storeIsOpen s \<Longrightarrow>
    store_lock_step s None (s\<lparr>storeIsOpen := True, store_threads := (n, StoreLoading) # store_threads s\<rparr>)"
| BringToTop: "storeIsOpen s \<Longrightarrow> store_lock_step s (storeWinRef s) s"
| Failed: "(n, StoreLoading) \<in> set (store_threads s) \<Longrightarrow> store_lock_step s None (store_finished (n, StoreLoading) s)"
| Created: "(n, StoreLoading) \<in> set (store_threads s) \<Longrightarrow>
    store_lock_step s None (s\<lparr>storeWinRef := Some n,
      store_threads := (n, StoreShowing) # remove1 (n, StoreLoading) (store_threads s)\<rparr>)"
| Closed: "(n, StoreShowing) \<in> set (store_threads s) \<Longrightarrow> store_lock_step s None (store_finished (n, StoreShowing) s)"

inductive_cases store_lock_stepE: "store_lock_step s shown s'"

inductive store_lock_reachable :: "store_lock \<Rightarrow> bool" where
  "store_lock_reachable store_closed"
| "store_lock_reachable s \<Longrightarrow> store_lock_step s shown s' \<Longrightarrow> store_lock_reachable s'"

definition store_lock_ok :: "store_lock \<Rightarrow> bool" where
  "store_lock_ok s \<longleftrightarrow>
     (case store_threads s of
        [] \<Rightarrow> \<not> storeIsOpen s \<and> storeWinRef s = None
      | [(n, pc)] \<Rightarrow> storeIsOpen s \<and> storeWinRef s = (if pc = StoreShowing then Some n else None)
      | _ \<Rightarrow> False)"

lemma store_lock_cases:
  assumes "store_lock_ok s"
  obtains (closed) "store_threads s = []" "\<not> storeIsOpen s" "storeWinRef s = None"
    | (loading) n where "store_threads s = [(n, StoreLoading)]" "storeIsOpen s" "storeWinRef s = None"
    | (showing) n where "store_threads s = [(n, StoreShowing)]" "storeIsOpen s" "storeWinRef s = Some n"
proof (cases "store_threads s")
  case (Cons g gs)
  obtain n pc where "g = (n, pc)" by fastforce
  with Cons assms that show thesis by (cases pc; cases gs) (auto simp: store_lock_ok_def)
qed (use assms that in \<open>auto simp: store_lock_ok_def\<close>)

text \<open>At most one goroutine has a window, the flag says whether there is one, and what is brought to the front is it.\<close>

lemma store_lock_ok_step: "store_lock_step s shown s' \<Longrightarrow> store_lock_ok s \<Longrightarrow> store_lock_ok s'"
  by (erule store_lock_cases; erule store_lock_stepE) (auto simp: store_lock_ok_def store_finished_def)

lemma one_store_window:
  assumes "store_lock_reachable s"
  shows "store_lock_ok s"
  using assms
proof (induction rule: store_lock_reachable.induct)
  case 1
  show ?case by (simp add: store_lock_ok_def store_closed_def)
next
  case (2 s shown s')
  then show ?case using store_lock_ok_step by blast
qed

lemma brought_to_top:
  assumes "store_lock_reachable s" and "store_lock_step s (Some n) s'"
  shows "store_threads s = [(n, StoreShowing)]"
  by (rule store_lock_cases [OF one_store_window [OF assms(1)]]) (use assms(2) in \<open>auto elim: store_lock_stepE\<close>)

end
