(* ===== verification/TrayIcon.thy ===== *)
theory TrayIcon
  imports Tray Base64 Go_Bytes
begin

section \<open>The icons of the tray (\<open>internal/tray/icon_windows.go\<close>)\<close>

text \<open>
  The icon files the tray draws: a glyph in one of three colours as the pixels of a bitmap, with the
  headers of an icon file before them. Bytes are 8-bit words; the fields of the headers are words of
  their width, written with the low byte first. The icons are made once; they depend on nothing.
\<close>

record rgba =
  px_r :: octet
  px_g :: octet
  px_b :: octet
  px_a :: octet

subsection \<open>The glyph\<close>

definition shape :: "int \<Rightarrow> int \<Rightarrow> int \<Rightarrow> int \<Rightarrow> bool" where
  "shape w h x y =
     (let c1x = w div 2 - 3; c2x = w div 2 + 3; cy = h div 2; r = 3;
          dx1 = x - c1x; dy1 = y - cy; dx2 = x - c2x; dy2 = y - cy;
          inCircle1 = dx1 * dx1 + dy1 * dy1 \<le> r * r;
          inCircle2 = dx2 * dx2 + dy2 * dy2 \<le> r * r;
          inBar = x \<ge> c1x + r - 1 \<and> x \<le> c2x - r + 1 \<and> y \<ge> cy - 1 \<and> y \<le> cy + 1
      in inCircle1 \<or> inCircle2 \<or> inBar)"

definition isOutline :: "int \<Rightarrow> int \<Rightarrow> int \<Rightarrow> int \<Rightarrow> bool" where
  "isOutline w h x y =
     (if \<not> shape w h x y then False
      else list_ex (\<lambda>(dx, dy).
          let nx = x + dx; ny = y + dy
          in if nx < 0 \<or> nx \<ge> w \<or> ny < 0 \<or> ny \<ge> h then True else \<not> shape w h nx ny)
        [(-1, 0), (1, 0), (0, -1), (0, 1)])"

definition outline :: rgba where
  "outline = \<lparr>px_r = 0x1f, px_g = 0x2d, px_b = 0x3d, px_a = 0xff\<rparr>"

definition bgra :: "rgba \<Rightarrow> octet list" where
  "bgra c = [px_b c, px_g c, px_r c, px_a c]"

definition pixel :: "int \<Rightarrow> int \<Rightarrow> rgba \<Rightarrow> int \<times> int \<Rightarrow> octet list" where
  "pixel w h fg p =
     (case p of (x, y) \<Rightarrow>
        if \<not> shape w h x y then [0, 0, 0, 0]
        else bgra (if isOutline w h x y then outline else fg))"

text \<open>The order in which the two loops visit the pixels: the lowest row first, each from the left.\<close>

definition pixel_order :: "int \<Rightarrow> int \<Rightarrow> (int \<times> int) list" where
  "pixel_order w h = concat (map (\<lambda>y. map (\<lambda>x. (x, y)) [0..w - 1]) (rev [0..h - 1]))"

definition icon_pixels :: "int \<Rightarrow> int \<Rightarrow> rgba \<Rightarrow> octet list" where
  "icon_pixels w h fg = concat (map (pixel w h fg) (pixel_order w h))"

subsection \<open>The file\<close>

record bitmapInfoHeader =
  bih_Size :: "32 word"
  bih_Width :: "32 word"
  bih_Height :: "32 word"
  bih_Planes :: "16 word"
  bih_BitCount :: "16 word"
  bih_Compression :: "32 word"
  bih_SizeImage :: "32 word"
  bih_XPelsPerMeter :: "32 word"
  bih_YPelsPerMeter :: "32 word"
  bih_ClrUsed :: "32 word"
  bih_ClrImportant :: "32 word"

definition write_bih :: "bitmapInfoHeader \<Rightarrow> octet list" where
  "write_bih b = le32 (bih_Size b) @ le32 (bih_Width b) @ le32 (bih_Height b) @ le16 (bih_Planes b) @
     le16 (bih_BitCount b) @ le32 (bih_Compression b) @ le32 (bih_SizeImage b) @ le32 (bih_XPelsPerMeter b) @
     le32 (bih_YPelsPerMeter b) @ le32 (bih_ClrUsed b) @ le32 (bih_ClrImportant b)"

definition maskRowBytes :: "int \<Rightarrow> int" where
  "maskRowBytes w = (w + 31) div 32 * 4"

definition icon_dib :: "int \<Rightarrow> int \<Rightarrow> rgba \<Rightarrow> octet list" where
  "icon_dib w h fg =
     (let pixels = icon_pixels w h fg;
          mask = replicate (nat (maskRowBytes w * h)) 0;
          bih = \<lparr>bih_Size = 40, bih_Width = of_int w, bih_Height = of_int (h * 2), bih_Planes = 1, bih_BitCount = 32,
            bih_Compression = 0, bih_SizeImage = of_nat (length pixels), bih_XPelsPerMeter = 0, bih_YPelsPerMeter = 0,
            bih_ClrUsed = 0, bih_ClrImportant = 0\<rparr>
      in write_bih bih @ pixels @ mask)"

definition makeConnectionICO :: "int \<Rightarrow> rgba \<Rightarrow> octet list" where
  "makeConnectionICO sz fg =
     (let sz = (if sz \<le> 0 then 16 else sz);
          w = sz; h = sz;
          dib = icon_dib w h fg;
          wb = (if w \<ge> 256 then 0 else of_int w); hb = (if h \<ge> 256 then 0 else of_int h)
      in le16 0 @ le16 1 @ le16 1 @ [wb, hb, 0, 0] @ le16 1 @ le16 32 @
         le32 (of_nat (length dib)) @ le32 (6 + 16) @ dib)"

definition connectedIconBytes :: "octet list" where
  "connectedIconBytes = makeConnectionICO 16 \<lparr>px_r = 0x2e, px_g = 0xcc, px_b = 0x71, px_a = 0xff\<rparr>"

definition disconnectedIconBytes :: "octet list" where
  "disconnectedIconBytes = makeConnectionICO 16 \<lparr>px_r = 0xf3, px_g = 0x9c, px_b = 0x12, px_a = 0xff\<rparr>"

definition serviceDownIconBytes :: "octet list" where
  "serviceDownIconBytes = makeConnectionICO 16 \<lparr>px_r = 0xe7, px_g = 0x4c, px_b = 0x3c, px_a = 0xff\<rparr>"

text \<open>The bytes behind the names of the icons in \<open>Tray\<close>.\<close>

definition icon_bytes :: "string \<Rightarrow> octet list" where
  "icon_bytes name =
     (if name = ''connected'' then connectedIconBytes
      else if name = ''disconnected'' then disconnectedIconBytes
      else serviceDownIconBytes)"

text \<open>The icon of the program is the decoding of a constant, here \<open>iconBase64\<close>; what cannot be decoded is no icon.\<close>

definition appIconBytes :: "string \<Rightarrow> string" where
  "appIconBytes iconBase64 = (case b64_decode iconBase64 of None \<Rightarrow> [] | Some b \<Rightarrow> b)"

subsection \<open>Reading an icon file\<close>

definition rd16 :: "octet list \<Rightarrow> nat \<Rightarrow> nat" where
  "rd16 bs i = unat (bs ! i) + 256 * unat (bs ! (i + 1))"

definition rd32 :: "octet list \<Rightarrow> nat \<Rightarrow> nat" where
  "rd32 bs i = rd16 bs i + 65536 * rd16 bs (i + 2)"

text \<open>
  What a reader of icon files relies on: one image, whose bytes end where the file ends; a bitmap header
  with twice the height of the image, since the mask follows the pixels; and room for both.
\<close>

definition icon_side :: "octet \<Rightarrow> nat" where
  "icon_side b = (if b = 0 then 256 else unat b)"

definition well_formed_ico :: "octet list \<Rightarrow> bool" where
  "well_formed_ico bs \<longleftrightarrow>
     (let off = rd32 bs 18; len = rd32 bs 14; w = icon_side (bs ! 6); h = icon_side (bs ! 7) in
      62 \<le> length bs \<and> rd16 bs 0 = 0 \<and> rd16 bs 2 = 1 \<and> rd16 bs 4 = 1 \<and> off = 22 \<and> off + len = length bs \<and>
      rd32 bs off = 40 \<and> rd32 bs (off + 4) = w \<and> rd32 bs (off + 8) = 2 * h \<and> rd16 bs (off + 14) = rd16 bs 12 \<and>
      rd32 bs (off + 20) = w * h * 4 \<and> len = 40 + w * h * 4 + (w + 31) div 32 * 4 * h)"

subsection \<open>What the icons are\<close>

lemma length_pixel: "length (pixel w h fg p) = 4"
  by (simp add: pixel_def bgra_def split: prod.split)

lemma length_concat_const: "(\<And>x. x \<in> set xs \<Longrightarrow> length (f x) = n) \<Longrightarrow> length (concat (map f xs)) = length xs * n"
  by (induction xs) auto

lemma length_pixel_order: "length (pixel_order w h) = nat h * nat w"
  by (simp add: pixel_order_def length_concat_const [where n = "nat w"])

lemma length_icon_pixels: "length (icon_pixels w h fg) = nat h * nat w * 4"
  by (simp add: icon_pixels_def length_concat_const [where n = 4] length_pixel length_pixel_order)

lemma maskRowBytes_nat: "maskRowBytes (int n) = int ((n + 31) div 32 * 4)"
  by (simp add: maskRowBytes_def zdiv_int)

lemma length_icon_dib: "length (icon_dib (int n) (int n) fg) = 40 + n * n * 4 + (n + 31) div 32 * 4 * n"
proof -
  have "nat (maskRowBytes (int n) * int n) = (n + 31) div 32 * 4 * n"
    unfolding maskRowBytes_nat by (simp only: of_nat_mult [symmetric] nat_int)
  then show ?thesis
    by (simp add: icon_dib_def Let_def write_bih_def length_icon_pixels)
qed

lemma dib_bound: "n \<le> 256 \<Longrightarrow> 40 + n * n * 4 + (n + 31) div 32 * 4 * n < 300000" for n :: nat
proof -
  assume n: "n \<le> 256"
  then have "n * n \<le> 256 * 256" by (intro mult_le_mono)
  moreover have "(n + 31) div 32 * 4 * n \<le> 36 * 256"
    using n by (intro mult_le_mono) auto
  ultimately show ?thesis by linarith
qed

lemma unat_small32: "m < 4294967296 \<Longrightarrow> unat (of_nat m :: 32 word) = m"
  by (simp add: unsigned_of_nat take_bit_nat_eq_self)

lemma octet_nat: "m < 256 \<Longrightarrow> unat (of_nat m :: octet) = m"
  by (simp add: unsigned_of_nat take_bit_nat_eq_self)

text \<open>The file as its header fields and what follows.\<close>

lemma ico_layout:
  assumes "0 < n"
  obtains rest where "makeConnectionICO (int n) fg =
    le16 0 @ le16 1 @ le16 1 @ [if n \<ge> 256 then 0 else of_nat n, if n \<ge> 256 then 0 else of_nat n, 0, 0] @ le16 1 @ le16 32 @
    le32 (of_nat (length (icon_dib (int n) (int n) fg))) @ le32 22 @
    le32 40 @ le32 (of_nat n) @ le32 (of_nat (n * 2)) @ le16 1 @ le16 32 @ le32 0 @ le32 (of_nat (n * n * 4)) @ rest"
  using assms
  by (simp add: makeConnectionICO_def icon_dib_def Let_def write_bih_def length_icon_pixels mult.commute)

lemma ico_well_formed_nat:
  assumes "0 < n" and "n \<le> 256"
  shows "well_formed_ico (makeConnectionICO (int n) fg)"
proof -
  let ?ico = "makeConnectionICO (int n) fg" and ?len = "length (icon_dib (int n) (int n) fg)"
  obtain rest where ico: "?ico =
    le16 0 @ le16 1 @ le16 1 @ [if n \<ge> 256 then 0 else of_nat n, if n \<ge> 256 then 0 else of_nat n, 0, 0] @ le16 1 @ le16 32 @
    le32 (of_nat ?len) @ le32 22 @
    le32 40 @ le32 (of_nat n) @ le32 (of_nat (n * 2)) @ le16 1 @ le16 32 @ le32 0 @ le32 (of_nat (n * n * 4)) @ rest"
    by (rule ico_layout [OF assms(1)])
  have len: "?len = 40 + n * n * 4 + (n + 31) div 32 * 4 * n" by (rule length_icon_dib)
  have total: "length ?ico = 22 + ?len" using assms(1) by (simp add: makeConnectionICO_def Let_def)
  have "n * n \<le> 256 * 256" using assms(2) by (intro mult_le_mono)
  then have small: "?len < 4294967296" "n < 4294967296" "n * 2 < 4294967296" "n * n * 4 < 4294967296"
    using dib_bound [OF assms(2)] len assms(2) by linarith+
  have read: "rd16 ?ico 0 = unat (0 :: 16 word)" "rd16 ?ico 2 = unat (1 :: 16 word)" "rd16 ?ico 4 = unat (1 :: 16 word)"
    "rd16 ?ico 12 = unat (32 :: 16 word)" "rd32 ?ico 14 = unat (of_nat ?len :: 32 word)" "rd32 ?ico 18 = unat (22 :: 32 word)"
    "rd32 ?ico 22 = unat (40 :: 32 word)" "rd32 ?ico 26 = unat (of_nat n :: 32 word)"
    "rd32 ?ico 30 = unat (of_nat (n * 2) :: 32 word)" "rd16 ?ico 36 = unat (32 :: 16 word)"
    "rd32 ?ico 42 = unat (of_nat (n * n * 4) :: 32 word)"
    unfolding ico rd32_def rd16_def by (simp_all add: le16_def le32_def unat_bytes16 unat_bytes32_flat)
  have side: "icon_side (?ico ! 6) = n" "icon_side (?ico ! 7) = n"
    unfolding ico using assms octet_nat [of n] by (auto simp: le16_def icon_side_def)
  have vals: "rd32 ?ico 14 = ?len" "rd32 ?ico 26 = n" "rd32 ?ico 30 = n * 2" "rd32 ?ico 42 = n * n * 4"
    by (simp_all only: read unat_small32 small)
  show ?thesis
    unfolding well_formed_ico_def Let_def by (simp add: read(1-4,6,7,10) vals side total len)
qed

text \<open>The pixels decide the file: the icons of two colours differ, since the middle of the bar has the colour.\<close>

lemma middle_pixel:
  assumes "8 \<le> w"
  shows "pixel w w fg (w div 2, w div 2) = bgra fg"
proof -
  define m where "m = w div 2"
  have "1 \<le> m" "m + 1 < w" using assms by (simp_all add: m_def)
  then show ?thesis
    by (simp add: m_def [symmetric] pixel_def isOutline_def shape_def Let_def)
qed

lemma icon_pixels_inj:
  assumes "8 \<le> w" and "icon_pixels w w fg = icon_pixels w w fg'"
  shows "fg = fg'"
proof -
  have "(w div 2, w div 2) \<in> set (pixel_order w w)"
    using assms(1) by (simp add: pixel_order_def image_iff)
  moreover have "map (pixel w w fg) (pixel_order w w) = map (pixel w w fg') (pixel_order w w)"
    using assms(2) unfolding icon_pixels_def
    by (intro concat_injective) (auto simp: zip_map1 zip_map2 length_pixel set_zip)
  ultimately have "pixel w w fg (w div 2, w div 2) = pixel w w fg' (w div 2, w div 2)" by simp
  with middle_pixel [OF assms(1)] show ?thesis by (simp add: bgra_def)
qed

lemma makeConnectionICO_inj:
  assumes "8 \<le> w" and "makeConnectionICO w fg = makeConnectionICO w fg'"
  shows "fg = fg'"
proof -
  have "icon_dib w w fg = icon_dib w w fg'"
    using assms by (simp add: makeConnectionICO_def Let_def)
  then have "icon_pixels w w fg = icon_pixels w w fg'"
    by (simp add: icon_dib_def Let_def write_bih_def)
  then show ?thesis by (rule icon_pixels_inj [OF assms(1)])
qed

text \<open>The icons can be shown and told apart: whatever size up to 256 is asked for, the file is a well-formed
  icon file of one image with a 32-bit bitmap and its mask; a size that is not positive gives one of
  16 by 16; and the states ok, server down and service down have three different files.\<close>

theorem tray_icons_well_formed:
  assumes "sz \<le> 256"
  shows "well_formed_ico (makeConnectionICO sz fg) \<and>
    makeConnectionICO sz fg ! 6 = (if sz \<le> 0 then 16 else of_int sz) \<and>
    distinct (map (\<lambda>st. icon_bytes (icon_for st)) [''ok'', ''server_down'', ''service_down''])"
proof -
  define n where "n = (if sz \<le> 0 then 16 else nat sz)"
  have n: "0 < n" "n \<le> 256" "(of_nat n :: octet) = (if sz \<le> 0 then 16 else of_int sz)"
    using assms by (auto simp: n_def)
  have "(if sz \<le> 0 then 16 else sz) = int n" by (simp add: n_def)
  then have ico: "makeConnectionICO sz fg = makeConnectionICO (int n) fg" for fg
    using n(1) by (simp add: makeConnectionICO_def)
  have "makeConnectionICO (int n) fg ! 6 = of_nat n"
    using n(1,2) by (cases "n = 256") (simp_all add: makeConnectionICO_def Let_def le16_def)
  moreover have "distinct (map (\<lambda>st. icon_bytes (icon_for st)) [''ok'', ''server_down'', ''service_down''])"
    by (auto simp: icon_for_def icon_bytes_def connectedIconBytes_def disconnectedIconBytes_def serviceDownIconBytes_def
        dest!: makeConnectionICO_inj [rotated])
  ultimately show ?thesis
    using ico_well_formed_nat [OF n(1,2), of fg] ico n(3) by simp
qed

theorem tray_icons_well_formed_witness: "well_formed_ico connectedIconBytes"
  using tray_icons_well_formed [of 16] by (simp add: connectedIconBytes_def)

end
