(* ===== verification/SingleInstance.thy ===== *)
theory SingleInstance
  imports Tray RemoteHelper
begin

section \<open>One tray per session (\<open>internal/tray/single_instance_windows.go\<close>)\<close>

text \<open>
  A tray creates the mutex \<open>Local\AppCenterTray\<close> and keeps it until it ends; a tray that finds the mutex
  there already gives up. The processes of a session are interleaved at the calls they make. A named
  mutex exists as long as some process has a handle of it open; the handles of a process are closed
  when it ends.
\<close>

subsection \<open>The code\<close>

definition ERROR_ALREADY_EXISTS :: goerr where
  "ERROR_ALREADY_EXISTS = GoErr ''Cannot create a file when that file already exists.''"

text \<open>
  What \<open>CreateMutex\<close> gives: whether a handle was opened, the error it returns, and what
  \<open>GetLastError\<close> says afterwards. The result is the error, or the handle that \<open>release\<close> closes, and
  whether the handle has been closed before returning.
\<close>

record mutex_result =
  mr_opened :: bool
  mr_err :: "goerr option"
  mr_last :: "goerr option"

definition already_running :: goerr where
  "already_running = GoErr ''tray already running in this session''"

definition mutex_name :: string where
  "mutex_name = ''Local'' @ [CHR 0x5C] @ ''AppCenterTray''"

definition ensureSingleInstance :: "mutex_result \<Rightarrow> goerr option \<times> bool" where
  "ensureSingleInstance r =
     (if has_nul mutex_name then (Some utf16_error, False)
      else case mr_err r of
        Some err \<Rightarrow> (Some err, False)
      | None \<Rightarrow>
          (case mr_last r of
             Some e \<Rightarrow> if errors_Is e ERROR_ALREADY_EXISTS then (Some already_running, True) else (None, False)
           | None \<Rightarrow> (None, False)))"

text \<open>\<open>Run\<close>: the icon and its menu, once the mutex is created.\<close>

definition Run :: "mutex_result \<Rightarrow> tray_event list \<Rightarrow> goerr + bool \<times> TrayState" where
  "Run r evs = (case ensureSingleInstance r of (Some err, _) \<Rightarrow> Inl err | (None, _) \<Rightarrow> Inr (tray_Run evs))"

subsection \<open>The processes of a session\<close>

text \<open>
  What is documented of the call: it may fail; else it opens a handle, and says \<open>ERROR_ALREADY_EXISTS\<close>
  exactly when the mutex was there before. Where it says so is left open: the library's wrapper gives
  it as the error of the call, the code looks for it in \<open>GetLastError\<close>.
\<close>

definition says_exists :: "mutex_result \<Rightarrow> bool" where
  "says_exists r \<longleftrightarrow> mr_err r = Some ERROR_ALREADY_EXISTS \<or>
     mr_err r = None \<and> (\<exists>e. mr_last r = Some e \<and> errors_Is e ERROR_ALREADY_EXISTS)"

definition create_mutex_ok :: "bool \<Rightarrow> mutex_result \<Rightarrow> bool" where
  "create_mutex_ok existed r \<longleftrightarrow>
     (if mr_opened r
      then (says_exists r \<longleftrightarrow> existed) \<and> (mr_err r = None \<or> mr_err r = Some ERROR_ALREADY_EXISTS)
      else mr_err r \<noteq> None)"

datatype tray_process =
    NotStarted
  | Deciding mutex_result
  | TrayRunning
  | Leaving bool
  | Gone

text \<open>Whether a process has a handle open: on the error of the call it is never closed, except by the end of the process.\<close>

fun has_handle :: "tray_process \<Rightarrow> bool" where
  "has_handle (Deciding r) \<longleftrightarrow> mr_opened r"
| "has_handle TrayRunning \<longleftrightarrow> True"
| "has_handle (Leaving leaked) \<longleftrightarrow> leaked"
| "has_handle _ \<longleftrightarrow> False"

type_synonym tray_session = "nat \<Rightarrow> tray_process"

definition mutex_exists :: "tray_session \<Rightarrow> bool" where
  "mutex_exists w \<longleftrightarrow> (\<exists>p. has_handle (w p))"

inductive tray_session_step :: "tray_session \<Rightarrow> tray_session \<Rightarrow> bool" where
  Create: "w p = NotStarted \<Longrightarrow> create_mutex_ok (mutex_exists w) r \<Longrightarrow> tray_session_step w (w(p := Deciding r))"
| Refused: "w p = Deciding r \<Longrightarrow> ensureSingleInstance r = (Some err, closed) \<Longrightarrow>
    tray_session_step w (w(p := Leaving (mr_opened r \<and> \<not> closed)))"
| Accepted: "w p = Deciding r \<Longrightarrow> ensureSingleInstance r = (None, closed) \<Longrightarrow> tray_session_step w (w(p := TrayRunning))"
| Release: "w p = TrayRunning \<Longrightarrow> tray_session_step w (w(p := Leaving False))"
| Crash: "w p = TrayRunning \<Longrightarrow> tray_session_step w (w(p := Gone))"
| Exit: "w p = Leaving leaked \<Longrightarrow> tray_session_step w (w(p := Gone))"

inductive tray_sessions :: "tray_session \<Rightarrow> bool" where
  LogOn: "tray_sessions (\<lambda>_. NotStarted)"
| Step: "tray_sessions w \<Longrightarrow> tray_session_step w w' \<Longrightarrow> tray_sessions w'"

inductive_cases tray_session_stepE: "tray_session_step w w'"

subsection \<open>At most one tray\<close>

text \<open>A process owns the session from the moment its call created the mutex.\<close>

fun owner :: "tray_process \<Rightarrow> bool" where
  "owner (Deciding r) \<longleftrightarrow> mr_opened r \<and> \<not> says_exists r"
| "owner TrayRunning \<longleftrightarrow> True"
| "owner _ \<longleftrightarrow> False"

lemma owner_has_handle: "owner t \<Longrightarrow> has_handle t"
  by (cases t) auto

lemma ensureSingleInstance_refused:
  "says_exists r \<Longrightarrow> \<exists>err closed. ensureSingleInstance r = (Some err, closed)"
  by (auto simp: ensureSingleInstance_def says_exists_def ERROR_ALREADY_EXISTS_def)

lemma ensureSingleInstance_accepted:
  assumes "create_mutex_ok existed r" and "ensureSingleInstance r = (None, closed)"
  shows "mr_opened r \<and> \<not> says_exists r \<and> \<not> existed"
  using assms ensureSingleInstance_refused [of r]
  by (auto simp: create_mutex_ok_def ensureSingleInstance_def split: if_splits option.splits)

definition session_ok :: "tray_session \<Rightarrow> bool" where
  "session_ok w \<longleftrightarrow> (\<forall>p q. owner (w p) \<longrightarrow> owner (w q) \<longrightarrow> p = q) \<and>
     (\<forall>p r. w p = Deciding r \<longrightarrow> (\<exists>existed. create_mutex_ok existed r))"

lemma session_ok_update:
  assumes "session_ok w" and "owner t \<longrightarrow> owner (w p) \<or> (\<forall>q. \<not> owner (w q))"
    and "\<And>r. t = Deciding r \<Longrightarrow> \<exists>existed. create_mutex_ok existed r"
  shows "session_ok (w(p := t))"
  using assms unfolding session_ok_def by (auto split: if_splits)

lemma session_ok_step:
  assumes "tray_session_step w w'" and "session_ok w"
  shows "session_ok w'"
  using assms(1)
proof cases
  case (Create p r)
  have "\<forall>q. \<not> owner (w q)" if "owner (Deciding r)"
    using that Create(3) owner_has_handle by (auto simp: create_mutex_ok_def mutex_exists_def)
  then show ?thesis
    unfolding Create(1) using assms(2) Create(3) by (intro session_ok_update) auto
next
  case (Accepted p r closed)
  then have "owner (w p)"
    using assms(2) ensureSingleInstance_accepted by (fastforce simp: session_ok_def)
  then show ?thesis
    unfolding Accepted(1) using assms(2) by (intro session_ok_update) auto
qed (use assms(2) in \<open>auto intro!: session_ok_update\<close>)

lemma tray_sessions_ok: "tray_sessions w \<Longrightarrow> session_ok w"
proof (induction rule: tray_sessions.induct)
  case LogOn
  then show ?case by (simp add: session_ok_def)
next
  case (Step w w')
  then show ?case using session_ok_step by blast
qed

lemma ensureSingleInstance_iff:
  assumes "create_mutex_ok existed r" and "mr_opened r"
  shows "fst (ensureSingleInstance r) = None \<longleftrightarrow> \<not> existed"
proof -
  have "\<not> has_nul mutex_name" by (simp add: has_nul_def mutex_name_def)
  with assms show ?thesis
    by (auto simp: create_mutex_ok_def says_exists_def ensureSingleInstance_def split: option.splits)
qed

text \<open>C16. There is never more than one tray in a session: whatever processes are started, refused, ended or
  killed in whatever order, and whichever of its two ways Windows takes to say that the mutex exists, at
  most one process is past \<open>ensureSingleInstance\<close>; and a process whose call opens a handle is let through
  exactly when no other process had one open.\<close>

theorem single_instance:
  assumes "tray_sessions w"
  shows "(w p = TrayRunning \<longrightarrow> w q = TrayRunning \<longrightarrow> p = q) \<and>
    (\<forall>r. create_mutex_ok (mutex_exists w) r \<longrightarrow> mr_opened r \<longrightarrow>
       (fst (ensureSingleInstance r) = None \<longleftrightarrow> (\<forall>q. \<not> has_handle (w q))))"
proof -
  have "session_ok w" using assms by (rule tray_sessions_ok)
  then show ?thesis
    using ensureSingleInstance_iff [of "mutex_exists w"]
    by (auto simp: session_ok_def mutex_exists_def)
qed

text \<open>Two processes: the first runs, the second meets its mutex and is refused.\<close>

definition created_first :: mutex_result where
  "created_first = \<lparr>mr_opened = True, mr_err = None, mr_last = None\<rparr>"

definition created_second :: mutex_result where
  "created_second = \<lparr>mr_opened = True, mr_err = Some ERROR_ALREADY_EXISTS, mr_last = Some ERROR_ALREADY_EXISTS\<rparr>"

definition two_trays :: tray_session where
  "two_trays = (\<lambda>_. NotStarted)(0 := Deciding created_first, 0 := TrayRunning, 1 := Deciding created_second)"

lemma two_trays_reachable: "tray_sessions two_trays"
proof -
  let ?w0 = "(\<lambda>_. NotStarted) :: tray_session"
  let ?w1 = "?w0(0 := Deciding created_first)"
  let ?w2 = "?w1(0 := TrayRunning)"
  have "tray_session_step ?w0 ?w1"
    by (rule tray_session_step.Create)
      (simp_all add: create_mutex_ok_def says_exists_def created_first_def mutex_exists_def)
  moreover have "tray_session_step ?w1 ?w2"
    by (rule tray_session_step.Accepted [where r = created_first and closed = False])
      (simp_all add: ensureSingleInstance_def has_nul_def mutex_name_def created_first_def)
  moreover have "tray_session_step ?w2 two_trays"
    unfolding two_trays_def
    by (rule tray_session_step.Create)
      (auto simp: create_mutex_ok_def says_exists_def created_second_def mutex_exists_def intro: exI [of _ 0])
  ultimately show ?thesis
    by (blast intro: tray_sessions.intros)
qed

theorem single_instance_witness:
  "two_trays 0 = TrayRunning \<and> has_handle (two_trays 1) \<and>
   fst (ensureSingleInstance created_second) \<noteq> None"
proof -
  have "create_mutex_ok (mutex_exists two_trays) created_second" "mr_opened created_second"
    by (auto simp: create_mutex_ok_def says_exists_def created_second_def mutex_exists_def two_trays_def intro: exI [of _ 0])
  moreover have "two_trays 0 = TrayRunning" "has_handle (two_trays 1)"
    by (simp_all add: two_trays_def created_second_def)
  ultimately show ?thesis
    using single_instance [OF two_trays_reachable, of 0 0] by blast
qed

end
