(* ===== verification/Spec2Isabelle.thy ===== *)
theory Spec2Isabelle
  imports Supervisor WsService VncServer HelperHandles WtsSessions Installer UpdateHelper Logger
    StoreNative StoreWindow TrayIcon SingleInstance
begin

text \<open>
  A verification development for the AppCenter agent, a Windows service written in Go that carries
  out what a management server asks of a machine: it reports by heartbeats, installs and updates
  software, sends an inventory, updates itself, and lets an administrator connect to the screen of a
  user who agrees.

  \<^bold>\<open>How the program is put together.\<close> \<open>cmd/service\<close> is the service: \<open>runAgent\<close> loads the configuration,
  registers with the server, and starts the goroutines of the heartbeat sender, the signal listener,
  the runtime updater, the WebSocket client and the named pipe. The sender puts the answers of the
  server into a channel; the loop of \<open>runAgent\<close> takes them out, applies the configuration, passes on
  session requests and announcements, and drains the task queue. The callbacks of the WebSocket client
  do the same with pushed messages. \<open>cmd/update-helper\<close> is started by the service to replace its
  executable. \<open>cmd/tray\<close> is the user's side: it talks to the service over the named pipe.

  \<^bold>\<open>Foundations.\<close>
  \<^item> \<open>Go_Prelude\<close>, \<open>Go_Strings\<close>, \<open>Go_Containers\<close>, \<open>Go_OS\<close>: integers of 64 bits, durations and times, errors,
    channels, strings and paths, maps and sorting, files with faults. A Go map is the list of its
    entries in the order one \<open>range\<close> happens to visit them. Contracts are the locales \<open>go_map\<close>,
    \<open>slice_sort\<close> and \<open>file_moves\<close>, interpreted on the definitions there.
  \<^item> \<open>Go_Runes\<close>, \<open>Go_Bytes\<close>, \<open>Go_Float\<close>: texts as characters of UTF-8, numbers as bytes of a file or of
    memory, the rounding of \<open>float64\<close> results.
  \<^item> \<open>Json\<close>: values of type \<open>any\<close>, type assertions, decoding into structs; the locale \<open>message_codec\<close> is
    what both ends of a connection rely on, interpreted in \<open>ApiClient\<close>, \<open>WsConn\<close> and \<open>Ipc\<close>.
  \<^item> \<open>Cmdline\<close>: Windows command lines, written by \<open>buildWindowsCmdline\<close> and read by the
    rules of Go programs and of \<open>CommandLineToArgvW\<close>.
  \<^item> \<open>Backoff\<close>: the locale of waits that double, interpreted on the signal listener and the WebSocket
    client.

  \<^bold>\<open>Components\<close>, each with its state, its operations and what they promise.
  \<^item> \<open>TaskQueue\<close> (\<open>internal/queue\<close>): the queue keeps its invariant; the next task is the least runnable
    one whatever the order of the map; a task is executed at most \<open>maxRetries\<close> times per offer, waits
    longer after each failure, and draining ends. The locale \<open>apps_provider\<close> is what the heartbeat asks
    of it.
  \<^item> \<open>Config\<close> (\<open>internal/config\<close>): what \<open>Load\<close> gives is defaulted, overridden and valid; saving and loading
    again changes nothing.
  \<^item> \<open>Hash\<close>, \<open>Downloader\<close>, \<open>Installer\<close>, \<open>Execute\<close> (\<open>pkg/utils/hash.go\<close>, \<open>internal/downloader\<close>,
    \<open>internal/installer\<close>, \<open>executeCommand\<close> in \<open>cmd/service/core.go\<close>): a download that is resumed leaves a
    prefix of the content, or all of it; the installer runs only on bytes with the announced hash.
  \<^item> \<open>Updater\<close>, \<open>UpdateHelper\<close> (\<open>internal/updater\<close>, \<open>cmd/update-helper\<close>): staging and applying verify the
    binary; the helper never loses the old executable; an update that is handed over ends with the
    announced binary and version in place.
  \<^item> \<open>RuntimeUpdate\<close> (\<open>internal/runtimeupdate\<close>): files are replaced as a whole or not at all.
  \<^item> \<open>RemoteSession\<close>, \<open>RemoteHelper\<close>, \<open>VncServer\<close>, \<open>HelperHandles\<close> (\<open>internal/remotesupport\<close>): the
    session manager as a state machine whose steps are the pieces of its goroutines, with reachability
    and executions as lists of events: no session without consent; one session at a time as long as an
    end starts only on an active session that nothing else works on, and a race of an end with a request
    that leaves the manager stuck; the helper runs in the user's session, its processes refine the
    machine's view of them, and starting it leaks no handle but the one it returns; the texts of the
    approval dialog stay inside their literals.
  \<^item> \<open>WsConn\<close>, \<open>Api\<close>, \<open>ApiClient\<close>, \<open>Payloads\<close>, \<open>Heartbeat\<close> (\<open>internal/wsconn\<close>, \<open>internal/api\<close>,
    \<open>internal/heartbeat\<close>, the parsing in \<open>core.go\<close>): the handshake, with the messages of other goroutines
    in between, the dispatch of messages as the callbacks are documented, the waits between connections;
    reports arrive as they were made; changes of the installed apps are announced
    once.
  \<^item> \<open>System\<close>, \<open>WtsSessions\<close>, \<open>Profile\<close>, \<open>Inventory\<close> (\<open>internal/system\<close>, \<open>internal/inventory\<close>): what is
    collected about the machine; the sessions of Windows are read from memory as they are laid out there;
    the scan lists what is installed, a predicate on the contents of the registry and the store.
  \<^item> \<open>Announcement\<close> (\<open>internal/announcement\<close>): the tracker refines the history of its calls; which sessions
    a message box is sent to.
  \<^item> \<open>Ipc\<close>, \<open>Tray\<close> (\<open>internal/ipc\<close>, \<open>buildIPCHandler\<close>, \<open>internal/tray\<close>, \<open>cmd/tray\<close>): what a client of the pipe
    can bring about; what the tray shows is what the service answered.
  \<^item> \<open>TrayIcon\<close>, \<open>StoreNative\<close>, \<open>Base64\<close> (\<open>internal/tray/icon_windows.go\<close>, \<open>store_native_windows.go\<close>): the
    icon files byte by byte, well-formed and one for each state; the script of the legacy store window,
    in which the apps and a path are base64 literals that PowerShell reads back unchanged.
  \<^item> \<open>StoreWindow\<close>, \<open>SingleInstance\<close> (\<open>internal/tray/store_window_windows.go\<close>,
    \<open>single_instance_windows.go\<close>): the store window as a machine over what is typed, clicked and answered,
    opened once; the trays of a session, of which at most one runs.
  \<^item> \<open>Logger\<close> (\<open>pkg/utils/logger.go\<close>): the rotating log keeps its limit; a failed rotation silences it.
  \<^item> \<open>Core\<close>, \<open>Service\<close>, \<open>Supervisor\<close> (\<open>cmd/service\<close>): the state of the service, its handlers, and the
    machine made of them: \<open>startAgent\<close>, the events of \<open>agent_event\<close>, \<open>agent_step\<close> and \<open>agent_run\<close>. In every
    run the state keeps its invariant, the update helper is started only for a verified update and an
    empty queue, session requests follow the policy of the server, and handling commands refines the
    queue alone. \<open>WsService\<close> makes the callbacks of the WebSocket client events of the machine: servers that
    do not authenticate change nothing, and heartbeats resume when a connection ends. \<open>Supervisor\<close> has the
    process around it: tray process, firewall, exit codes.

  \<^bold>\<open>Conventions.\<close> Names are those of the source; a name that is taken gets a prefix of its component. The
  outcome of the outside world (files, network, clock, other processes, Windows) is a parameter: an
  oracle, a function, or the list of what is read one after the other, gathered in one record per
  component (\<open>dl_env\<close>, \<open>upd_env\<close>, \<open>agent_env\<close> and the like). A theorem over all of them covers every
  combination of faults. Errors are values of \<open>goerr\<close>, a Go panic is \<open>None\<close>. Third-party packages (YAML,
  rate limiter, WebSocket, MIME, CSV) and digests are parameters as well; what is needed of them stands
  as an assumption in the theorem, and the theorem with the suffix \<open>_witness\<close> applies it to a concrete
  world.

  \<^bold>\<open>Bounds and fuel.\<close> No definition stops for lack of fuel without saying so. Loops over what the outside
  delivers recurse over the list of it. The drain of the task queue (\<open>processLoop\<close>, \<open>agent_drain\<close>) is a
  partial function into \<open>option\<close>, and that it returns is a theorem, with the number of attempts that are
  left as the measure.

  \<^bold>\<open>Interleaving.\<close> The session manager is modelled at the grain of its critical sections. In the service,
  a handler runs to its end before the next begins; the source protects the same pieces by \<open>stateMu\<close>,
  except for the self-update, which the loop and the WebSocket callbacks may run at the same time.

  \<^bold>\<open>Not modelled.\<close> The GUI library, the stubs for systems other than Windows, and the constant that holds
  the icon of the program. What PowerShell makes of the scripts that query the machine is a parameter; the
  scripts of the profile and of the legacy store are there as text. Changing the case of letters is modelled
  for ASCII, other bytes are left as they are.
  Log lines are left out everywhere, and so are time-outs of contexts, which show as errors of the calls
  they cancel.
\<close>

end
